(* ===== verification/Prelude.thy ===== *)
theory Prelude
  imports Main "HOL-Library.Word" "HOL-Library.Monad_Syntax" "HOL-Library.State_Monad"
begin

section \<open>Shared types, Go strings and the state monad\<close>

text \<open>
  What the component theories share: the names of Go's machine integers, errors as values,
  the parts of Go's \<^verbatim>\<open>strings\<close>, \<^verbatim>\<open>unicode/utf8\<close>, \<^verbatim>\<open>encoding/hex\<close> and
  \<^verbatim>\<open>fmt\<close> packages that the program uses, and the lemma collections the proofs draw on.

  A Go string is a sequence of bytes; here it is a \<^typ>\<open>string\<close> whose characters are
  bytes, so \<^const>\<open>length\<close> is Go's \<^verbatim>\<open>len\<close> and \<^const>\<open>take\<close> is a slice.
  Where Go iterates over runes, the bytes are decoded as UTF-8 by \<open>runes\<close> below.
\<close>

named_theorems step_simps \<open>unfolding one monadic operation of the model\<close>
named_theorems frame_intros \<open>introduction rules for frame (preservation) properties\<close>
named_theorems bound_simps \<open>bounds and wrap-around facts\<close>

subsection \<open>Machine integers, instants, errors\<close>

type_synonym int32 = "32 word"
type_synonym int64 = "64 word"

text \<open>Nanoseconds since Go's zero time; \<open>0\<close> is the time whose \<^verbatim>\<open>IsZero\<close> is true.\<close>
type_synonym instant = int

definition is_zero_time :: "instant \<Rightarrow> bool" where
  "is_zero_time t \<longleftrightarrow> t = 0"

text \<open>
  Errors carry the classification that \<^verbatim>\<open>apierrors.IsNotFound\<close>,
  \<^verbatim>\<open>IsAlreadyExists\<close> and \<^verbatim>\<open>IsConflict\<close> read, and the text of \<^verbatim>\<open>Error()\<close>.
\<close>
datatype err_kind = NotFound | AlreadyExists | Conflict | OtherError

record go_error =
  ekind :: err_kind
  emsg :: string

abbreviation errorf :: "string \<Rightarrow> go_error" where
  "errorf m \<equiv> \<lparr>ekind = OtherError, emsg = m\<rparr>"

definition is_not_found :: "go_error \<Rightarrow> bool" where
  "is_not_found e \<longleftrightarrow> ekind e = NotFound"

definition is_already_exists :: "go_error \<Rightarrow> bool" where
  "is_already_exists e \<longleftrightarrow> ekind e = AlreadyExists"

definition is_conflict :: "go_error \<Rightarrow> bool" where
  "is_conflict e \<longleftrightarrow> ekind e = Conflict"

lemma err_kind_exclusive [simp]:
  "is_not_found e \<Longrightarrow> \<not> is_already_exists e"
  "is_not_found e \<Longrightarrow> \<not> is_conflict e"
  "is_already_exists e \<Longrightarrow> \<not> is_conflict e"
  by (simp_all add: is_not_found_def is_already_exists_def is_conflict_def)

subsection \<open>Optional values\<close>

definition or_default :: "'a option \<Rightarrow> 'a \<Rightarrow> 'a" where
  "or_default x d = (case x of None \<Rightarrow> d | Some v \<Rightarrow> v)"

lemma or_default_simps [simp]:
  "or_default None d = d" "or_default (Some v) d = v"
  by (simp_all add: or_default_def)

fun find_first :: "('a \<Rightarrow> bool) \<Rightarrow> 'a list \<Rightarrow> 'a option" where
  "find_first P [] = None"
| "find_first P (x # xs) = (if P x then Some x else find_first P xs)"

lemma find_first_None [simp]: "find_first P xs = None \<longleftrightarrow> (\<forall>x \<in> set xs. \<not> P x)"
  by (induction xs) auto

lemma find_first_SomeD: "find_first P xs = Some x \<Longrightarrow> x \<in> set xs \<and> P x"
  by (induction xs) (auto split: if_splits)

lemma find_first_splitD:
  "find_first P xs = Some x \<Longrightarrow> \<exists>us vs. xs = us @ x # vs \<and> (\<forall>u \<in> set us. \<not> P u)"
proof (induction xs)
  case Nil
  then show ?case by simp
next
  case (Cons y ys)
  show ?case
  proof (cases "P y")
    case True
    with Cons.prems show ?thesis
      by (intro exI[of _ "[]"] exI[of _ ys]) simp
  next
    case False
    with Cons obtain us vs where "ys = us @ x # vs" "\<forall>u \<in> set us. \<not> P u"
      by auto
    with False show ?thesis
      by (intro exI[of _ "y # us"] exI[of _ vs]) simp
  qed
qed

lemma find_first_append:
  "\<forall>u \<in> set us. \<not> P u \<Longrightarrow> find_first P (us @ vs) = find_first P vs"
  by (induction us) auto

subsection \<open>Searching and trimming byte strings\<close>

fun has_prefix :: "string \<Rightarrow> string \<Rightarrow> bool" where
  "has_prefix [] s = True"
| "has_prefix (p # ps) [] = False"
| "has_prefix (p # ps) (c # s) = (p = c \<and> has_prefix ps s)"

lemma has_prefix_iff: "has_prefix p s \<longleftrightarrow> (\<exists>t. s = p @ t)"
  by (induction p s rule: has_prefix.induct) auto

text \<open>\<^verbatim>\<open>strings.Contains(s, sub)\<close>\<close>
fun contains_sub :: "string \<Rightarrow> string \<Rightarrow> bool" where
  "contains_sub [] sub = (sub = [])"
| "contains_sub (c # s) sub = (has_prefix sub (c # s) \<or> contains_sub s sub)"

lemma contains_sub_iff: "contains_sub s sub \<longleftrightarrow> (\<exists>u v. s = u @ sub @ v)"
proof (induction s)
  case Nil
  then show ?case by auto
next
  case (Cons c s)
  have "(\<exists>u v. c # s = u @ sub @ v) \<longleftrightarrow> has_prefix sub (c # s) \<or> (\<exists>u v. s = u @ sub @ v)"
    by (auto simp: has_prefix_iff Cons_eq_append_conv)
  with Cons.IH show ?case by simp
qed

text \<open>\<^verbatim>\<open>strings.TrimRight\<close>, \<^verbatim>\<open>TrimLeft\<close> and \<^verbatim>\<open>Trim\<close> with a one-character cutset\<close>
definition trim_right_char :: "char \<Rightarrow> string \<Rightarrow> string" where
  "trim_right_char c s = rev (dropWhile (\<lambda>x. x = c) (rev s))"

definition trim_char :: "char \<Rightarrow> string \<Rightarrow> string" where
  "trim_char c s = trim_right_char c (dropWhile (\<lambda>x. x = c) s)"

lemma set_dropWhile_subset: "set (dropWhile P xs) \<subseteq> set xs"
  by (induction xs) auto

lemma set_trim_right_char: "set (trim_right_char c s) \<subseteq> set s"
  using set_dropWhile_subset[of "\<lambda>x. x = c" "rev s"] by (simp add: trim_right_char_def)

lemma set_trim_char: "set (trim_char c s) \<subseteq> set s"
  unfolding trim_char_def using set_trim_right_char set_dropWhile_subset by (rule order_trans)

lemma length_trim_right_char: "length (trim_right_char c s) \<le> length s"
  using length_dropWhile_le[of "\<lambda>x. x = c" "rev s"] by (simp add: trim_right_char_def)

lemma last_trim_right_char: "trim_right_char c s \<noteq> [] \<Longrightarrow> last (trim_right_char c s) \<noteq> c"
  using hd_dropWhile[of "\<lambda>x. x = c" "rev s"] by (simp add: trim_right_char_def last_rev)

lemma trim_right_char_prefix: "\<exists>n. s = trim_right_char c s @ replicate n c"
proof -
  let ?d = "takeWhile (\<lambda>x. x = c) (rev s)"
  have d: "rev ?d = replicate (length ?d) c"
  proof -
    have "\<forall>x \<in> set (rev ?d). x = c" using set_takeWhileD[of _ "\<lambda>x. x = c" "rev s"] by auto
    then show ?thesis by (metis length_rev replicate_length_same)
  qed
  have "s = rev (?d @ dropWhile (\<lambda>x. x = c) (rev s))" by simp
  also have "\<dots> = trim_right_char c s @ rev ?d" by (simp add: trim_right_char_def del: takeWhile_dropWhile_id)
  finally show ?thesis unfolding d by blast
qed

lemma hd_trim_right_char:
  assumes "trim_right_char c s \<noteq> []"
  shows "hd (trim_right_char c s) = hd s"
proof -
  obtain n where "s = trim_right_char c s @ replicate n c"
    using trim_right_char_prefix by blast
  then have "hd s = hd (trim_right_char c s @ replicate n c)" by simp
  with assms show ?thesis by simp
qed

lemma trim_char_ends:
  assumes "trim_char c s \<noteq> []"
  shows "hd (trim_char c s) \<noteq> c" and "last (trim_char c s) \<noteq> c"
proof -
  have ne: "dropWhile (\<lambda>x. x = c) s \<noteq> []"
    using assms by (metis dropWhile.simps(1) rev.simps(1) trim_char_def trim_right_char_def)
  show "hd (trim_char c s) \<noteq> c"
    using assms hd_trim_right_char hd_dropWhile[OF ne] by (simp add: trim_char_def)
  show "last (trim_char c s) \<noteq> c"
    using assms last_trim_right_char by (simp add: trim_char_def)
qed

text \<open>
  \<^verbatim>\<open>strings.TrimSpace\<close> drops the runes with Unicode's White_Space property from both
  ends; these are their UTF-8 encodings.
\<close>
definition space_encodings :: "string list" where
  "space_encodings =
     map (\<lambda>n. [char_of (n::nat)]) [0x09, 0x0A, 0x0B, 0x0C, 0x0D, 0x20] @
     map (map char_of) [[0xC2, 0x85], [0xC2, 0xA0::nat], [0xE1, 0x9A, 0x80],
       [0xE2, 0x80, 0x80], [0xE2, 0x80, 0x81], [0xE2, 0x80, 0x82], [0xE2, 0x80, 0x83],
       [0xE2, 0x80, 0x84], [0xE2, 0x80, 0x85], [0xE2, 0x80, 0x86], [0xE2, 0x80, 0x87],
       [0xE2, 0x80, 0x88], [0xE2, 0x80, 0x89], [0xE2, 0x80, 0x8A], [0xE2, 0x80, 0xA8],
       [0xE2, 0x80, 0xA9], [0xE2, 0x80, 0xAF], [0xE2, 0x81, 0x9F], [0xE3, 0x80, 0x80]]"

function strip_prefixes :: "string list \<Rightarrow> string \<Rightarrow> string" where
  "strip_prefixes ps s =
     (case find_first (\<lambda>p. p \<noteq> [] \<and> has_prefix p s) ps of
        None \<Rightarrow> s
      | Some p \<Rightarrow> strip_prefixes ps (drop (length p) s))"
  by pat_completeness auto
termination
proof (relation "measure (\<lambda>(ps, s). length s)")
  fix ps :: "string list" and s p :: string
  assume "find_first (\<lambda>p. p \<noteq> [] \<and> has_prefix p s) ps = Some p"
  then have "p \<noteq> []" and "has_prefix p s"
    using find_first_SomeD by fastforce+
  then show "((ps, drop (length p) s), ps, s) \<in> measure (\<lambda>(ps, s). length s)"
    by (auto simp: has_prefix_iff)
qed auto

declare strip_prefixes.simps [simp del]

lemma strip_prefixes_no_prefix:
  assumes "p \<in> set ps" and "p \<noteq> []"
  shows "\<not> has_prefix p (strip_prefixes ps s)"
  using assms
proof (induction ps s rule: strip_prefixes.induct)
  case (1 ps s)
  show ?case
  proof (cases "find_first (\<lambda>p. p \<noteq> [] \<and> has_prefix p s) ps")
    case None
    then have "strip_prefixes ps s = s" by (subst strip_prefixes.simps) (simp del: find_first_None)
    with None 1(2,3) show ?thesis by auto
  next
    case (Some q)
    then have "strip_prefixes ps s = strip_prefixes ps (drop (length q) s)"
      by (subst strip_prefixes.simps) simp
    with Some 1 show ?thesis by simp
  qed
qed

definition trim_space :: "string \<Rightarrow> string" where
  "trim_space s =
     rev (strip_prefixes (map rev space_encodings) (rev (strip_prefixes space_encodings s)))"

text \<open>\<^verbatim>\<open>strings.ReplaceAll(s, c, d)\<close> for one-byte strings, and \<^verbatim>\<open>strings.Join\<close>\<close>
definition replace_char :: "char \<Rightarrow> char \<Rightarrow> string \<Rightarrow> string" where
  "replace_char c d = map (\<lambda>x. if x = c then d else x)"

fun join_with :: "string \<Rightarrow> string list \<Rightarrow> string" where
  "join_with sep [] = []"
| "join_with sep [s] = s"
| "join_with sep (s # t # ss) = s @ sep @ join_with sep (t # ss)"

end
