(* ===== verification/Effects.thy ===== *)
theory Effects
  imports Prelude
begin

section \<open>Effects: frames over the state monad\<close>

text \<open>
  Code that calls the cluster, the network or the clock is a \<^typ>\<open>('w, 'a) state\<close> computation
  over an opaque world \<^typ>\<open>'w\<close>. A frame is a reflexive and transitive relation on worlds
  (\<open>world_frame\<close>); \<^term>\<open>state_io_rel R m\<close> says that \<^term>\<open>m\<close> only moves the world along
  \<^term>\<open>R\<close>. The rules below decompose a computation into its calls.
\<close>

abbreviation ret :: "'a \<Rightarrow> ('w, 'a) state" where
  "ret \<equiv> State_Monad.return"

definition world_frame :: "('w \<Rightarrow> 'w \<Rightarrow> bool) \<Rightarrow> bool" where
  "world_frame R \<longleftrightarrow> reflp R \<and> transp R"

lemma world_frame_refl [simp, intro]: "world_frame R \<Longrightarrow> R w w"
  by (simp add: world_frame_def reflpD)

lemma world_frame_trans: "world_frame R \<Longrightarrow> R u v \<Longrightarrow> R v w \<Longrightarrow> R u w"
  unfolding world_frame_def using transpD by metis

lemma world_frame_eq [simp]: "world_frame (=)"
  by (auto simp: world_frame_def intro: reflpI transpI)

lemma world_frame_true [simp]: "world_frame (\<lambda>_ _. True)"
  by (auto simp: world_frame_def intro: reflpI transpI)

lemma frame_return [frame_intros]: "world_frame R \<Longrightarrow> state_io_rel R (State_Monad.return a)"
  by (simp add: state_io_rel_def)

lemma frame_bind [frame_intros]:
  assumes "world_frame R" "state_io_rel R m" "\<And>a. state_io_rel R (f a)"
  shows "state_io_rel R (State_Monad.bind m f)"
proof (rule state_io_relI)
  fix b s s'
  assume "run_state (State_Monad.bind m f) s = (b, s')"
  then obtain a u where m: "run_state m s = (a, u)" and f: "run_state (f a) u = (b, s')"
    by (auto split: prod.splits)
  have "R s u" using assms(2) m by (rule state_io_relD)
  moreover have "R u s'" using assms(3) f by (rule state_io_relD)
  ultimately show "R s s'" by (rule world_frame_trans[OF assms(1)])
qed

lemma frame_if [frame_intros]:
  "(b \<Longrightarrow> state_io_rel R m) \<Longrightarrow> (\<not> b \<Longrightarrow> state_io_rel R n) \<Longrightarrow> state_io_rel R (if b then m else n)"
  by simp

lemma frame_sum [frame_intros]:
  "(\<And>e. x = Inl e \<Longrightarrow> state_io_rel R (f e)) \<Longrightarrow> (\<And>v. x = Inr v \<Longrightarrow> state_io_rel R (g v)) \<Longrightarrow>
   state_io_rel R (case x of Inl e \<Rightarrow> f e | Inr v \<Rightarrow> g v)"
  by (cases x) auto

lemma frame_option [frame_intros]:
  "(x = None \<Longrightarrow> state_io_rel R m) \<Longrightarrow> (\<And>v. x = Some v \<Longrightarrow> state_io_rel R (f v)) \<Longrightarrow>
   state_io_rel R (case x of None \<Rightarrow> m | Some v \<Rightarrow> f v)"
  by (cases x) auto

lemma frame_prod [frame_intros]:
  "(\<And>a b. x = (a, b) \<Longrightarrow> state_io_rel R (f a b)) \<Longrightarrow> state_io_rel R (case x of (a, b) \<Rightarrow> f a b)"
  by (cases x) auto

text \<open>The continuation only matters on results the first computation can return.\<close>
lemma frame_bind_result:
  assumes "world_frame R" "state_io_rel R m"
    "\<And>a s s'. run_state m s = (a, s') \<Longrightarrow> state_io_rel R (f a)"
  shows "state_io_rel R (State_Monad.bind m f)"
proof (rule state_io_relI)
  fix b s s'
  assume "run_state (State_Monad.bind m f) s = (b, s')"
  then obtain a u where m: "run_state m s = (a, u)" and f: "run_state (f a) u = (b, s')"
    by (auto split: prod.splits)
  have "R s u" using assms(2) m by (rule state_io_relD)
  moreover have "R u s'" using assms(3)[OF m] f by (rule state_io_relD)
  ultimately show "R s s'" by (rule world_frame_trans[OF assms(1)])
qed

lemma frame_run: "state_io_rel R m \<Longrightarrow> R s (snd (run_state m s))"
  by (simp add: state_io_rel_def)

lemma frame_eq_run:
  "state_io_rel (=) m \<Longrightarrow> run_state m s = (fst (run_state m s), s)"
  by (metis frame_run prod.collapse)

lemma bind_cong_run:
  "m = m' \<Longrightarrow> (\<And>a s s'. run_state m' s = (a, s') \<Longrightarrow> run_state (f a) s' = run_state (g a) s') \<Longrightarrow>
   run_state (State_Monad.bind m f) s = run_state (State_Monad.bind m' g) s"
  by (simp split: prod.splits)

end
