(* ===== verification/Api_Types.thy ===== *)
theory Api_Types
  imports Prelude
begin

section \<open>The v1alpha1 API types\<close>

text \<open>
  The structs of \<^verbatim>\<open>api/v1alpha1/obituary_types.go\<close> and
  \<^verbatim>\<open>koronerconfig_types.go\<close>, field by field. A pointer field is an \<^typ>\<open>'a option\<close>
  (\<^const>\<open>None\<close> is nil). Enumerated string types whose values the code only ever takes from
  its own constants are datatypes with one more constructor for the empty string; the two
  whose values may come from outside unchecked (\<^verbatim>\<open>SelfHealAction\<close>, which an LLM reply is
  cast to, and \<^verbatim>\<open>NarratorProvider\<close>) stay strings.
\<close>

subsection \<open>Kubernetes object metadata, as far as the program reads it\<close>

type_synonym labels = "string \<rightharpoonup> string"

text \<open>A Go map that the program ranges over: its entries in the order of the iteration.\<close>
type_synonym go_map = "(string \<times> string) list"

record owner_reference =
  or_api_version :: string
  or_kind :: string
  or_name :: string
  or_uid :: string
  or_controller :: "bool option"

record object_meta =
  om_name :: string
  om_namespace :: string
  om_uid :: string
  om_resource_version :: string
  om_labels :: "labels option"
  om_annotations :: "labels option"
  om_owner_references :: "owner_reference list"

definition zero_meta :: object_meta where
  "zero_meta = \<lparr>om_name = '''', om_namespace = '''', om_uid = '''', om_resource_version = '''',
     om_labels = None, om_annotations = None, om_owner_references = []\<rparr>"

record label_selector =
  ls_match_labels :: go_map
  ls_match_expressions :: "(string \<times> string \<times> string list) list"

record meta_condition =
  mc_type :: string
  mc_status :: string
  mc_reason :: string
  mc_message :: string

subsection \<open>Obituaries\<close>

record subject =
  sub_api_version :: string
  sub_kind :: string
  sub_name :: string
  sub_namespace :: string
  sub_uid :: string

record obituary_spec =
  sp_subject :: subject
  sp_time_of_death :: "instant option"
  sp_death_episode_key :: string

record event_record =
  ev_time :: "instant option"
  ev_type :: string
  ev_reason :: string
  ev_message :: string

record owner_record =
  ow_api_version :: string
  ow_kind :: string
  ow_name :: string

record metrics_snapshot =
  ms_source :: string
  ms_samples :: labels

datatype confidence = ConfidenceUnset | ConfidenceLow | ConfidenceMedium | ConfidenceHigh

datatype heal_outcome = OutcomeUnset | HealApplied | HealDryRun | HealSkipped | HealFailed

type_synonym self_heal_action = string

abbreviation "SelfHealDeletePod \<equiv> ''DeletePod''"
abbreviation "SelfHealRestartWorkload \<equiv> ''RestartWorkload''"
abbreviation "SelfHealBumpMemory \<equiv> ''BumpMemory''"
abbreviation "SelfHealRollbackDeployment \<equiv> ''RollbackDeployment''"

record heal_record =
  hr_time :: "instant option"
  hr_action :: self_heal_action
  hr_outcome :: heal_outcome
  hr_detail :: string
  hr_reason :: string
  hr_decided_by :: string

datatype obituary_phase = PhaseUnset | PhaseInvestigating | PhaseComplete | PhaseFailed

record obituary_status =
  st_phase :: obituary_phase
  st_occurrences :: int32
  st_first_seen :: "instant option"
  st_last_seen :: "instant option"
  st_last_episode :: string
  st_last_pod :: string
  st_cause_of_death :: string
  st_confidence :: confidence
  st_summary :: string
  st_exit_code :: "int32 option"
  st_signal :: "int32 option"
  st_oom_killed :: bool
  st_restart_count :: int32
  st_log_tail :: string
  st_event_timeline :: "event_record list"
  st_owners :: "owner_record list"
  st_metrics :: "metrics_snapshot option"
  st_narrative :: string
  st_heal_attempts :: "heal_record list"
  st_last_heal_at :: "instant option"
  st_conditions :: "meta_condition list"

text \<open>Go's zero value of \<^verbatim>\<open>ObituaryStatus\<close>\<close>
definition zero_status :: obituary_status where
  "zero_status = \<lparr>st_phase = PhaseUnset, st_occurrences = 0, st_first_seen = None,
     st_last_seen = None, st_last_episode = '''', st_last_pod = '''', st_cause_of_death = '''',
     st_confidence = ConfidenceUnset, st_summary = '''', st_exit_code = None, st_signal = None,
     st_oom_killed = False, st_restart_count = 0, st_log_tail = '''', st_event_timeline = [],
     st_owners = [], st_metrics = None, st_narrative = '''', st_heal_attempts = [],
     st_last_heal_at = None, st_conditions = []\<rparr>"

record obituary =
  obit_meta :: object_meta
  obit_spec :: obituary_spec
  obit_status :: obituary_status

subsection \<open>KoronerConfig\<close>

record watch_policy =
  wp_pod_crashes :: "bool option"
  wp_job_failures :: "bool option"
  wp_rollout_failures :: "bool option"
  wp_evictions :: "bool option"

record prometheus_policy =
  prom_enabled :: bool
  prom_url :: string
  prom_queries :: go_map

type_synonym narrator_provider = string

abbreviation "NarratorProviderAnthropic \<equiv> ''anthropic''"
abbreviation "NarratorProviderOpenAI \<equiv> ''openai''"

record secret_key_ref =
  skr_name :: string
  skr_key :: string
  skr_namespace :: string

record narrator_policy =
  np_enabled :: bool
  np_provider :: narrator_provider
  np_model :: string
  np_api_key_secret_ref :: "secret_key_ref option"
  np_base_url :: string

record self_heal_llm_policy =
  hl_enabled :: bool
  hl_provider :: narrator_provider
  hl_model :: string
  hl_api_key_secret_ref :: "secret_key_ref option"
  hl_base_url :: string

record self_heal_policy =
  hp_enabled :: bool
  hp_dry_run :: "bool option"
  hp_min_occurrences :: "int32 option"
  hp_require_high_confidence :: "bool option"
  hp_max_heals_per_hour :: "int32 option"
  hp_namespace_selector :: "label_selector option"
  hp_actions :: "self_heal_action list"
  hp_memory_factor :: "string option"
  hp_memory_max_limit :: "string option"
  hp_llm :: self_heal_llm_policy

record koroner_config_spec =
  cfg_watch :: watch_policy
  cfg_restart_threshold :: "int32 option"
  cfg_log_tail_lines :: "int32 option"
  cfg_namespace_selector :: "label_selector option"
  cfg_obituary_retention :: "int option"
  cfg_prometheus :: prometheus_policy
  cfg_narrator :: narrator_policy
  cfg_self_heal :: self_heal_policy

record koroner_config =
  kc_meta :: object_meta
  kc_spec :: koroner_config_spec
  kc_conditions :: "meta_condition list"

text \<open>Go's zero value of \<^verbatim>\<open>KoronerConfigSpec\<close>\<close>
definition zero_spec :: koroner_config_spec where
  "zero_spec = \<lparr>
     cfg_watch = \<lparr>wp_pod_crashes = None, wp_job_failures = None, wp_rollout_failures = None,
       wp_evictions = None\<rparr>,
     cfg_restart_threshold = None, cfg_log_tail_lines = None, cfg_namespace_selector = None,
     cfg_obituary_retention = None,
     cfg_prometheus = \<lparr>prom_enabled = False, prom_url = '''', prom_queries = []\<rparr>,
     cfg_narrator = \<lparr>np_enabled = False, np_provider = '''', np_model = '''',
       np_api_key_secret_ref = None, np_base_url = ''''\<rparr>,
     cfg_self_heal = \<lparr>hp_enabled = False, hp_dry_run = None, hp_min_occurrences = None,
       hp_require_high_confidence = None, hp_max_heals_per_hour = None,
       hp_namespace_selector = None, hp_actions = [], hp_memory_factor = None,
       hp_memory_max_limit = None,
       hp_llm = \<lparr>hl_enabled = False, hl_provider = '''', hl_model = '''',
         hl_api_key_secret_ref = None, hl_base_url = ''''\<rparr>\<rparr>\<rparr>"

subsection \<open>Confidence is an ordered scale\<close>

text \<open>
  The levels are ordered \<open>Low < Medium < High\<close>, with the unset value below them, so that
  statements about confidence can use the library's order.
\<close>

fun confidence_rank :: "confidence \<Rightarrow> nat" where
  "confidence_rank ConfidenceUnset = 0"
| "confidence_rank ConfidenceLow = 1"
| "confidence_rank ConfidenceMedium = 2"
| "confidence_rank ConfidenceHigh = 3"

fun confidence_text :: "confidence \<Rightarrow> string" where
  "confidence_text ConfidenceUnset = ''''"
| "confidence_text ConfidenceLow = ''Low''"
| "confidence_text ConfidenceMedium = ''Medium''"
| "confidence_text ConfidenceHigh = ''High''"

lemma confidence_rank_inject: "confidence_rank a = confidence_rank b \<longleftrightarrow> a = b"
  by (cases a; cases b) simp_all

instantiation confidence :: linorder
begin

definition less_eq_confidence :: "confidence \<Rightarrow> confidence \<Rightarrow> bool" where
  "less_eq_confidence a b \<longleftrightarrow> confidence_rank a \<le> confidence_rank b"

definition less_confidence :: "confidence \<Rightarrow> confidence \<Rightarrow> bool" where
  "less_confidence a b \<longleftrightarrow> confidence_rank a < confidence_rank b"

instance
  by standard
    (auto simp: less_eq_confidence_def less_confidence_def confidence_rank_inject)

end

lemma confidence_order [simp]:
  "ConfidenceUnset < ConfidenceLow" "ConfidenceLow < ConfidenceMedium"
  "ConfidenceMedium < ConfidenceHigh" "c \<le> ConfidenceHigh"
  by (simp_all add: less_eq_confidence_def less_confidence_def) (cases c; simp)

end
