(* ===== verification/Go_Text.thy ===== *)
theory Go_Text
  imports Prelude
begin

section \<open>UTF-8, lower case, decimal and hexadecimal text\<close>

text \<open>
  The parts of Go's text packages whose result depends on the encoding: decoding a string
  into runes as a \<^verbatim>\<open>range\<close> loop does (an invalid byte is one U+FFFD),
  \<^verbatim>\<open>strings.ToLower\<close>, \<^verbatim>\<open>%d\<close>, and \<^verbatim>\<open>hex.EncodeToString\<close>.
  The Unicode case table is a parameter \<open>uni_lower\<close>: only its values above U+007F
  are consulted, as in \<^verbatim>\<open>unicode.ToLower\<close>.
\<close>

type_synonym rune = nat

definition byte_of :: "char \<Rightarrow> nat" where
  "byte_of c = of_char c"

lemma byte_of_less: "byte_of c < 256"
  by (simp add: byte_of_def)

definition cont :: "nat \<Rightarrow> bool" where
  "cont b \<longleftrightarrow> 0x80 \<le> b \<and> b \<le> 0xBF"

text \<open>\<^verbatim>\<open>utf8.DecodeRune\<close>: the rune and its width in bytes\<close>
fun decode_rune :: "nat list \<Rightarrow> rune \<times> nat" where
  "decode_rune [] = (0xFFFD, 0)"
| "decode_rune (b # bs) =
     (if b < 0x80 then (b, 1)
      else if 0xC2 \<le> b \<and> b \<le> 0xDF then
        (case bs of
           b1 # _ \<Rightarrow> if cont b1 then ((b mod 32) * 64 + b1 mod 64, 2) else (0xFFFD, 1)
         | _ \<Rightarrow> (0xFFFD, 1))
      else if 0xE0 \<le> b \<and> b \<le> 0xEF then
        (case bs of
           b1 # b2 # _ \<Rightarrow>
             if cont b1 \<and> (b = 0xE0 \<longrightarrow> 0xA0 \<le> b1) \<and> (b = 0xED \<longrightarrow> b1 \<le> 0x9F) \<and> cont b2
             then ((b mod 16) * 4096 + (b1 mod 64) * 64 + b2 mod 64, 3) else (0xFFFD, 1)
         | _ \<Rightarrow> (0xFFFD, 1))
      else if 0xF0 \<le> b \<and> b \<le> 0xF4 then
        (case bs of
           b1 # b2 # b3 # _ \<Rightarrow>
             if cont b1 \<and> (b = 0xF0 \<longrightarrow> 0x90 \<le> b1) \<and> (b = 0xF4 \<longrightarrow> b1 \<le> 0x8F) \<and> cont b2 \<and> cont b3
             then ((b mod 8) * 262144 + (b1 mod 64) * 4096 + (b2 mod 64) * 64 + b3 mod 64, 4)
             else (0xFFFD, 1)
         | _ \<Rightarrow> (0xFFFD, 1))
      else (0xFFFD, 1))"

function rune_list :: "nat list \<Rightarrow> rune list" where
  "rune_list [] = []"
| "rune_list (b # bs) =
     (case decode_rune (b # bs) of (r, w) \<Rightarrow> r # rune_list (drop (w - 1) bs))"
  by pat_completeness auto
termination
  by (relation "measure length") auto

definition runes :: "string \<Rightarrow> rune list" where
  "runes s = rune_list (map byte_of s)"

text \<open>\<^verbatim>\<open>utf8.AppendRune\<close>\<close>
definition encode_rune :: "rune \<Rightarrow> string" where
  "encode_rune r =
     map char_of
       (if r < 0x80 then [r]
        else if r < 0x800 then [0xC0 + r div 64, 0x80 + r mod 64]
        else if 0x10FFFF < r \<or> (0xD800 \<le> r \<and> r \<le> 0xDFFF) then [0xEF, 0xBF, 0xBD]
        else if r < 0x10000 then [0xE0 + r div 4096, 0x80 + r div 64 mod 64, 0x80 + r mod 64]
        else [0xF0 + r div 262144, 0x80 + r div 4096 mod 64, 0x80 + r div 64 mod 64, 0x80 + r mod 64])"

definition ascii :: "char \<Rightarrow> bool" where
  "ascii c \<longleftrightarrow> byte_of c < 0x80"

definition lower_ascii :: "rune \<Rightarrow> rune" where
  "lower_ascii r = (if 65 \<le> r \<and> r \<le> 90 then r + 32 else r)"

text \<open>\<^verbatim>\<open>unicode.ToLower\<close> and \<^verbatim>\<open>strings.ToLower\<close>\<close>
definition lower_rune :: "(rune \<Rightarrow> rune) \<Rightarrow> rune \<Rightarrow> rune" where
  "lower_rune uni_lower r = (if r < 0x80 then lower_ascii r else uni_lower r)"

definition to_lower :: "(rune \<Rightarrow> rune) \<Rightarrow> string \<Rightarrow> string" where
  "to_lower uni_lower s =
     (if list_all ascii s then map (\<lambda>c. char_of (lower_ascii (byte_of c))) s
      else concat (map (\<lambda>r. encode_rune (lower_rune uni_lower r)) (runes s)))"

lemma rune_list_ascii: "\<forall>b \<in> set bs. b < 0x80 \<Longrightarrow> rune_list bs = bs"
  by (induction bs) auto

lemma runes_ascii: "list_all ascii s \<Longrightarrow> runes s = map byte_of s"
  by (auto simp: runes_def list_all_iff ascii_def intro!: rune_list_ascii)

lemma length_rune_list: "length (rune_list bs) \<le> length bs"
proof (induction bs rule: rune_list.induct)
  case 1
  then show ?case by simp
next
  case (2 b bs)
  obtain r w where d: "decode_rune (b # bs) = (r, w)" by force
  with 2 show ?case by fastforce
qed

subsection \<open>Decimal numbers\<close>

definition digit_char :: "nat \<Rightarrow> char" where
  "digit_char d = char_of (48 + d)"

definition digit_val :: "char \<Rightarrow> nat" where
  "digit_val c = byte_of c - 48"

definition is_digit :: "char \<Rightarrow> bool" where
  "is_digit c \<longleftrightarrow> 48 \<le> byte_of c \<and> byte_of c \<le> 57"

fun show_nat :: "nat \<Rightarrow> string" where
  "show_nat n = (if n < 10 then [digit_char n] else show_nat (n div 10) @ [digit_char (n mod 10)])"

declare show_nat.simps [simp del]

text \<open>\<^verbatim>\<open>%d\<close> of an integer, and of an \<^verbatim>\<open>int32\<close>\<close>
definition show_int :: "int \<Rightarrow> string" where
  "show_int i = (if i < 0 then CHR ''-'' # show_nat (nat (- i)) else show_nat (nat i))"

definition show_int32 :: "int32 \<Rightarrow> string" where
  "show_int32 w = show_int (sint w)"

definition nat_of_digits :: "string \<Rightarrow> nat" where
  "nat_of_digits s = foldl (\<lambda>a c. 10 * a + digit_val c) 0 s"

lemma byte_of_digit_char [simp]: "d < 10 \<Longrightarrow> byte_of (digit_char d) = 48 + d"
  by (simp add: byte_of_def digit_char_def)

lemma digit_char_simps [simp]:
  "d < 10 \<Longrightarrow> digit_val (digit_char d) = d"
  "d < 10 \<Longrightarrow> is_digit (digit_char d)"
  by (simp_all add: digit_val_def is_digit_def)

lemma show_nat_digits: "\<forall>c \<in> set (show_nat n). is_digit c"
proof (induction n rule: show_nat.induct)
  case (1 n)
  then show ?case by (subst show_nat.simps) auto
qed

lemma show_nat_nonempty: "show_nat n \<noteq> []"
  by (subst show_nat.simps) simp

lemma nat_of_digits_snoc: "nat_of_digits (s @ [c]) = 10 * nat_of_digits s + digit_val c"
  by (simp add: nat_of_digits_def)

lemma nat_of_digits_show_nat: "nat_of_digits (show_nat n) = n"
proof (induction n rule: show_nat.induct)
  case (1 n)
  show ?case
  proof (cases "n < 10")
    case True
    then show ?thesis by (subst show_nat.simps) (simp add: nat_of_digits_def)
  next
    case False
    with 1 have "nat_of_digits (show_nat (n div 10)) = n div 10" by simp
    with False show ?thesis
      by (subst show_nat.simps) (simp add: nat_of_digits_snoc)
  qed
qed

lemma show_nat_inject: "show_nat m = show_nat n \<longleftrightarrow> m = n"
  by (metis nat_of_digits_show_nat)

lemma dash_not_digit: "\<not> is_digit (CHR ''-'')"
  by (simp add: is_digit_def byte_of_def)

lemma show_nat_no_dash: "show_nat m \<noteq> CHR ''-'' # s"
  using show_nat_digits[of m] dash_not_digit by auto

lemma show_int_inject: "show_int i = show_int j \<longleftrightarrow> i = j"
proof -
  have "CHR ''-'' # s \<noteq> show_nat n" for s n
    using show_nat_no_dash[of n s] by metis
  then show ?thesis
    by (auto simp: show_int_def show_nat_inject show_nat_no_dash eq_nat_nat_iff)
qed

lemma show_int_chars: "c \<in> set (show_int i) \<Longrightarrow> is_digit c \<or> c = CHR ''-''"
  using show_nat_digits by (auto simp: show_int_def split: if_splits)

lemma show_int32_inject: "show_int32 v = show_int32 w \<longleftrightarrow> v = w"
  by (auto simp: show_int32_def show_int_inject intro: signed_word_eqI)

lemma slash_not_in_show_int32: "CHR ''/'' \<notin> set (show_int32 w)"
proof
  assume "CHR ''/'' \<in> set (show_int32 w)"
  then have "is_digit (CHR ''/'') \<or> CHR ''/'' = CHR ''-''"
    unfolding show_int32_def by (rule show_int_chars)
  then show False by (simp add: is_digit_def byte_of_def)
qed

subsection \<open>Hexadecimal text\<close>

definition hex_digit :: "nat \<Rightarrow> char" where
  "hex_digit d = (if d < 10 then char_of (48 + d) else char_of (87 + d))"

definition hex_byte :: "8 word \<Rightarrow> string" where
  "hex_byte b = [hex_digit (unat b div 16), hex_digit (unat b mod 16)]"

definition hex_encode :: "8 word list \<Rightarrow> string" where
  "hex_encode bs = concat (map hex_byte bs)"

definition is_hex_lower :: "char \<Rightarrow> bool" where
  "is_hex_lower c \<longleftrightarrow> is_digit c \<or> (97 \<le> byte_of c \<and> byte_of c \<le> 102)"

lemma length_hex_encode [simp]: "length (hex_encode bs) = 2 * length bs"
  by (induction bs) (simp_all add: hex_encode_def hex_byte_def)

lemma is_hex_lower_hex_digit: "d < 16 \<Longrightarrow> is_hex_lower (hex_digit d)"
  by (simp add: is_hex_lower_def hex_digit_def is_digit_def byte_of_def)

lemma hex_encode_chars: "\<forall>c \<in> set (hex_encode bs). is_hex_lower c"
proof -
  have "unat b div 16 < 16" for b :: "8 word"
    using unsigned_less[of b, where ?'a = nat] by simp
  then show ?thesis
    by (auto simp: hex_encode_def hex_byte_def intro!: is_hex_lower_hex_digit)
qed

end
