(* ===== verification/Float64.thy ===== *)
theory Float64
  imports Complex_Main Prelude "HOL-Library.Signed_Division"
begin

section \<open>float64 and int64 arithmetic\<close>

text \<open>
  What the memory actions use of Go's numbers: the conversion of an \<^verbatim>\<open>int64\<close> to
  \<^verbatim>\<open>float64\<close>, multiplication with IEEE 754 round to nearest even, the truncating
  conversion back, and the truncating signed division. Finite values are exact rationals; the
  sign of zero, which no operation here observes, is not represented. The conversion of a value
  that \<^verbatim>\<open>int64\<close> cannot hold is implementation defined in Go: it is the parameter \<open>oor\<close>.
\<close>

datatype float64 = Fin rat | PInf | NInf | NaN

subsection \<open>Rounding\<close>

fun bit_length :: "nat \<Rightarrow> nat" where
  "bit_length n = (if n = 0 then 0 else Suc (bit_length (n div 2)))"

declare bit_length.simps [simp del]

text \<open>The exponent \<open>e\<close> with \<open>2 powi e \<le> x < 2 powi (e + 1)\<close>, for positive \<open>x\<close>\<close>
definition binary_exponent :: "rat \<Rightarrow> int" where
  "binary_exponent x =
     (case quotient_of x of (n, d) \<Rightarrow>
        let k = int (bit_length (nat n)) - int (bit_length (nat d))
        in if 2 powi k \<le> x then k else k - 1)"

definition round_half_even :: "rat \<Rightarrow> int" where
  "round_half_even z =
     (let f = \<lfloor>z\<rfloor>; r = z - of_int f
      in if r < 1 / 2 \<or> (r = 1 / 2 \<and> even f) then f else f + 1)"

text \<open>The spacing of the floats around \<open>x\<close>: 53 bits of significand, no exponent below -1074\<close>
definition quantum :: "rat \<Rightarrow> rat" where
  "quantum x = 2 powi (max (binary_exponent x - 52) (-1074))"

definition round_pos :: "rat \<Rightarrow> rat" where
  "round_pos x = quantum x * of_int (round_half_even (x / quantum x))"

definition fl :: "rat \<Rightarrow> float64" where
  "fl x =
     (if x = 0 then Fin 0
      else if 0 < x then (if 2 ^ 1024 \<le> round_pos x then PInf else Fin (round_pos x))
      else (if 2 ^ 1024 \<le> round_pos (- x) then NInf else Fin (- round_pos (- x))))"

fun float_sign :: "float64 \<Rightarrow> int" where
  "float_sign (Fin x) = (if 0 < x then 1 else if x < 0 then -1 else 0)"
| "float_sign PInf = 1"
| "float_sign NInf = -1"
| "float_sign NaN = 0"

fun float_mul :: "float64 \<Rightarrow> float64 \<Rightarrow> float64" where
  "float_mul (Fin a) (Fin b) = fl (a * b)"
| "float_mul NaN y = NaN"
| "float_mul x NaN = NaN"
| "float_mul x y =
     (let s = float_sign x * float_sign y
      in if 0 < s then PInf else if s < 0 then NInf else NaN)"

text \<open>\<^verbatim>\<open>x <= y\<close>, false as soon as one side is NaN\<close>
fun float_le :: "float64 \<Rightarrow> float64 \<Rightarrow> bool" where
  "float_le (Fin a) (Fin b) = (a \<le> b)"
| "float_le NaN y = False"
| "float_le x NaN = False"
| "float_le NInf y = True"
| "float_le x PInf = True"
| "float_le x y = False"

definition float_of_int64 :: "int64 \<Rightarrow> float64" where
  "float_of_int64 w = fl (of_int (sint w))"

definition truncate_rat :: "rat \<Rightarrow> int" where
  "truncate_rat x = (if 0 \<le> x then \<lfloor>x\<rfloor> else \<lceil>x\<rceil>)"

definition int64_of_float :: "(float64 \<Rightarrow> int64) \<Rightarrow> float64 \<Rightarrow> int64" where
  "int64_of_float oor x =
     (case x of
        Fin r \<Rightarrow>
          if - (2 ^ 63) \<le> truncate_rat r \<and> truncate_rat r < 2 ^ 63 then word_of_int (truncate_rat r)
          else oor x
      | _ \<Rightarrow> oor x)"

subsection \<open>Rounding is monotone\<close>

lemma bit_length_bounds:
  "0 < n \<Longrightarrow> 2 ^ (bit_length n - 1) \<le> n \<and> n < 2 ^ bit_length n \<and> 0 < bit_length n"
proof (induction n rule: bit_length.induct)
  case (1 n)
  show ?case
  proof (cases "n = 1")
    case True
    then show ?thesis by (simp add: bit_length.simps)
  next
    case False
    with 1 have h: "2 ^ (bit_length (n div 2) - 1) \<le> n div 2" "n div 2 < 2 ^ bit_length (n div 2)"
      "0 < bit_length (n div 2)" by auto
    have b: "bit_length n = Suc (bit_length (n div 2))" using "1.prems" by (simp add: bit_length.simps[of n])
    have "(2::nat) ^ bit_length (n div 2) = 2 * 2 ^ (bit_length (n div 2) - 1)"
      using h(3) by (metis Suc_pred' power_Suc)
    with h(1) have "2 ^ bit_length (n div 2) \<le> n" by linarith
    moreover have "n < 2 * 2 ^ bit_length (n div 2)" using h(2) by linarith
    ultimately show ?thesis by (simp add: b)
  qed
qed

lemma binary_exponent_bounds:
  assumes "0 < x"
  shows "2 powi binary_exponent x \<le> x" and "x < 2 powi (binary_exponent x + 1)"
proof -
  obtain n d where q: "quotient_of x = (n, d)" by force
  then have d: "0 < d" and x: "x = of_int n / of_int d"
    using quotient_of_denom_pos quotient_of_div by blast+
  with assms have n: "0 < n" by (simp add: zero_less_divide_iff)
  let ?bn = "bit_length (nat n)" and ?bd = "bit_length (nat d)"
  let ?k = "int ?bn - int ?bd"
  have bn: "2 ^ (?bn - 1) \<le> nat n" "nat n < 2 ^ ?bn" "0 < ?bn"
    and bd: "2 ^ (?bd - 1) \<le> nat d" "nat d < 2 ^ ?bd" "0 < ?bd"
    using bit_length_bounds[of "nat n"] bit_length_bounds[of "nat d"] n d by auto
  have nr: "(of_int n :: rat) = of_nat (nat n)" "(of_int d :: rat) = of_nat (nat d)"
    using n d by (simp_all add: of_nat_nat)
  have n1: "(2::rat) ^ (?bn - 1) \<le> of_int n" "of_int n < (2::rat) ^ ?bn"
    unfolding nr using bn by (metis of_nat_le_iff of_nat_less_iff of_nat_numeral of_nat_power)+
  have d1: "(2::rat) ^ (?bd - 1) \<le> of_int d" "of_int d < (2::rat) ^ ?bd"
    unfolding nr using bd by (metis of_nat_le_iff of_nat_less_iff of_nat_numeral of_nat_power)+
  have "x < 2 ^ ?bn / 2 ^ (?bd - 1)"
    unfolding x using n1(2) d1(1) n d by (intro frac_less) simp_all
  also have "(2::rat) ^ ?bn / 2 ^ (?bd - 1) = 2 powi (?k + 1)"
    using bd(3) by (simp add: power_int_diff power_int_add of_nat_diff flip: power_int_of_nat)
  finally have up: "x < 2 powi (?k + 1)" .
  have "(2::rat) powi (?k - 1) = 2 ^ (?bn - 1) / 2 ^ ?bd"
    using bn(3) by (simp add: power_int_diff of_nat_diff flip: power_int_of_nat)
  also have "\<dots> \<le> x"
    unfolding x using n1(1) d1(2) n d by (intro frac_le) simp_all
  finally have low: "2 powi (?k - 1) \<le> x" .
  show "2 powi binary_exponent x \<le> x" "x < 2 powi (binary_exponent x + 1)"
    using up low by (auto simp: binary_exponent_def q Let_def)
qed

lemma binary_exponent_mono:
  assumes "0 < x" "x \<le> y"
  shows "binary_exponent x \<le> binary_exponent y"
proof (rule ccontr)
  assume "\<not> ?thesis"
  then have "(2::rat) powi (binary_exponent y + 1) \<le> 2 powi binary_exponent x"
    by (intro power_int_increasing) simp_all
  moreover have "2 powi binary_exponent x \<le> x" "y < 2 powi (binary_exponent y + 1)"
    using binary_exponent_bounds assms by simp_all
  ultimately show False using assms(2) by linarith
qed

lemma round_half_even_bounds: "\<lfloor>z\<rfloor> \<le> round_half_even z" "round_half_even z \<le> \<lfloor>z\<rfloor> + 1"
  by (simp_all add: round_half_even_def Let_def)

lemma round_half_even_of_int [simp]: "round_half_even (of_int n) = n"
  by (simp add: round_half_even_def)

lemma round_half_even_mono:
  assumes "y \<le> z"
  shows "round_half_even y \<le> round_half_even z"
proof (cases "\<lfloor>y\<rfloor> = \<lfloor>z\<rfloor>")
  case True
  have "y - of_int \<lfloor>z\<rfloor> \<le> z - of_int \<lfloor>z\<rfloor>" using assms by simp
  then show ?thesis by (auto simp: round_half_even_def Let_def True)
next
  case False
  then have "\<lfloor>y\<rfloor> + 1 \<le> \<lfloor>z\<rfloor>" using floor_mono[OF assms] by linarith
  then show ?thesis using round_half_even_bounds(2)[of y] round_half_even_bounds(1)[of z] by linarith
qed

lemma round_half_even_ge: "of_int n \<le> z \<Longrightarrow> n \<le> round_half_even z"
  using round_half_even_mono[of "of_int n" z] by simp

lemma round_half_even_le: "z \<le> of_int n \<Longrightarrow> round_half_even z \<le> n"
  using round_half_even_mono[of z "of_int n"] by simp

lemma quantum_pos [simp]: "0 < quantum x"
  by (simp add: quantum_def)

text \<open>A power of two above the quantum's is a multiple of the quantum.\<close>
lemma power_multiple_of_quantum:
  assumes "max (binary_exponent x - 52) (-1074) \<le> k"
  obtains n :: int where "2 powi k / quantum x = of_int n"
proof -
  let ?m = "max (binary_exponent x - 52) (-1074)"
  have "2 powi k / quantum x = 2 powi (k - ?m)" by (simp add: quantum_def power_int_diff)
  also have "\<dots> = of_int (2 ^ nat (k - ?m))" using assms by (simp add: power_int_nonneg_exp)
  finally show thesis by (rule that)
qed

lemma round_pos_ge_power:
  assumes "max (binary_exponent x - 52) (-1074) \<le> k" "2 powi k \<le> x"
  shows "2 powi k \<le> round_pos x"
proof -
  obtain n where n: "2 powi k / quantum x = of_int n" using power_multiple_of_quantum[OF assms(1)] .
  then have "of_int n \<le> x / quantum x" using assms(2) by (metis divide_right_mono less_imp_le quantum_pos)
  then have "of_int n \<le> (of_int (round_half_even (x / quantum x)) :: rat)"
    using round_half_even_ge of_int_le_iff by blast
  then have "2 powi k / quantum x \<le> of_int (round_half_even (x / quantum x))" by (simp only: n)
  then show ?thesis by (simp add: round_pos_def divide_le_eq mult.commute)
qed

lemma round_pos_le_power:
  assumes "max (binary_exponent x - 52) (-1074) \<le> k" "x \<le> 2 powi k"
  shows "round_pos x \<le> 2 powi k"
proof -
  obtain n where n: "2 powi k / quantum x = of_int n" using power_multiple_of_quantum[OF assms(1)] .
  then have "x / quantum x \<le> of_int n" using assms(2) by (metis divide_right_mono less_imp_le quantum_pos)
  then have "(of_int (round_half_even (x / quantum x)) :: rat) \<le> of_int n"
    using round_half_even_le of_int_le_iff by blast
  then have "of_int (round_half_even (x / quantum x)) \<le> 2 powi k / quantum x" by (simp only: n)
  then show ?thesis by (simp add: round_pos_def le_divide_eq mult.commute)
qed

lemma round_pos_mono:
  assumes "0 < x" "x \<le> y"
  shows "round_pos x \<le> round_pos y"
proof (cases "quantum x = quantum y")
  case True
  have "x / quantum y \<le> y / quantum y" using assms(2) by (simp add: divide_right_mono less_imp_le)
  then have "round_half_even (x / quantum y) \<le> round_half_even (y / quantum y)"
    by (rule round_half_even_mono)
  then show ?thesis by (simp add: round_pos_def True mult_left_mono less_imp_le)
next
  case False
  let ?ex = "binary_exponent x" and ?ey = "binary_exponent y"
  have le: "?ex \<le> ?ey" using assms by (rule binary_exponent_mono)
  have "max (?ex - 52) (-1074) \<noteq> max (?ey - 52) (-1074)" using False by (auto simp: quantum_def)
  with le have lt: "max (?ex - 52) (-1074) < ?ey - 52" by linarith
  have y: "0 < y" using assms by simp
  have "2 powi ?ey \<le> round_pos y"
    using lt binary_exponent_bounds(1)[OF y] by (intro round_pos_ge_power) auto
  moreover have "round_pos x \<le> 2 powi ?ey"
  proof (rule round_pos_le_power)
    show "max (?ex - 52) (-1074) \<le> ?ey" using lt by simp
    have "(2::rat) powi (?ex + 1) \<le> 2 powi ?ey" using lt by (intro power_int_increasing) auto
    then show "x \<le> 2 powi ?ey" using binary_exponent_bounds(2)[OF assms(1)] by linarith
  qed
  ultimately show ?thesis by linarith
qed

text \<open>Integers of at most 53 bits are floats.\<close>
lemma round_pos_exact:
  assumes "0 < n" "n \<le> 2 ^ 53"
  shows "round_pos (of_int n) = of_int n"
proof -
  let ?x = "of_int n :: rat"
  have e: "binary_exponent ?x \<le> 53"
  proof (rule ccontr)
    assume "\<not> ?thesis"
    then have "(2::rat) powi 54 \<le> 2 powi binary_exponent ?x" by (intro power_int_increasing) simp_all
    also have "\<dots> \<le> ?x" using assms by (intro binary_exponent_bounds) simp
    finally have "(of_int (2 ^ 54) :: rat) \<le> of_int n" by simp
    then have "2 ^ 54 \<le> n" by (simp only: of_int_le_iff)
    with assms(2) show False by simp
  qed
  let ?m = "max (binary_exponent ?x - 52) (-1074)"
  obtain q :: int where q: "?x / quantum ?x = of_int q"
  proof (cases "?m \<le> 0")
    case True
    have "?x / quantum ?x = of_int n * 2 powi (- ?m)"
      by (simp add: quantum_def power_int_minus divide_inverse)
    also have "\<dots> = of_int (n * 2 ^ nat (- ?m))" using True by (simp add: power_int_nonneg_exp)
    finally show thesis by (rule that)
  next
    case False
    with e have m: "?m = 1" "binary_exponent ?x = 53" by auto
    have "(of_int (2 ^ 53) :: rat) \<le> of_int n"
      using binary_exponent_bounds(1)[of ?x] assms(1) m(2) by simp
    then have "2 ^ 53 \<le> n" by (simp only: of_int_le_iff)
    with assms(2) have "n = 2 ^ 53" by simp
    then have "?x / quantum ?x = of_int (2 ^ 52)" using m(1) by (simp add: quantum_def)
    then show thesis by (rule that)
  qed
  have "round_pos ?x = quantum ?x * (?x / quantum ?x)"
    unfolding round_pos_def q by simp
  then show ?thesis using quantum_pos[of ?x] by simp
qed

lemma round_pos_nonneg: "0 < x \<Longrightarrow> 0 \<le> round_pos x"
  using round_half_even_ge[of 0 "x / quantum x"] by (simp add: round_pos_def divide_nonneg_pos less_imp_le)

subsection \<open>Scaling a non-negative integer\<close>

lemma fl_exact:
  assumes "0 \<le> n" "n \<le> 2 ^ 53"
  shows "fl (of_int n) = Fin (of_int n)"
proof (cases "n = 0")
  case False
  with assms have "round_pos (of_int n) = of_int n" by (intro round_pos_exact) auto
  moreover have "\<not> (2 ^ 1024 :: rat) \<le> of_int n"
  proof
    assume "(2 ^ 1024 :: rat) \<le> of_int n"
    then have "(2 ^ 1024 :: int) \<le> n" by (metis of_int_le_iff of_int_numeral of_int_power)
    with assms(2) show False by simp
  qed
  ultimately show ?thesis using assms(1) False by (simp add: fl_def)
qed (simp add: fl_def)

lemma fl_mono:
  assumes "0 \<le> x" "x \<le> y" "fl y = Fin b"
  obtains a where "fl x = Fin a" "0 \<le> a" "a \<le> b"
proof (cases "x = 0")
  case True
  have "0 \<le> b" using assms round_pos_nonneg by (auto simp: fl_def split: if_splits)
  with True that show thesis by (simp add: fl_def)
next
  case False
  with assms(1,2) have x: "0 < x" "0 < y" by auto
  then have "round_pos x \<le> round_pos y" using assms(2) by (intro round_pos_mono)
  with x assms(3) that show thesis using round_pos_nonneg[OF x(1)] by (auto simp: fl_def split: if_splits)
qed

subsection \<open>Truncating division\<close>

definition int64_div :: "int64 \<Rightarrow> int64 \<Rightarrow> int64" where
  "int64_div a b = word_of_int (sint a sdiv sint b)"

definition int64_mod :: "int64 \<Rightarrow> int64 \<Rightarrow> int64" where
  "int64_mod a b = word_of_int (sint a smod sint b)"

lemma sint_word_of_int_64:
  "- (2 ^ 63) \<le> i \<Longrightarrow> i < 2 ^ 63 \<Longrightarrow> sint (word_of_int i :: int64) = i"
  by (simp add: signed_of_int signed_take_bit_int_eq_self)

end
