(* ===== verification/Kube.thy ===== *)
theory Kube
  imports Effects Api_Types Go_Text Float64
begin

section \<open>The cluster: objects read and written, and the client as a parameter\<close>

text \<open>
  The Kubernetes API server, the controller-runtime client, the network and the clock are not
  code of this repository. They are parameters: records of computations over an opaque world
  \<^typ>\<open>'w\<close>, one field per call the program makes. Nothing about them is assumed unless a
  theorem says so; what is assumed is stated as a locale over these fields
  (\<open>retry_contract\<close> here, the obituary store's in its own theory).

  The objects carry the fields the program reads or writes. What it only copies as a whole is
  one opaque field.
\<close>

type_synonym object_key = "string \<times> string"

subsection \<open>Objects\<close>

record terminated_state =
  t_exit_code :: int32
  t_signal :: int32
  t_reason :: string
  t_message :: string

record container_status =
  cs_name :: string
  cs_restart_count :: int32
  cs_terminated :: "terminated_state option"
  cs_waiting_reason :: "string option"
  cs_last_terminated :: "terminated_state option"

record pod =
  pod_meta :: object_meta
  pod_reason :: string
  pod_container_statuses :: "container_status list"

record job_condition =
  jc_type :: string
  jc_status :: string
  jc_message :: string

record job =
  job_meta :: object_meta
  job_conditions :: "job_condition list"

record core_event =
  ce_type :: string
  ce_reason :: string
  ce_message :: string
  ce_last_timestamp :: instant
  ce_event_time :: instant
  ce_first_timestamp :: instant

text \<open>Resource lists map a resource name to a quantity, whose type belongs to apimachinery.\<close>
record 'q container =
  ct_name :: string
  ct_limits :: "(string \<rightharpoonup> 'q) option"
  ct_requests :: "(string \<rightharpoonup> 'q) option"
  ct_other :: string

record 'q pod_spec =
  ps_containers :: "'q container list"
  ps_other :: string

record 'q pod_template =
  pt_meta :: object_meta
  pt_spec :: "'q pod_spec"

text \<open>Deployment, StatefulSet and DaemonSet: metadata, pod template, the rest of the spec.\<close>
record 'q workload =
  wl_meta :: object_meta
  wl_template :: "'q pod_template"
  wl_other :: string

record 'q replica_set =
  rs_meta :: object_meta
  rs_template :: "'q pod_template"

subsection \<open>Label selectors\<close>

text \<open>
  \<^verbatim>\<open>metav1.LabelSelectorAsSelector\<close> turns the policy's selector into an object with the
  two methods the program calls, or an error.
\<close>
record selector =
  sel_empty :: bool
  sel_matches :: "labels \<Rightarrow> bool"

type_synonym selector_lib = "label_selector \<Rightarrow> go_error + selector"

subsection \<open>Library functions\<close>

text \<open>
  Pure functions of the standard library and of apimachinery whose code or tables are outside
  this repository, collected in one parameter: the Unicode case table, the label selector
  compiler, \<^verbatim>\<open>schema.ParseGroupVersion\<close>, the URL check of \<^verbatim>\<open>http.NewRequest\<close>,
  \<^verbatim>\<open>%q\<close>, \<^verbatim>\<open>strconv.ParseFloat\<close>, and the text of the error that
  decoding a JSON text into a type gives when it does not fit.
\<close>
record go_lib =
  lib_uni_lower :: "rune \<Rightarrow> rune"
  lib_selector :: selector_lib
  lib_parse_group_version :: "string \<Rightarrow> go_error + (string \<times> string)"
  lib_request_error :: "string \<Rightarrow> go_error option"
  lib_quote :: "string \<Rightarrow> string"

  lib_parse_float :: "string \<Rightarrow> go_error + float64"
  lib_json_error :: "string \<Rightarrow> string \<Rightarrow> go_error"

subsection \<open>HTTP\<close>

record http_request =
  rq_method :: string
  rq_url :: string
  rq_headers :: "(string \<times> string) list"
  rq_body :: string

text \<open>
  \<open>rsp_read_error\<close> is the error of reading the body to its end, \<open>rsp_body\<close> what was read.
\<close>
record http_response =
  rsp_status_code :: int
  rsp_status :: string
  rsp_body :: string
  rsp_read_error :: "go_error option"

subsection \<open>The client\<close>

record 'w obit_client =
  k_get_obit :: "object_key \<Rightarrow> ('w, go_error + obituary) state"
  k_create_obit :: "obituary \<Rightarrow> ('w, go_error + obituary) state"
  k_update_obit_status :: "obituary \<Rightarrow> ('w, go_error option) state"
  k_retry_on_conflict ::
    "('w \<times> string, go_error option) state \<Rightarrow> ('w \<times> string, go_error option) state"
  k_now :: "('w, instant) state"

record 'w cluster_client = "'w obit_client" +
  k_get_pod :: "object_key \<Rightarrow> ('w, go_error + pod) state"
  k_get_job :: "object_key \<Rightarrow> ('w, go_error + job) state"
  k_get_namespace_labels :: "string \<Rightarrow> ('w, go_error + labels) state"
  k_get_secret_data :: "object_key \<Rightarrow> ('w, go_error + labels) state"
  k_list_configs :: "string \<Rightarrow> ('w, go_error + koroner_config list) state"
  k_get_config :: "object_key \<Rightarrow> ('w, go_error + koroner_config) state"
  k_create_config :: "koroner_config \<Rightarrow> ('w, go_error option) state"
  k_wait_for_cache_sync :: "('w, bool) state"
  k_get_owner_references ::
    "string \<times> string \<Rightarrow> string \<Rightarrow> object_key \<Rightarrow> ('w, go_error + owner_reference list) state"
  k_list_events :: "string \<Rightarrow> string \<Rightarrow> ('w, go_error + core_event list) state"
  k_get_logs :: "object_key \<Rightarrow> string \<Rightarrow> bool \<Rightarrow> int64 \<Rightarrow> ('w, go_error + string) state"
  k_http_do :: "http_request \<Rightarrow> ('w, go_error + http_response) state"

record ('w, 'q) kube_client = "'w cluster_client" +
  k_delete_pod :: "pod \<Rightarrow> ('w, go_error option) state"
  k_get_deployment :: "object_key \<Rightarrow> ('w, go_error + 'q workload) state"
  k_get_stateful_set :: "object_key \<Rightarrow> ('w, go_error + 'q workload) state"
  k_get_daemon_set :: "object_key \<Rightarrow> ('w, go_error + 'q workload) state"
  k_update_deployment :: "'q workload \<Rightarrow> ('w, go_error option) state"
  k_update_stateful_set :: "'q workload \<Rightarrow> ('w, go_error option) state"
  k_update_daemon_set :: "'q workload \<Rightarrow> ('w, go_error option) state"
  k_list_replica_sets :: "string \<Rightarrow> ('w, go_error + 'q replica_set list) state"

subsection \<open>Retry on conflict\<close>

text \<open>
  client-go's \<^verbatim>\<open>retry.RetryOnConflict(backoff, fn)\<close> runs \<^verbatim>\<open>fn\<close>, and runs it again
  after a conflict error until it gives up; it returns the last error. \<open>retry_run\<close> lists the
  executions that description allows. A closure may assign a captured string variable, which
  outlives an attempt: it is the second component of the state.
\<close>
inductive retry_run ::
  "('s, go_error option) state \<Rightarrow> 's \<Rightarrow> go_error option \<Rightarrow> 's \<Rightarrow> bool"
  for fn :: "('s, go_error option) state" where
  last_attempt: "run_state fn s = (e, s') \<Longrightarrow> retry_run fn s e s'"
| after_conflict: "run_state fn s = (Some c, u) \<Longrightarrow> is_conflict c \<Longrightarrow> retry_run fn u e s' \<Longrightarrow>
     retry_run fn s e s'"

locale retry_contract =
  fixes retry :: "('s, go_error option) state \<Rightarrow> ('s, go_error option) state"
  assumes retry_allowed: "run_state (retry fn) s = (e, s') \<Longrightarrow> retry_run fn s e s'"
begin

lemma retry_frame:
  assumes "world_frame R" "state_io_rel R fn"
  shows "state_io_rel R (retry fn)"
proof (rule state_io_relI)
  fix e s s'
  assume "run_state (retry fn) s = (e, s')"
  then have "retry_run fn s e s'" by (rule retry_allowed)
  then show "R s s'"
  proof (induction rule: retry_run.induct)
    case (last_attempt s e s')
    then show ?case using assms(2) by (blast dest: state_io_relD)
  next
    case (after_conflict s c u e s')
    then have "R s u" using assms(2) by (blast dest: state_io_relD)
    with after_conflict.IH show ?case by (blast intro: world_frame_trans[OF assms(1)])
  qed
qed

text \<open>A result that is no conflict after a first attempt without conflict is that attempt's.\<close>
lemma retry_first:
  assumes "run_state fn s = (e, s')" "\<And>c. e = Some c \<Longrightarrow> \<not> is_conflict c"
  shows "run_state (retry fn) s = (e, s')"
proof -
  obtain e2 s2 where r: "run_state (retry fn) s = (e2, s2)" by force
  then have "retry_run fn s e2 s2" by (rule retry_allowed)
  then have "e2 = e \<and> s2 = s'"
    using assms by (auto elim: retry_run.cases)
  with r show ?thesis by simp
qed

lemma retry_ends:
  assumes "run_state (retry fn) s = (e, s')"
  obtains u where "run_state fn u = (e, s')"
proof -
  have "retry_run fn s e s'" using assms by (rule retry_allowed)
  then have "\<exists>u. run_state fn u = (e, s')" by (induction rule: retry_run.induct) auto
  with that show ?thesis by blast
qed

end

text \<open>A closure with no captured variable, and a retried closure seen from outside.\<close>
definition no_capture :: "('w, 'a) state \<Rightarrow> ('w \<times> string, 'a) state" where
  "no_capture m = State (\<lambda>(w, d). case run_state m w of (a, w') \<Rightarrow> (a, (w', d)))"

definition capture :: "string \<Rightarrow> ('w \<times> string, unit) state" where
  "capture d = State (\<lambda>(w, _). ((), (w, d)))"

definition retried ::
  "('w, 'z) obit_client_scheme \<Rightarrow> ('w \<times> string, go_error option) state \<Rightarrow>
   ('w, go_error option \<times> string) state" where
  "retried K fn = State (\<lambda>w. case run_state (k_retry_on_conflict K fn) (w, '''') of
     (e, (w', d)) \<Rightarrow> ((e, d), w'))"

lemma run_no_capture [simp]:
  "run_state (no_capture m) (w, d) = (case run_state m w of (a, w') \<Rightarrow> (a, (w', d)))"
  by (simp add: no_capture_def)

lemma run_capture [simp]: "run_state (capture d) (w, d') = ((), (w, d))"
  by (simp add: capture_def)

lemma run_retried:
  "run_state (retried K fn) w = (case run_state (k_retry_on_conflict K fn) (w, '''') of
     (e, (w', d)) \<Rightarrow> ((e, d), w'))"
  by (simp add: retried_def)

definition on_world :: "('w \<Rightarrow> 'w \<Rightarrow> bool) \<Rightarrow> 'w \<times> string \<Rightarrow> 'w \<times> string \<Rightarrow> bool" where
  "on_world R s t = R (fst s) (fst t)"

lemma world_frame_on_world [simp]: "world_frame R \<Longrightarrow> world_frame (on_world R)"
  unfolding world_frame_def on_world_def reflp_def transp_def by blast

lemma frame_no_capture [frame_intros]:
  assumes "state_io_rel R m"
  shows "state_io_rel (on_world R) (no_capture m)"
proof -
  have "on_world R (w, d) (snd (run_state (no_capture m) (w, d)))" for w d
    using frame_run[OF assms, of w] by (simp add: on_world_def case_prod_unfold)
  then show ?thesis by (simp add: state_io_rel_def)
qed

lemma frame_capture [frame_intros]:
  assumes "world_frame R"
  shows "state_io_rel (on_world R) (capture d)"
  using assms by (simp add: state_io_rel_def on_world_def)

lemma frame_retried [frame_intros]:
  assumes "retry_contract (k_retry_on_conflict K)" "world_frame R" "state_io_rel (on_world R) fn"
  shows "state_io_rel R (retried K fn)"
proof -
  have "state_io_rel (on_world R) (k_retry_on_conflict K fn)"
    by (rule retry_contract.retry_frame[OF assms(1) world_frame_on_world[OF assms(2)] assms(3)])
  then have "on_world R (w, '''') (snd (run_state (k_retry_on_conflict K fn) (w, '''')))" for w
    by (rule frame_run)
  then have "R w (fst (snd (run_state (k_retry_on_conflict K fn) (w, ''''))))" for w
    by (simp add: on_world_def)
  then show ?thesis
    by (simp add: state_io_rel_def run_retried case_prod_unfold)
qed

end
