(* ===== verification/Mem_Server.thy ===== *)
theory Mem_Server
  imports Kube
begin

section \<open>A reference cluster\<close>

text \<open>
  An executable instance of the client parameter, on which the locales about the client are
  interpreted and the theorems about it are applied. It is no part of the program.

  Obituaries live in one write log. An object's revision history is read off the log, and the
  position of an entry is its resource version, so versions are unique by construction. Creation
  assigns a UID and drops the status (it is a subresource), a status update checks the resource
  version. The other
  resources are plain maps. \<open>scripted\<close> lets other writers append to the log before each call; how
  their writes land is a parameter, so the same cluster serves writers with and without a rule.
\<close>

type_synonym write_log = "(object_key \<times> obituary option) list"

record mem =
  m_log :: write_log
  m_clock :: instant
  m_pods :: "object_key \<rightharpoonup> pod"
  m_jobs :: "object_key \<rightharpoonup> job"
  m_namespaces :: "string \<rightharpoonup> labels"
  m_secrets :: "object_key \<rightharpoonup> labels"
  m_configs :: "koroner_config list"
  m_owner_refs :: "(string \<times> string) \<times> string \<times> object_key \<rightharpoonup> owner_reference list"
  m_events :: "string \<times> string \<rightharpoonup> core_event list"
  m_logs :: "object_key \<times> string \<times> bool \<rightharpoonup> string"
  m_http :: "http_request \<Rightarrow> go_error + http_response"
  m_workloads :: "string \<times> object_key \<rightharpoonup> int workload"
  m_replica_sets :: "int replica_set list"

definition obit_key :: "obituary \<Rightarrow> object_key" where
  "obit_key o1 = (om_namespace (obit_meta o1), om_name (obit_meta o1))"

abbreviation obit_rv :: "obituary \<Rightarrow> string" where
  "obit_rv o1 \<equiv> om_resource_version (obit_meta o1)"

definition not_found :: go_error where "not_found = \<lparr>ekind = NotFound, emsg = ''not found''\<rparr>"
definition conflict :: go_error where "conflict = \<lparr>ekind = Conflict, emsg = ''conflict''\<rparr>"
definition already_exists :: go_error where
  "already_exists = \<lparr>ekind = AlreadyExists, emsg = ''already exists''\<rparr>"

lemma server_errors [simp]:
  "is_not_found not_found" "is_conflict conflict" "is_already_exists already_exists"
  by (simp_all add: not_found_def conflict_def already_exists_def is_not_found_def is_conflict_def
      is_already_exists_def)

subsection \<open>Revision histories\<close>

definition stamp :: "nat \<Rightarrow> object_key \<Rightarrow> obituary \<Rightarrow> obituary" where
  "stamp n key x = x\<lparr>obit_meta := (obit_meta x)\<lparr>
     om_namespace := fst key, om_name := snd key, om_resource_version := show_nat n\<rparr>\<rparr>"

fun stamped_from :: "nat \<Rightarrow> write_log \<Rightarrow> write_log" where
  "stamped_from n [] = []"
| "stamped_from n ((key, x) # ws) = (key, map_option (stamp n key) x) # stamped_from (Suc n) ws"

definition log_versions :: "write_log \<Rightarrow> object_key \<Rightarrow> obituary option list" where
  "log_versions ws key = map snd (filter (\<lambda>e. fst e = key) (stamped_from 0 ws))"

abbreviation mem_versions :: "mem \<Rightarrow> object_key \<Rightarrow> obituary option list" where
  "mem_versions w \<equiv> log_versions (m_log w)"

definition latest :: "obituary option list \<Rightarrow> obituary option" where
  "latest vs = (if vs = [] then None else last vs)"

lemma latest_simps [simp]: "latest [] = None" "latest (vs @ [x]) = x"
  by (simp_all add: latest_def)

lemma latest_SomeD: "latest vs = Some x \<Longrightarrow> \<exists>us. vs = us @ [Some x]"
  unfolding latest_def by (metis append_butlast_last_id option.distinct(1))

lemma stamped_from_append:
  "stamped_from n (l @ l') = stamped_from n l @ stamped_from (n + length l) l'"
  by (induction n l rule: stamped_from.induct) simp_all

lemma log_versions_append:
  "log_versions (l @ l') key =
     log_versions l key @ map snd (filter (\<lambda>e. fst e = key) (stamped_from (length l) l'))"
  by (simp add: log_versions_def stamped_from_append)

lemma log_versions_snoc:
  "log_versions (l @ [(k, x)]) key =
     log_versions l key @ (if k = key then [map_option (stamp (length l) k) x] else [])"
  by (simp add: log_versions_append)

lemma length_stamped_from [simp]: "length (stamped_from n l) = length l"
  by (induction n l rule: stamped_from.induct) simp_all

lemma obit_key_stamp [simp]: "obit_key (stamp n key x) = key"
  by (simp add: obit_key_def stamp_def)

lemma stamped_from_in:
  "(key, Some x) \<in> set (stamped_from n l) \<Longrightarrow>
   \<exists>i. obit_rv x = show_nat (n + i) \<and> stamped_from n l ! i = (key, Some x) \<and> obit_key x = key"
proof (induction n l rule: stamped_from.induct)
  case (1 n)
  then show ?case by simp
next
  case (2 n k y ws)
  show ?case
  proof (cases "(key, Some x) = (k, map_option (stamp n k) y)")
    case True
    then show ?thesis
      by (intro exI[of _ 0], cases y) (auto simp: stamp_def obit_key_def)
  next
    case False
    with 2 obtain i where "obit_rv x = show_nat (Suc n + i)"
      "stamped_from (Suc n) ws ! i = (key, Some x)" "obit_key x = key" by auto
    then show ?thesis by (intro exI[of _ "Suc i"]) simp
  qed
qed

lemma in_snd_of_key: "v \<in> set (map snd (filter (\<lambda>e. fst e = k) xs)) \<longleftrightarrow> (k, v) \<in> set xs"
  by (induction xs) auto

lemma log_versions_in: "Some x \<in> set (log_versions l key) \<longleftrightarrow> (key, Some x) \<in> set (stamped_from 0 l)"
  unfolding log_versions_def by (rule in_snd_of_key)

lemma log_versions_key: "Some x \<in> set (log_versions l key) \<Longrightarrow> obit_key x = key"
  using stamped_from_in[of key x 0 l] by (auto simp: log_versions_in)

lemma log_versions_rv:
  assumes "Some x \<in> set (log_versions l key)" "Some y \<in> set (log_versions l key)" "obit_rv x = obit_rv y"
  shows "x = y"
proof -
  obtain i where i: "obit_rv x = show_nat i" "stamped_from 0 l ! i = (key, Some x)"
    using stamped_from_in[of key x 0 l] assms(1) by (auto simp: log_versions_in)
  obtain j where j: "obit_rv y = show_nat j" "stamped_from 0 l ! j = (key, Some y)"
    using stamped_from_in[of key y 0 l] assms(2) by (auto simp: log_versions_in)
  from i(1) j(1) assms(3) have "i = j" by (simp add: show_nat_inject)
  with i j show ?thesis by simp
qed

subsection \<open>Calls\<close>

definition mem_read :: "(mem \<Rightarrow> 'a option) \<Rightarrow> (mem, go_error + 'a) state" where
  "mem_read f = State (\<lambda>w. (case f w of None \<Rightarrow> Inl not_found | Some x \<Rightarrow> Inr x, w))"

definition mem_write :: "(mem \<Rightarrow> mem) \<Rightarrow> (mem, go_error option) state" where
  "mem_write f = State (\<lambda>w. (None, f w))"

definition mem_get_obit :: "object_key \<Rightarrow> (mem, go_error + obituary) state" where
  "mem_get_obit key = mem_read (\<lambda>w. latest (mem_versions w key))"

definition mem_create_obit :: "obituary \<Rightarrow> (mem, go_error + obituary) state" where
  "mem_create_obit x = State (\<lambda>w.
     let key = obit_key x;
         new = x\<lparr>obit_meta := (obit_meta x)\<lparr>om_uid := ''uid-'' @ show_nat (length (m_log w))\<rparr>,
           obit_status := zero_status\<rparr> in
     (case latest (mem_versions w key) of
        Some _ \<Rightarrow> (Inl already_exists, w)
      | None \<Rightarrow> (Inr (stamp (length (m_log w)) key new), w\<lparr>m_log := m_log w @ [(key, Some new)]\<rparr>)))"

definition mem_update_obit_status :: "obituary \<Rightarrow> (mem, go_error option) state" where
  "mem_update_obit_status x = State (\<lambda>w.
     let key = obit_key x in
     (case latest (mem_versions w key) of
        None \<Rightarrow> (Some not_found, w)
      | Some cur \<Rightarrow>
          if obit_rv cur \<noteq> obit_rv x then (Some conflict, w)
          else (None, w\<lparr>m_log := m_log w @ [(key, Some (cur\<lparr>obit_status := obit_status x\<rparr>))]\<rparr>)))"

text \<open>The default backoff makes at most five attempts.\<close>
fun mem_retry :: "nat \<Rightarrow> ('s, go_error option) state \<Rightarrow> ('s, go_error option) state" where
  "mem_retry 0 fn = fn"
| "mem_retry (Suc n) fn = do {
     e \<leftarrow> fn;
     case e of
       Some c \<Rightarrow> if is_conflict c then mem_retry n fn else ret e
     | None \<Rightarrow> ret None
   }"

lemma mem_retry_allowed:
  "run_state (mem_retry n fn) s = (e, s') \<Longrightarrow> retry_run fn s e s'"
proof (induction n arbitrary: s)
  case 0
  then show ?case by (simp add: retry_run.last_attempt)
next
  case (Suc n)
  obtain r u where r: "run_state fn s = (r, u)" by force
  show ?case
  proof (cases "\<exists>c. r = Some c \<and> is_conflict c")
    case True
    then obtain c where c: "r = Some c" "is_conflict c" by blast
    with Suc.prems r have "run_state (mem_retry n fn) u = (e, s')" by simp
    then have "retry_run fn u e s'" by (rule Suc.IH)
    with r c show ?thesis by (blast intro: retry_run.after_conflict)
  next
    case False
    with Suc.prems r have "run_state fn s = (e, s')" by (auto split: option.splits)
    then show ?thesis by (rule retry_run.last_attempt)
  qed
qed

interpretation mem_retries: retry_contract "mem_retry n" for n
  by unfold_locales (rule mem_retry_allowed)

definition config_key :: "koroner_config \<Rightarrow> object_key" where
  "config_key c = (om_namespace (kc_meta c), om_name (kc_meta c))"

definition mem_create_config :: "koroner_config \<Rightarrow> (mem, go_error option) state" where
  "mem_create_config c = State (\<lambda>w.
     if config_key c \<in> config_key ` set (m_configs w) then (Some already_exists, w)
     else (None, w\<lparr>m_configs := m_configs w @ [c]\<rparr>))"

definition wl_key :: "int workload \<Rightarrow> object_key" where
  "wl_key x = (om_namespace (wl_meta x), om_name (wl_meta x))"

definition mem_update_workload :: "string \<Rightarrow> int workload \<Rightarrow> (mem, go_error option) state" where
  "mem_update_workload kind x =
     mem_write (\<lambda>w. w\<lparr>m_workloads := (m_workloads w)((kind, wl_key x) \<mapsto> x)\<rparr>)"

definition mem_client :: "(mem, int) kube_client" where
  "mem_client = \<lparr>
     k_get_obit = mem_get_obit,
     k_create_obit = mem_create_obit,
     k_update_obit_status = mem_update_obit_status,
     k_retry_on_conflict = mem_retry 4,
     k_now = State (\<lambda>w. (m_clock w, w)),
     k_get_pod = (\<lambda>key. mem_read (\<lambda>w. m_pods w key)),
     k_get_job = (\<lambda>key. mem_read (\<lambda>w. m_jobs w key)),
     k_get_namespace_labels = (\<lambda>ns. mem_read (\<lambda>w. m_namespaces w ns)),
     k_get_secret_data = (\<lambda>key. mem_read (\<lambda>w. m_secrets w key)),
     k_list_configs = (\<lambda>ns. State (\<lambda>w.
       (Inr (filter (\<lambda>c. om_namespace (kc_meta c) = ns) (m_configs w)), w))),
     k_get_config = (\<lambda>key. mem_read (\<lambda>w. find_first (\<lambda>c. config_key c = key) (m_configs w))),
     k_create_config = mem_create_config,
     k_wait_for_cache_sync = ret True,
     k_get_owner_references = (\<lambda>gv kind key. mem_read (\<lambda>w. m_owner_refs w (gv, kind, key))),
     k_list_events = (\<lambda>ns uid. mem_read (\<lambda>w. m_events w (ns, uid))),
     k_get_logs = (\<lambda>key c prev n. mem_read (\<lambda>w. m_logs w (key, c, prev))),
     k_http_do = (\<lambda>rq. State (\<lambda>w. (m_http w rq, w))),
     k_delete_pod = (\<lambda>p. mem_write (\<lambda>w. w\<lparr>m_pods :=
       (m_pods w)((om_namespace (pod_meta p), om_name (pod_meta p)) := None)\<rparr>)),
     k_get_deployment = (\<lambda>key. mem_read (\<lambda>w. m_workloads w (''Deployment'', key))),
     k_get_stateful_set = (\<lambda>key. mem_read (\<lambda>w. m_workloads w (''StatefulSet'', key))),
     k_get_daemon_set = (\<lambda>key. mem_read (\<lambda>w. m_workloads w (''DaemonSet'', key))),
     k_update_deployment = mem_update_workload ''Deployment'',
     k_update_stateful_set = mem_update_workload ''StatefulSet'',
     k_update_daemon_set = mem_update_workload ''DaemonSet'',
     k_list_replica_sets = (\<lambda>ns. State (\<lambda>w.
       (Inr (filter (\<lambda>r. om_namespace (rs_meta r) = ns) (m_replica_sets w)), w)))\<rparr>"

definition empty_mem :: mem where
  "empty_mem = \<lparr>m_log = [], m_clock = 1000, m_pods = Map.empty, m_jobs = Map.empty,
     m_namespaces = Map.empty, m_secrets = Map.empty, m_configs = [], m_owner_refs = Map.empty,
     m_events = Map.empty, m_logs = Map.empty, m_http = (\<lambda>_. Inl (errorf ''no network'')),
     m_workloads = Map.empty, m_replica_sets = []\<rparr>"

subsection \<open>Other writers\<close>

text \<open>The batches of foreign writes still to come: one lands before each call.\<close>
type_synonym interference = "write_log list"

definition interfered ::
  "(write_log \<Rightarrow> write_log \<Rightarrow> write_log) \<Rightarrow> mem \<Rightarrow> interference \<Rightarrow> mem" where
  "interfered land w sc = (case sc of [] \<Rightarrow> w | b # _ \<Rightarrow> w\<lparr>m_log := land (m_log w) b\<rparr>)"

definition scripted ::
  "(write_log \<Rightarrow> write_log \<Rightarrow> write_log) \<Rightarrow> (mem, 'a) state \<Rightarrow> (mem \<times> interference, 'a) state" where
  "scripted land m = State (\<lambda>(w, sc).
     case run_state m (interfered land w sc) of (a, w2) \<Rightarrow> (a, (w2, tl sc)))"

definition scripted_client ::
  "(write_log \<Rightarrow> write_log \<Rightarrow> write_log) \<Rightarrow> (mem \<times> interference) obit_client" where
  "scripted_client land = \<lparr>
     k_get_obit = (\<lambda>key. scripted land (mem_get_obit key)),
     k_create_obit = (\<lambda>x. scripted land (mem_create_obit x)),
     k_update_obit_status = (\<lambda>x. scripted land (mem_update_obit_status x)),
     k_retry_on_conflict = mem_retry 4,
     k_now = State (\<lambda>w. (m_clock (fst w), w))\<rparr>"

lemma run_scripted: "run_state (scripted land m) (w, sc) =
   (case run_state m (interfered land w sc) of (a, w2) \<Rightarrow> (a, (w2, tl sc)))"
  by (simp add: scripted_def)

end
