(* ===== verification/Json.thy ===== *)
theory Json
  imports Go_Text
begin

section \<open>JSON\<close>

text \<open>
  What the program uses of \<^verbatim>\<open>encoding/json\<close>. \<^verbatim>\<open>Marshal\<close> is \<open>json_text\<close>: no
  white space, strings escaped for HTML, invalid UTF-8 replaced. \<^verbatim>\<open>Unmarshal\<close> first scans
  the text: the scanner is a machine that takes one byte at a time and holds a stack of the
  arrays and objects it is inside of, at most 10000. The value is then decoded into structs,
  slices and strings, field by field. The text of an error is a library parameter of the code
  that reports it; here an error is \<^const>\<open>None\<close>.
\<close>

datatype json =
    JNull
  | JBool bool
  | JNum string
  | JStr string
  | JArr "json list"
  | JObj "(string \<times> json) list"

abbreviation backslash :: char where "backslash \<equiv> CHR 0x5C"
abbreviation quote_char :: char where "quote_char \<equiv> CHR 0x22"

subsection \<open>Writing\<close>

definition hex4 :: "nat \<Rightarrow> string" where
  "hex4 r = [hex_digit (r div 4096 mod 16), hex_digit (r div 256 mod 16), hex_digit (r div 16 mod 16),
     hex_digit (r mod 16)]"

definition short_escape :: "rune \<rightharpoonup> char" where
  "short_escape = [34 \<mapsto> quote_char, 92 \<mapsto> backslash, 8 \<mapsto> CHR ''b'', 12 \<mapsto> CHR ''f'', 10 \<mapsto> CHR ''n'',
     13 \<mapsto> CHR ''r'', 9 \<mapsto> CHR ''t'']"

text \<open>Control characters, the HTML characters and the two separators that JavaScript breaks at\<close>
definition escaped :: "rune \<Rightarrow> bool" where
  "escaped r \<longleftrightarrow> r < 32 \<or> r = 60 \<or> r = 62 \<or> r = 38 \<or> r = 0x2028 \<or> r = 0x2029"

definition escape_rune :: "rune \<Rightarrow> string" where
  "escape_rune r =
     (case short_escape r of
        Some c \<Rightarrow> [backslash, c]
      | None \<Rightarrow> if escaped r then [backslash, CHR ''u''] @ hex4 r else encode_rune r)"

function json_escape :: "nat list \<Rightarrow> string" where
  "json_escape [] = ''''"
| "json_escape (b # bs) =
     (case decode_rune (b # bs) of (r, w) \<Rightarrow>
        (if r = 0xFFFD \<and> w = 1 then [backslash, CHR ''u''] @ hex4 r else escape_rune r) @
        json_escape (drop (w - 1) bs))"
  by pat_completeness auto
termination
  by (relation "measure length") auto

definition json_string :: "string \<Rightarrow> string" where
  "json_string s = quote_char # json_escape (map byte_of s) @ [quote_char]"

fun json_text :: "json \<Rightarrow> string" where
  "json_text JNull = ''null''"
| "json_text (JBool b) = (if b then ''true'' else ''false'')"
| "json_text (JNum n) = n"
| "json_text (JStr s) = json_string s"
| "json_text (JArr xs) = ''['' @ join_with '','' (map json_text xs) @ '']''"
| "json_text (JObj ms) =
     ''{'' @ join_with '','' (map (\<lambda>(k, v). json_string k @ '':'' @ json_text v) ms) @ ''}''"

subsection \<open>String literals\<close>

definition hex_val :: "char \<Rightarrow> nat option" where
  "hex_val c = (let b = byte_of c in
     if 48 \<le> b \<and> b \<le> 57 then Some (b - 48) else if 97 \<le> b \<and> b \<le> 102 then Some (b - 87)
     else if 65 \<le> b \<and> b \<le> 70 then Some (b - 55) else None)"

text \<open>\<^verbatim>\<open>getu4\<close>: the code unit of a leading \<^verbatim>\<open>\uXXXX\<close>\<close>
fun getu4 :: "string \<Rightarrow> nat option" where
  "getu4 (b # u # h1 # h2 # h3 # h4 # _) =
     (if b = backslash \<and> u = CHR ''u'' then
        (case (hex_val h1, hex_val h2, hex_val h3, hex_val h4) of
           (Some d1, Some d2, Some d3, Some d4) \<Rightarrow> Some (d1 * 4096 + d2 * 256 + d3 * 16 + d4)
         | _ \<Rightarrow> None)
      else None)"
| "getu4 _ = None"

definition is_surrogate :: "nat \<Rightarrow> bool" where
  "is_surrogate r \<longleftrightarrow> 0xD800 \<le> r \<and> r < 0xE000"

text \<open>\<^verbatim>\<open>utf16.DecodeRune\<close>; \<^const>\<open>None\<close> for what is no pair\<close>
definition surrogate_pair :: "nat \<Rightarrow> nat option \<Rightarrow> rune option" where
  "surrogate_pair r1 r2 =
     (case r2 of
        Some r2 \<Rightarrow> if 0xD800 \<le> r1 \<and> r1 < 0xDC00 \<and> 0xDC00 \<le> r2 \<and> r2 < 0xE000
          then Some ((r1 - 0xD800) * 1024 + (r2 - 0xDC00) + 0x10000) else None
      | None \<Rightarrow> None)"

definition unescape :: "char \<rightharpoonup> char" where
  "unescape = [quote_char \<mapsto> quote_char, backslash \<mapsto> backslash, CHR ''/'' \<mapsto> CHR ''/'',
     CHR ''b'' \<mapsto> CHR 0x08, CHR ''f'' \<mapsto> CHR 0x0C, CHR ''n'' \<mapsto> CHR 0x0A, CHR ''r'' \<mapsto> CHR 0x0D,
     CHR ''t'' \<mapsto> CHR 0x09]"

text \<open>\<^verbatim>\<open>unquote\<close> of the inside of a literal that the scanner accepted\<close>
function unquote :: "string \<Rightarrow> string" where
  "unquote [] = []"
| "unquote (c # s) =
     (if c = backslash then
        (case getu4 (c # s) of
           Some r \<Rightarrow>
             if is_surrogate r then
               (case surrogate_pair r (getu4 (drop 5 s)) of
                  Some p \<Rightarrow> encode_rune p @ unquote (drop 11 s)
                | None \<Rightarrow> encode_rune 0xFFFD @ unquote (drop 5 s))
             else encode_rune r @ unquote (drop 5 s)
         | None \<Rightarrow> (case s of
             [] \<Rightarrow> []
           | e # s' \<Rightarrow> (case unescape e of Some d \<Rightarrow> d # unquote s' | None \<Rightarrow> unquote s')))
      else (case decode_rune (map byte_of (c # s)) of (r, w) \<Rightarrow>
        encode_rune r @ unquote (drop (w - 1) s)))"
  by pat_completeness auto
termination
  by (relation "measure length") auto

subsection \<open>The scanner\<close>

datatype number_state = NMinus | NZero | NInt | NDot | NFrac | NExp | NExpSign | NExpDigits

definition is_digit19 :: "char \<Rightarrow> bool" where
  "is_digit19 c \<longleftrightarrow> 49 \<le> byte_of c \<and> byte_of c \<le> 57"

fun number_step :: "number_state \<Rightarrow> char \<Rightarrow> number_state option" where
  "number_step NMinus c = (if c = CHR ''0'' then Some NZero else if is_digit19 c then Some NInt else None)"
| "number_step NZero c =
     (if c = CHR ''.'' then Some NDot else if c \<in> {CHR ''e'', CHR ''E''} then Some NExp else None)"
| "number_step NInt c =
     (if is_digit c then Some NInt else if c = CHR ''.'' then Some NDot
      else if c \<in> {CHR ''e'', CHR ''E''} then Some NExp else None)"
| "number_step NDot c = (if is_digit c then Some NFrac else None)"
| "number_step NFrac c =
     (if is_digit c then Some NFrac else if c \<in> {CHR ''e'', CHR ''E''} then Some NExp else None)"
| "number_step NExp c =
     (if c \<in> {CHR ''+'', CHR ''-''} then Some NExpSign else if is_digit c then Some NExpDigits else None)"
| "number_step NExpSign c = (if is_digit c then Some NExpDigits else None)"
| "number_step NExpDigits c = (if is_digit c then Some NExpDigits else None)"

definition number_complete :: "number_state \<Rightarrow> bool" where
  "number_complete n \<longleftrightarrow> n \<in> {NZero, NInt, NFrac, NExpDigits}"

text \<open>
  What the scanner is inside of, and what it expects next. Elements, members and the characters
  of a literal are collected in reverse; a literal that is a member's key is marked.
\<close>
datatype frame = ArrFrame "json list" | ObjFrame "(string \<times> json) list" | KeyFrame "(string \<times> json) list" string

datatype mode =
    BeginValue
  | BeginValueOrEmpty
  | BeginString
  | BeginStringOrEmpty
  | InString bool string
  | InEscape bool string
  | InHex nat bool string
  | EndKey string
  | InNumber number_state string
  | InLiteral string json
  | EndValue
  | EndTop json

type_synonym scanner = "mode \<times> frame list"

definition max_nesting :: nat where "max_nesting = 10000"

definition is_json_space :: "char \<Rightarrow> bool" where
  "is_json_space c \<longleftrightarrow> c \<in> {CHR '' '', CHR 0x09, CHR 0x0A, CHR 0x0D}"

definition open_frame :: "mode \<Rightarrow> frame \<Rightarrow> frame list \<Rightarrow> scanner option" where
  "open_frame m f fs = (if length fs < max_nesting then Some (m, f # fs) else None)"

text \<open>A value is complete: it goes to the array or the member it stands in.\<close>
fun deliver :: "json \<Rightarrow> frame list \<Rightarrow> scanner option" where
  "deliver v [] = Some (EndTop v, [])"
| "deliver v (ArrFrame xs # fs) = Some (EndValue, ArrFrame (v # xs) # fs)"
| "deliver v (KeyFrame ms k # fs) = Some (EndValue, ObjFrame ((k, v) # ms) # fs)"
| "deliver v (ObjFrame ms # fs) = None"

definition number_start :: "char \<Rightarrow> number_state option" where
  "number_start c =
     (if c = CHR ''-'' then Some NMinus else if c = CHR ''0'' then Some NZero
      else if is_digit19 c then Some NInt else None)"

definition begin_value :: "char \<Rightarrow> frame list \<Rightarrow> scanner option" where
  "begin_value c fs =
     (if c = CHR ''{'' then open_frame BeginStringOrEmpty (ObjFrame []) fs
      else if c = CHR ''['' then open_frame BeginValueOrEmpty (ArrFrame []) fs
      else if c = quote_char then Some (InString False '''', fs)
      else if c = CHR ''t'' then Some (InLiteral ''rue'' (JBool True), fs)
      else if c = CHR ''f'' then Some (InLiteral ''alse'' (JBool False), fs)
      else if c = CHR ''n'' then Some (InLiteral ''ull'' JNull, fs)
      else map_option (\<lambda>n. (InNumber n [c], fs)) (number_start c))"

definition end_value :: "char \<Rightarrow> frame list \<Rightarrow> scanner option" where
  "end_value c fs =
     (case fs of
        ArrFrame xs # fs' \<Rightarrow>
          if c = CHR '','' then Some (BeginValue, fs)
          else if c = CHR '']'' then deliver (JArr (rev xs)) fs' else None
      | ObjFrame ms # fs' \<Rightarrow>
          if c = CHR '','' then Some (BeginString, fs)
          else if c = CHR ''}'' then deliver (JObj (rev ms)) fs' else None
      | _ \<Rightarrow> None)"

text \<open>The closing quote of a literal\<close>
definition end_string :: "bool \<Rightarrow> string \<Rightarrow> frame list \<Rightarrow> scanner option" where
  "end_string key raw fs =
     (if key then Some (EndKey (unquote (rev raw)), fs) else deliver (JStr (unquote (rev raw))) fs)"

text \<open>One byte; \<open>after_value\<close> is also where a byte goes that ends a number.\<close>
definition after_value :: "char \<Rightarrow> scanner \<Rightarrow> scanner option" where
  "after_value c st =
     (if is_json_space c then Some st
      else (case fst st of EndValue \<Rightarrow> end_value c (snd st) | _ \<Rightarrow> None))"

fun scan_step :: "char \<Rightarrow> scanner \<Rightarrow> scanner option" where
  "scan_step c (BeginValue, fs) =
     (if is_json_space c then Some (BeginValue, fs) else begin_value c fs)"
| "scan_step c (BeginValueOrEmpty, fs) =
     (if is_json_space c then Some (BeginValueOrEmpty, fs)
      else if c = CHR '']'' then end_value c fs else begin_value c fs)"
| "scan_step c (BeginString, fs) =
     (if is_json_space c then Some (BeginString, fs)
      else if c = quote_char then Some (InString True '''', fs) else None)"
| "scan_step c (BeginStringOrEmpty, fs) =
     (if is_json_space c then Some (BeginStringOrEmpty, fs)
      else if c = CHR ''}'' then end_value c fs
      else if c = quote_char then Some (InString True '''', fs) else None)"
| "scan_step c (InString key raw, fs) =
     (if c = quote_char then end_string key raw fs
      else if c = backslash then Some (InEscape key (c # raw), fs)
      else if byte_of c < 0x20 then None
      else Some (InString key (c # raw), fs))"
| "scan_step c (InEscape key raw, fs) =
     (if unescape c \<noteq> None then Some (InString key (c # raw), fs)
      else if c = CHR ''u'' then Some (InHex 4 key (c # raw), fs) else None)"
| "scan_step c (InHex n key raw, fs) =
     (if hex_val c = None then None
      else if n \<le> 1 then Some (InString key (c # raw), fs)
      else Some (InHex (n - 1) key (c # raw), fs))"
| "scan_step c (EndKey k, fs) =
     (if is_json_space c then Some (EndKey k, fs)
      else if c = CHR '':'' then
        (case fs of ObjFrame ms # fs' \<Rightarrow> Some (BeginValue, KeyFrame ms k # fs') | _ \<Rightarrow> None)
      else None)"
| "scan_step c (InNumber n raw, fs) =
     (case number_step n c of
        Some n' \<Rightarrow> Some (InNumber n' (c # raw), fs)
      | None \<Rightarrow>
          if number_complete n then Option.bind (deliver (JNum (rev raw)) fs) (after_value c) else None)"
| "scan_step c (InLiteral rest v, fs) =
     (case rest of
        [] \<Rightarrow> None
      | r # rest' \<Rightarrow>
          if c \<noteq> r then None else if rest' = [] then deliver v fs else Some (InLiteral rest' v, fs))"
| "scan_step c (EndValue, fs) = after_value c (EndValue, fs)"
| "scan_step c (EndTop v, fs) = after_value c (EndTop v, fs)"

fun scan_run :: "string \<Rightarrow> scanner \<Rightarrow> scanner option" where
  "scan_run [] st = Some st"
| "scan_run (c # s) st = Option.bind (scan_step c st) (scan_run s)"

definition end_of_text :: "scanner \<Rightarrow> json option" where
  "end_of_text st =
     (case fst st of
        EndTop v \<Rightarrow> Some v
      | _ \<Rightarrow> (case scan_step (CHR '' '') st of Some (EndTop v, _) \<Rightarrow> Some v | _ \<Rightarrow> None))"

text \<open>The value of a text that is one JSON value and white space\<close>
definition json_parse :: "string \<Rightarrow> json option" where
  "json_parse s = Option.bind (scan_run s (BeginValue, [])) end_of_text"

text \<open>
  The first value of a stream, as \<^verbatim>\<open>Decoder.Decode\<close> reads it: the closing bracket of
  an array or an object ends the value at once, any other value ends with the byte after it,
  whatever that is. \<^const>\<open>Inr\<close> is the scanner at the end of an unfinished text.
\<close>
fun json_first :: "string \<Rightarrow> scanner \<Rightarrow> (json option + scanner)" where
  "json_first [] st = Inr st"
| "json_first (c # s) (m, fs) =
     (case (m, fs) of
        (EndTop v, _) \<Rightarrow> Inl (Some v)
      | (InNumber n raw, []) \<Rightarrow>
          (case number_step n c of
             Some n' \<Rightarrow> json_first s (InNumber n' (c # raw), [])
           | None \<Rightarrow> Inl (if number_complete n then Some (JNum (rev raw)) else None))
      | _ \<Rightarrow>
          (case scan_step c (m, fs) of
             None \<Rightarrow> Inl None
           | Some (m', fs') \<Rightarrow>
               (case m' of
                  EndTop v \<Rightarrow> if c \<in> {CHR ''}'', CHR '']''} then Inl (Some v) else json_first s (m', fs')
                | _ \<Rightarrow> json_first s (m', fs'))))"

subsection \<open>Decoding into structs\<close>

text \<open>
  Decoding a value into a variable that holds something already; \<^const>\<open>None\<close> is an
  \<^verbatim>\<open>UnmarshalTypeError\<close>, which \<^verbatim>\<open>Unmarshal\<close> returns after it has decoded the rest.
  \<^verbatim>\<open>null\<close> leaves strings and structs alone and clears slices and pointers.
\<close>
type_synonym 'a decoder = "json \<Rightarrow> 'a \<Rightarrow> 'a option"

text \<open>Runes that fold to an ASCII letter: the Kelvin sign and the long s, beside lower case\<close>
definition fold_rune :: "rune \<Rightarrow> rune" where
  "fold_rune r =
     (if 97 \<le> r \<and> r \<le> 122 then r - 32 else if r = 0x212A then 75 else if r = 0x17F then 83 else r)"

text \<open>A key belongs to the field whose ASCII name it equals up to case.\<close>
definition same_name :: "string \<Rightarrow> string \<Rightarrow> bool" where
  "same_name key name \<longleftrightarrow> map fold_rune (runes key) = map fold_rune (runes name)"

fun decode_string :: "string decoder" where
  "decode_string (JStr s) old = Some s"
| "decode_string JNull old = Some old"
| "decode_string _ old = None"

text \<open>The members in their order; \<open>field k v\<close> decodes into the field of that name, if there is one.\<close>
fun decode_members :: "(string \<Rightarrow> json \<Rightarrow> 'a \<Rightarrow> 'a option) \<Rightarrow> (string \<times> json) list \<Rightarrow> 'a \<Rightarrow> 'a option" where
  "decode_members field [] old = Some old"
| "decode_members field ((k, v) # ms) old = Option.bind (field k v old) (decode_members field ms)"

fun decode_struct :: "(string \<Rightarrow> json \<Rightarrow> 'a \<Rightarrow> 'a option) \<Rightarrow> 'a decoder" where
  "decode_struct field (JObj ms) old = decode_members field ms old"
| "decode_struct field JNull old = Some old"
| "decode_struct field _ old = None"

fun decode_pointer :: "'a decoder \<Rightarrow> 'a \<Rightarrow> 'a option decoder" where
  "decode_pointer dec zero JNull old = Some None"
| "decode_pointer dec zero v old = map_option Some (dec v (or_default old zero))"

text \<open>
  A slice: its elements, and what the backing array still holds behind them. Elements are
  decoded onto what their slot holds, which matters when a key occurs twice.
\<close>
type_synonym 'a slice = "'a list \<times> 'a list"

fun decode_elements :: "'a decoder \<Rightarrow> 'a \<Rightarrow> json list \<Rightarrow> 'a list \<Rightarrow> 'a list option" where
  "decode_elements dec zero [] old = Some []"
| "decode_elements dec zero (v # vs) old =
     (case dec v (case old of [] \<Rightarrow> zero | x # _ \<Rightarrow> x) of
        None \<Rightarrow> None
      | Some y \<Rightarrow> map_option ((#) y) (decode_elements dec zero vs (tl old)))"

fun decode_slice :: "'a decoder \<Rightarrow> 'a \<Rightarrow> 'a slice decoder" where
  "decode_slice dec zero (JArr vs) old =
     (if vs = [] then Some ([], [])
      else map_option (\<lambda>xs. (xs, drop (length vs) (fst old @ snd old)))
        (decode_elements dec zero vs (fst old @ snd old)))"
| "decode_slice dec zero JNull old = Some ([], [])"
| "decode_slice dec zero _ old = None"

text \<open>Decoding into a field of a struct, given its selector and its update, and a key of no field\<close>
definition in_field :: "('s \<Rightarrow> 'a) \<Rightarrow> (('a \<Rightarrow> 'a) \<Rightarrow> 's \<Rightarrow> 's) \<Rightarrow> 'a decoder \<Rightarrow> 's decoder" where
  "in_field get upd dec v s = map_option (\<lambda>x. upd (\<lambda>_. x) s) (dec v (get s))"

definition skip_value :: "'a decoder" where
  "skip_value v s = Some s"

text \<open>\<^verbatim>\<open>json.Unmarshal\<close> into a zero value\<close>
definition unmarshal :: "'a decoder \<Rightarrow> 'a \<Rightarrow> string \<Rightarrow> 'a option" where
  "unmarshal dec zero s = Option.bind (json_parse s) (\<lambda>v. dec v zero)"

end
