(* ===== verification/Evidence.thy ===== *)
theory Evidence
  imports Mem_Server Json "HOL-Library.Multiset" "HOL-Library.AList"
begin

section \<open>Collecting evidence: events, logs, metrics\<close>

text \<open>
  \<^verbatim>\<open>internal/forensics/events.go\<close>, \<^verbatim>\<open>logs.go\<close> and \<^verbatim>\<open>metrics.go\<close>. The
  event timeline is a stable sort by the comparison of the source, which is proved to be a
  strict weak order, as stable sorting requires; the log fetch falls back from the previous
  container instance to the current one; the metrics snapshot is best effort, one Prometheus
  query per template.
\<close>

subsection \<open>Stable sorting by a less function\<close>

text \<open>
  \<^verbatim>\<open>sort.SliceStable\<close> as the stable insertion sort. The locale states what Go requires of
  the less function, a strict weak order; the result is then sorted, a permutation, and keeps
  the order of elements that are equal to each other.
\<close>
fun insert_stable :: "('a \<Rightarrow> 'a \<Rightarrow> bool) \<Rightarrow> 'a \<Rightarrow> 'a list \<Rightarrow> 'a list" where
  "insert_stable lt x [] = [x]"
| "insert_stable lt x (y # ys) = (if lt y x then y # insert_stable lt x ys else x # y # ys)"

definition slice_stable :: "('a \<Rightarrow> 'a \<Rightarrow> bool) \<Rightarrow> 'a list \<Rightarrow> 'a list" where
  "slice_stable lt xs = foldr (insert_stable lt) xs []"

lemma mset_insert_stable [simp]: "mset (insert_stable lt x ys) = add_mset x (mset ys)"
  by (induction ys) auto

lemma mset_slice_stable [simp]: "mset (slice_stable lt xs) = mset xs"
  by (induction xs) (simp_all add: slice_stable_def)

lemma set_insert_stable [simp]: "set (insert_stable lt x ys) = insert x (set ys)"
  by (induction ys) auto

locale strict_weak_order =
  fixes lt :: "'a \<Rightarrow> 'a \<Rightarrow> bool"
  assumes less_asym: "lt a b \<Longrightarrow> \<not> lt b a"
    and less_trans: "lt a b \<Longrightarrow> lt b c \<Longrightarrow> lt a c"
    and not_less_trans: "\<not> lt a b \<Longrightarrow> \<not> lt b c \<Longrightarrow> \<not> lt a c"
begin

definition same :: "'a \<Rightarrow> 'a \<Rightarrow> bool" where
  "same a b \<longleftrightarrow> \<not> lt a b \<and> \<not> lt b a"

lemma sorted_insert_stable:
  "sorted_wrt (\<lambda>a b. \<not> lt b a) ys \<Longrightarrow> sorted_wrt (\<lambda>a b. \<not> lt b a) (insert_stable lt x ys)"
proof (induction ys)
  case (Cons y ys)
  then have ys: "sorted_wrt (\<lambda>a b. \<not> lt b a) ys" "\<forall>z \<in> set ys. \<not> lt z y" by simp_all
  show ?case
  proof (cases "lt y x")
    case True
    then have "\<not> lt x y" by (rule less_asym)
    with True ys Cons.IH show ?thesis by simp
  next
    case False
    with ys(2) have "\<forall>z \<in> set ys. \<not> lt z x" using not_less_trans by blast
    with False ys show ?thesis by simp
  qed
qed simp

lemma slice_stable_sorted: "sorted_wrt (\<lambda>a b. \<not> lt b a) (slice_stable lt xs)"
  by (induction xs) (simp_all add: slice_stable_def sorted_insert_stable)

lemma filter_insert_stable:
  "sorted_wrt (\<lambda>a b. \<not> lt b a) ys \<Longrightarrow>
   filter (same z) (insert_stable lt x ys) = (if same z x then x # filter (same z) ys else filter (same z) ys)"
proof (induction ys)
  case (Cons y ys)
  have "\<not> same z y" if "lt y x" "same z x"
    using that less_trans not_less_trans less_asym unfolding same_def by blast
  with Cons show ?case by auto
qed simp

lemma slice_stable_stable: "filter (same z) (slice_stable lt xs) = filter (same z) xs"
proof (induction xs)
  case (Cons x xs)
  then show ?case using filter_insert_stable[OF slice_stable_sorted[of xs]]
    by (simp add: slice_stable_def)
qed (simp add: slice_stable_def)

end

text \<open>What a sort by a less function promises where ties may fall either way, as
  \<^verbatim>\<open>sort.Slice\<close> documents it; the stable sort keeps the promise.\<close>
locale slice_sort =
  fixes sort :: "('a \<Rightarrow> 'a \<Rightarrow> bool) \<Rightarrow> 'a list \<Rightarrow> 'a list"
  assumes sort_perm: "strict_weak_order lt \<Longrightarrow> mset (sort lt xs) = mset xs"
    and sort_sorted: "strict_weak_order lt \<Longrightarrow> sorted_wrt (\<lambda>a b. \<not> lt b a) (sort lt xs)"
begin

lemma sort_length: "strict_weak_order lt \<Longrightarrow> length (sort lt xs) = length xs"
  using sort_perm[of lt xs] by (metis size_mset)

end

interpretation insertion: slice_sort slice_stable
proof (rule slice_sort.intro)
  show "mset (slice_stable lt xs) = mset xs" for lt :: "'a \<Rightarrow> 'a \<Rightarrow> bool" and xs by simp
  show "sorted_wrt (\<lambda>a b. \<not> lt b a) (slice_stable lt xs)" if "strict_weak_order lt"
    for lt :: "'a \<Rightarrow> 'a \<Rightarrow> bool" and xs
    using that by (rule strict_weak_order.slice_stable_sorted)
qed

subsection \<open>The event timeline\<close>

definition eventTime :: "core_event \<Rightarrow> instant option" where
  "eventTime ev =
     (if \<not> is_zero_time (ce_last_timestamp ev) then Some (ce_last_timestamp ev)
      else if \<not> is_zero_time (ce_event_time ev) then Some (ce_event_time ev)
      else if \<not> is_zero_time (ce_first_timestamp ev) then Some (ce_first_timestamp ev)
      else None)"

definition event_record_of :: "core_event \<Rightarrow> event_record" where
  "event_record_of ev = \<lparr>ev_time = eventTime ev, ev_type = ce_type ev, ev_reason = ce_reason ev,
     ev_message = ce_message ev\<rparr>"

text \<open>The less function given to \<^verbatim>\<open>sort.SliceStable\<close>\<close>
definition event_less :: "event_record \<Rightarrow> event_record \<Rightarrow> bool" where
  "event_less a b =
     (if ev_time a = None \<or> ev_time b = None then ev_time a \<noteq> None
      else the (ev_time a) < the (ev_time b))"

definition Events ::
  "('w, 'z) cluster_client_scheme \<Rightarrow> string \<Rightarrow> string \<Rightarrow> ('w, go_error + event_record list) state" where
  "Events K ns uid = do {
     r \<leftarrow> k_list_events K ns uid;
     case r of
       Inl err \<Rightarrow> ret (Inl err)
     | Inr items \<Rightarrow> ret (Inr (slice_stable event_less (map event_record_of items)))
   }"

text \<open>What the timeline promises: oldest first, events without a time last.\<close>
definition in_order :: "event_record \<Rightarrow> event_record \<Rightarrow> bool" where
  "in_order a b \<longleftrightarrow>
     (case ev_time b of None \<Rightarrow> True
      | Some t \<Rightarrow> (case ev_time a of None \<Rightarrow> False | Some s \<Rightarrow> s \<le> t))"

interpretation timed: strict_weak_order event_less
  by unfold_locales (auto simp: event_less_def split: if_splits)

lemma not_later_in_order: "\<not> event_less b a \<longleftrightarrow> in_order a b"
  by (auto simp: event_less_def in_order_def split: option.splits)

lemma same_time: "timed.same a b \<longleftrightarrow> ev_time a = ev_time b"
  by (auto simp: timed.same_def event_less_def)

lemma timeline:
  shows timeline_perm: "mset (slice_stable event_less evs) = mset evs"
    and timeline_sorted: "sorted_wrt in_order (slice_stable event_less evs)"
    and timeline_stable: "filter (\<lambda>e. ev_time e = t) (slice_stable event_less evs) =
      filter (\<lambda>e. ev_time e = t) evs"
proof -
  show "mset (slice_stable event_less evs) = mset evs" by simp
  show "sorted_wrt in_order (slice_stable event_less evs)"
    using timed.slice_stable_sorted[of evs] by (simp only: not_later_in_order)
  let ?x = "\<lparr>ev_time = t, ev_type = '''', ev_reason = '''', ev_message = ''''\<rparr>"
  have "timed.same ?x = (\<lambda>e. ev_time e = t)" by (auto simp: same_time fun_eq_iff)
  then show "filter (\<lambda>e. ev_time e = t) (slice_stable event_less evs) = filter (\<lambda>e. ev_time e = t) evs"
    using timed.slice_stable_stable[of ?x evs] by simp
qed

lemma Events_frame:
  "world_frame R \<Longrightarrow> state_io_rel R (k_list_events K ns uid) \<Longrightarrow> state_io_rel R (Events K ns uid)"
  unfolding Events_def by (intro frame_intros)

subsection \<open>Logs\<close>

definition PreviousLogs ::
  "('w, 'z) cluster_client_scheme \<Rightarrow> string \<Rightarrow> string \<Rightarrow> string \<Rightarrow> int64 \<Rightarrow>
   ('w, go_error + string) state" where
  "PreviousLogs K ns pod container tailLines = do {
     r \<leftarrow> k_get_logs K (ns, pod) container True tailLines;
     case r of
       Inr b \<Rightarrow> ret (Inr b)
     | Inl err \<Rightarrow> do {
         r2 \<leftarrow> k_get_logs K (ns, pod) container False tailLines;
         case r2 of
           Inl ferr \<Rightarrow> ret (Inl err)
         | Inr b \<Rightarrow> ret (Inr b)
       }
   }"

lemma PreviousLogs_frame:
  "world_frame R \<Longrightarrow> (\<And>p. state_io_rel R (k_get_logs K (ns, pod) c p n)) \<Longrightarrow>
   state_io_rel R (PreviousLogs K ns pod c n)"
  unfolding PreviousLogs_def by (intro frame_intros)

subsection \<open>Metrics\<close>

text \<open>
  \<^verbatim>\<open>strings.NewReplacer(...).Replace\<close>: at each position the first pair whose old string
  starts there is replaced, and the scan goes on behind it.
\<close>
function replace_pairs :: "(string \<times> string) list \<Rightarrow> string \<Rightarrow> string" where
  "replace_pairs ps [] = []"
| "replace_pairs ps (c # s) =
     (case find_first (\<lambda>(old, new). old \<noteq> [] \<and> has_prefix old (c # s)) ps of
        Some (old, new) \<Rightarrow> new @ replace_pairs ps (drop (length old) (c # s))
      | None \<Rightarrow> c # replace_pairs ps s)"
  by pat_completeness auto
termination
proof (relation "measure (\<lambda>(ps, s). length s)")
  fix ps :: "(string \<times> string) list" and c s p old new
  assume "find_first (\<lambda>(old, new). old \<noteq> [] \<and> has_prefix old (c # s)) ps = Some p" "(old, new) = p"
  then have "find_first (\<lambda>(old, new). old \<noteq> [] \<and> has_prefix old (c # s)) ps = Some (old, new)"
    by simp
  from find_first_SomeD[OF this] have "old \<noteq> []" by simp
  then show "((ps, drop (length old) (c # s)), ps, c # s) \<in> measure (\<lambda>(ps, s). length s)"
    by (cases old) auto
qed auto

definition query_safe :: "char \<Rightarrow> bool" where
  "query_safe c \<longleftrightarrow>
     (let b = byte_of c in (97 \<le> b \<and> b \<le> 122) \<or> (65 \<le> b \<and> b \<le> 90) \<or> (48 \<le> b \<and> b \<le> 57)) \<or>
     c \<in> set ''-_.~''"

definition upper_hex_digit :: "nat \<Rightarrow> char" where
  "upper_hex_digit d = (if d < 10 then char_of (48 + d) else char_of (55 + d))"

text \<open>\<^verbatim>\<open>url.QueryEscape\<close>\<close>
definition query_escape :: "string \<Rightarrow> string" where
  "query_escape s = concat (map (\<lambda>c.
     if query_safe c then [c] else if c = CHR '' '' then ''+''
     else [CHR ''%'', upper_hex_digit (byte_of c div 16), upper_hex_digit (byte_of c mod 16)]) s)"

text \<open>\<^verbatim>\<open>Time.Unix\<close>: whole seconds since 1970, for an instant counted from year 1\<close>
definition unix_seconds :: "instant \<Rightarrow> int" where
  "unix_seconds t = t div 1000000000 - 62135596800"


record metrics_config =
  mt_url :: string
  mt_queries :: go_map

definition defaultMetricQueries :: go_map where
  \<open>defaultMetricQueries = [
     (''memory_bytes'', ''max(container_memory_working_set_bytes{pod="{{pod}}",namespace="{{namespace}}"})''),
     (''cpu_cores'', ''max(rate(container_cpu_usage_seconds_total{pod="{{pod}}",namespace="{{namespace}}"}[2m]))''),
     (''restart_total'', ''max(kube_pod_container_status_restarts_total{pod="{{pod}}",namespace="{{namespace}}"})'')]\<close>

definition prom_request :: "string \<Rightarrow> string \<Rightarrow> instant \<Rightarrow> http_request" where
  "prom_request base query moment = \<lparr>rq_method = ''GET'',
     rq_url = (trim_right_char CHR ''/'' base @ ''/api/v1/query'') @ ''?'' @
       ''query='' @ query_escape query @ ''&time='' @ query_escape (show_int (unix_seconds moment)),
     rq_headers = [], rq_body = ''''\<rparr>"

text \<open>
  The reply: \<open>data\<close> is a struct of \<open>result\<close>, a slice of structs of \<open>value\<close>, an array of two
  values of any type. Structs of one field are that field. Decoding into an interface turns each
  number into a \<^verbatim>\<open>float64\<close>, which fails where it overflows; the values themselves stay JSON
  values here, \<^const>\<open>JNull\<close> the nil interface.
\<close>
fun numbers_fit :: "('l) go_lib_scheme \<Rightarrow> json \<Rightarrow> bool" where
  "numbers_fit L (JNum n) = (\<not> isl (lib_parse_float L n))"
| "numbers_fit L (JArr xs) = list_all (numbers_fit L) xs"
| "numbers_fit L (JObj ms) = list_all (\<lambda>(k, v). numbers_fit L v) ms"
| "numbers_fit L v = True"

fun decode_two :: "('l) go_lib_scheme \<Rightarrow> (json \<times> json) decoder" where
  "decode_two L (JArr vs) old =
     (let xs = take 2 (vs @ [JNull, JNull]) in
      if list_all (numbers_fit L) xs then Some (xs ! 0, xs ! 1) else None)"
| "decode_two L JNull old = Some old"
| "decode_two L v old = None"

definition prom_reply :: "('l) go_lib_scheme \<Rightarrow> (json \<times> json) slice decoder" where
  "prom_reply L =
     decode_struct (\<lambda>k. if same_name k ''data'' then
       decode_struct (\<lambda>k. if same_name k ''result'' then
         decode_slice (decode_struct (\<lambda>k. if same_name k ''value'' then decode_two L else skip_value))
           (JNull, JNull)
       else skip_value)
     else skip_value)"

text \<open>\<^verbatim>\<open>json.NewDecoder(resp.Body).Decode(&out)\<close>\<close>
definition prom_decode :: "('l) go_lib_scheme \<Rightarrow> http_response \<Rightarrow> go_error + (json \<times> json) list" where
  "prom_decode L resp =
     (let fits = (\<lambda>v. case Option.bind v (\<lambda>v. prom_reply L v ([], [])) of
            None \<Rightarrow> Inl (lib_json_error L ''prometheus reply'' (rsp_body resp))
          | Some out \<Rightarrow> Inr (fst out)) in
      case json_first (rsp_body resp) (BeginValue, []) of
        Inl v \<Rightarrow> fits v
      | Inr st \<Rightarrow>
          (case rsp_read_error resp of
             Some err \<Rightarrow> Inl err
           | None \<Rightarrow> fits (end_of_text st)))"

definition promInstant ::
  "('l) go_lib_scheme \<Rightarrow> ('w, 'z) cluster_client_scheme \<Rightarrow> string \<Rightarrow> string \<Rightarrow> instant \<Rightarrow>
   ('w, go_error + string option) state" where
  "promInstant L K base query moment =
     (let req = prom_request base query moment in
      case lib_request_error L (rq_url req) of
        Some err \<Rightarrow> ret (Inl err)
      | None \<Rightarrow> do {
          r \<leftarrow> k_http_do K req;
          case r of
            Inl err \<Rightarrow> ret (Inl err)
          | Inr resp \<Rightarrow>
              if rsp_status_code resp \<noteq> 200 then
                ret (Inl (errorf (''prometheus returned '' @ rsp_status resp)))
              else (case prom_decode L resp of
                Inl err \<Rightarrow> ret (Inl err)
              | Inr result \<Rightarrow>
                  if length result = 0 then ret (Inr None)
                  else ret (Inr (case snd (result ! 0) of JStr s \<Rightarrow> Some s | _ \<Rightarrow> None)))
        })"

definition expand_query :: "string \<Rightarrow> string \<Rightarrow> string \<Rightarrow> string" where
  "expand_query ns pod tmpl = replace_pairs [(''{{pod}}'', pod), (''{{namespace}}'', ns)] tmpl"

text \<open>The loop over the queries; \<open>samples\<close> is a Go map, kept with unique keys.\<close>
fun collect_samples ::
  "('l) go_lib_scheme \<Rightarrow> ('w, 'z) cluster_client_scheme \<Rightarrow> string \<Rightarrow> string \<Rightarrow> string \<Rightarrow> instant \<Rightarrow>
   go_map \<Rightarrow> go_map \<Rightarrow> ('w, go_map) state" where
  "collect_samples L K url ns pod moment [] samples = ret samples"
| "collect_samples L K url ns pod moment ((label, tmpl) # queries) samples = do {
     r \<leftarrow> promInstant L K url (expand_query ns pod tmpl) moment;
     case r of
       Inr (Some v) \<Rightarrow> collect_samples L K url ns pod moment queries (AList.update label v samples)
     | _ \<Rightarrow> collect_samples L K url ns pod moment queries samples
   }"

definition CollectMetrics ::
  "('l) go_lib_scheme \<Rightarrow> ('w, 'z) cluster_client_scheme \<Rightarrow> metrics_config \<Rightarrow> string \<Rightarrow> string \<Rightarrow>
   instant \<Rightarrow> ('w, go_error + metrics_snapshot option) state" where
  "CollectMetrics L K cfg ns pod moment =
     (let queries = (if length (mt_queries cfg) = 0 then defaultMetricQueries else mt_queries cfg) in
      do {
        samples \<leftarrow> collect_samples L K (mt_url cfg) ns pod moment queries [];
        if length samples = 0 then ret (Inr None)
        else ret (Inr (Some \<lparr>ms_source = mt_url cfg, ms_samples = map_of samples\<rparr>))
      })"

lemma fst_update_subset: "fst ` set (AList.update k v xs) \<subseteq> insert k (fst ` set xs)"
  by (simp add: AList.dom_update)

lemma collect_samples_labels:
  "fst ` set (fst (run_state (collect_samples L K url ns pod moment qs samples) w)) \<subseteq>
     fst ` set samples \<union> fst ` set qs"
proof (induction qs arbitrary: samples w)
  case Nil
  then show ?case by simp
next
  case (Cons q qs)
  obtain label tmpl where q: "q = (label, tmpl)" by (cases q)
  obtain r w1 where r: "run_state (promInstant L K url (expand_query ns pod tmpl) moment) w = (r, w1)" by force
  show ?case
  proof (cases "\<exists>v. r = Inr (Some v)")
    case True
    then obtain v where v: "r = Inr (Some v)" by blast
    have "fst ` set (fst (run_state (collect_samples L K url ns pod moment qs (AList.update label v samples)) w1))
        \<subseteq> fst ` set (AList.update label v samples) \<union> fst ` set qs" by (rule Cons.IH)
    also have "\<dots> \<subseteq> insert label (fst ` set samples) \<union> fst ` set qs"
      using fst_update_subset[of label v samples] by blast
    finally show ?thesis using r v by (auto simp: q)
  next
    case False
    then have "run_state (collect_samples L K url ns pod moment (q # qs) samples) w =
        run_state (collect_samples L K url ns pod moment qs samples) w1"
      using r by (auto simp: q split: sum.splits option.splits)
    with Cons.IH[of samples w1] show ?thesis by (simp add: q) blast
  qed
qed

lemma CollectMetrics_never_fails:
  "\<exists>s. fst (run_state (CollectMetrics L K cfg ns pod moment) w) = Inr s"
  by (auto simp: CollectMetrics_def Let_def case_prod_unfold)

lemma CollectMetrics_labels:
  assumes "fst (run_state (CollectMetrics L K cfg ns pod moment) w) = Inr (Some snap)"
  shows "ms_source snap = mt_url cfg \<and> dom (ms_samples snap) \<noteq> {} \<and>
    dom (ms_samples snap) \<subseteq>
      fst ` set (if mt_queries cfg = [] then defaultMetricQueries else mt_queries cfg)"
proof -
  let ?qs = "if mt_queries cfg = [] then defaultMetricQueries else mt_queries cfg"
  let ?s = "fst (run_state (collect_samples L K (mt_url cfg) ns pod moment ?qs []) w)"
  have "?s \<noteq> []" "snap = \<lparr>ms_source = mt_url cfg, ms_samples = map_of ?s\<rparr>"
    using assms by (auto simp: CollectMetrics_def Let_def case_prod_unfold split: if_splits)
  then show ?thesis
    using collect_samples_labels[of L K "mt_url cfg" ns pod moment ?qs "[]" w]
    by (simp add: dom_map_of_conv_image_fst)
qed

lemma CollectMetrics_frame:
  assumes "world_frame R" "\<And>rq. state_io_rel R (k_http_do K rq)"
  shows "state_io_rel R (CollectMetrics L K cfg ns pod moment)"
proof -
  have "state_io_rel R (promInstant L K url q moment)" for url q
    unfolding promInstant_def Let_def by (intro frame_intros assms)
  then have "state_io_rel R (collect_samples L K url ns pod moment qs samples)" for url qs samples
    by (induction qs arbitrary: samples)
      (auto intro!: frame_intros assms(1) split: sum.splits option.splits)
  then show ?thesis
    unfolding CollectMetrics_def Let_def by (intro frame_intros assms(1))
qed

end
