(* ===== verification/Diagnosis.thy ===== *)
theory Diagnosis
  imports Api_Types Go_Text
begin

section \<open>Heuristic diagnosis\<close>

text \<open>
  \<^verbatim>\<open>internal/forensics/diagnosis.go\<close>: the evidence record, the verdicts, and
  \<^verbatim>\<open>Diagnose\<close> with its cases in the order of the source. The lemmas say exactly which
  evidence leads to which cause and how confident the verdict is.
\<close>

abbreviation "CauseOutOfMemory \<equiv> ''OutOfMemory''"
abbreviation "CauseRepeatedCrash \<equiv> ''RepeatedCrash''"
abbreviation "CauseProbeFailure \<equiv> ''ProbeFailure''"
abbreviation "CauseNodePressure \<equiv> ''NodePressure''"
abbreviation "CauseImagePullFailed \<equiv> ''ImagePullFailure''"
abbreviation "CauseApplicationErr \<equiv> ''ApplicationError''"
abbreviation "CauseJobFailed \<equiv> ''JobFailed''"
abbreviation "CauseUnknown \<equiv> ''Unknown''"

definition all_causes :: "string list" where
  "all_causes = [CauseOutOfMemory, CauseRepeatedCrash, CauseProbeFailure, CauseNodePressure,
     CauseImagePullFailed, CauseApplicationErr, CauseJobFailed, CauseUnknown]"

record evidence =
  e_oom_killed :: bool
  e_exit_code :: "int32 option"
  e_signal :: "int32 option"
  e_termination_reason :: string
  e_waiting_reason :: string
  e_restart_count :: int32
  e_pod_phase_reason :: string
  e_job_failed :: bool
  e_events :: "event_record list"

definition zero_evidence :: evidence where
  "zero_evidence = \<lparr>e_oom_killed = False, e_exit_code = None, e_signal = None,
     e_termination_reason = '''', e_waiting_reason = '''', e_restart_count = 0,
     e_pod_phase_reason = '''', e_job_failed = False, e_events = []\<rparr>"

record verdict =
  v_cause :: string
  v_confidence :: confidence
  v_summary :: string

definition exit_code_is :: "evidence \<Rightarrow> int32 \<Rightarrow> bool" where
  "exit_code_is e code \<longleftrightarrow> (case e_exit_code e of None \<Rightarrow> False | Some c \<Rightarrow> c = code)"

text \<open>One iteration of the loop's test, and the loop: does any event match?\<close>
definition is_liveness_failure :: "(rune \<Rightarrow> rune) \<Rightarrow> event_record \<Rightarrow> bool" where
  "is_liveness_failure ul ev \<longleftrightarrow>
     ev_reason ev = ''Unhealthy'' \<and> contains_sub (to_lower ul (ev_message ev)) ''liveness''"

fun has_probe_failure :: "(rune \<Rightarrow> rune) \<Rightarrow> event_record list \<Rightarrow> bool" where
  "has_probe_failure ul [] = False"
| "has_probe_failure ul (ev # evs) =
     (if is_liveness_failure ul ev then True else has_probe_failure ul evs)"

definition diagnose :: "(rune \<Rightarrow> rune) \<Rightarrow> evidence \<Rightarrow> verdict" where
  "diagnose ul e =
     (if e_oom_killed e \<or> e_termination_reason e = ''OOMKilled'' then
        \<lparr>v_cause = CauseOutOfMemory, v_confidence = ConfidenceHigh,
          v_summary = ''Container terminated by the kernel OOM killer (out of memory).''\<rparr>
      else if has_probe_failure ul (e_events e) then
        \<lparr>v_cause = CauseProbeFailure, v_confidence = ConfidenceHigh,
          v_summary = ''Container killed after a liveness/readiness probe failed repeatedly.''\<rparr>
      else if e_pod_phase_reason e = ''Evicted'' then
        \<lparr>v_cause = CauseNodePressure, v_confidence = ConfidenceHigh,
          v_summary = ''Pod evicted from its node, likely due to resource pressure.''\<rparr>
      else if e_waiting_reason e = ''ImagePullBackOff'' \<or> e_waiting_reason e = ''ErrImagePull'' then
        \<lparr>v_cause = CauseImagePullFailed, v_confidence = ConfidenceHigh,
          v_summary = ''Container image could not be pulled.''\<rparr>
      else if e_job_failed e then
        \<lparr>v_cause = CauseJobFailed, v_confidence = ConfidenceHigh,
          v_summary = ''Job exhausted its backoff limit without a successful completion.''\<rparr>
      else if e_waiting_reason e = ''CrashLoopBackOff'' then
        \<lparr>v_cause = CauseRepeatedCrash, v_confidence = ConfidenceHigh,
          v_summary = ''Container is crash-looping ('' @ show_int32 (e_restart_count e) @ '' restarts).''\<rparr>
      else if (case e_signal e of None \<Rightarrow> False | Some s \<Rightarrow> s = 9) \<or> exit_code_is e 137 then
        \<lparr>v_cause = CauseRepeatedCrash, v_confidence = ConfidenceMedium,
          v_summary = ''Container received SIGKILL (exit 137); possible OOM or forced kill.''\<rparr>
      else case e_exit_code e of
        Some c \<Rightarrow>
          if c \<noteq> 0 then
            \<lparr>v_cause = CauseApplicationErr, v_confidence = ConfidenceMedium,
              v_summary = ''Application exited with non-zero code '' @ show_int32 c @ ''.''\<rparr>
          else
            \<lparr>v_cause = CauseUnknown, v_confidence = ConfidenceLow,
              v_summary = ''Cause of death could not be determined from available evidence.''\<rparr>
      | None \<Rightarrow>
          \<lparr>v_cause = CauseUnknown, v_confidence = ConfidenceLow,
            v_summary = ''Cause of death could not be determined from available evidence.''\<rparr>)"

subsection \<open>The signals, named\<close>

text \<open>Abstract readings of the evidence: what each case of \<^const>\<open>diagnose\<close> looks for.\<close>

definition oom_signal :: "evidence \<Rightarrow> bool" where
  "oom_signal e \<longleftrightarrow> e_oom_killed e \<or> e_termination_reason e = ''OOMKilled''"

definition probe_signal :: "(rune \<Rightarrow> rune) \<Rightarrow> evidence \<Rightarrow> bool" where
  "probe_signal ul e \<longleftrightarrow> (\<exists>ev \<in> set (e_events e). is_liveness_failure ul ev)"

definition pull_signal :: "evidence \<Rightarrow> bool" where
  "pull_signal e \<longleftrightarrow> e_waiting_reason e \<in> {''ImagePullBackOff'', ''ErrImagePull''}"

definition crash_loop_signal :: "evidence \<Rightarrow> bool" where
  "crash_loop_signal e \<longleftrightarrow> e_waiting_reason e = ''CrashLoopBackOff''"

definition sigkill_signal :: "evidence \<Rightarrow> bool" where
  "sigkill_signal e \<longleftrightarrow> e_signal e = Some 9 \<or> e_exit_code e = Some 137"

definition failed_exit :: "evidence \<Rightarrow> bool" where
  "failed_exit e \<longleftrightarrow> e_exit_code e \<notin> {None, Some 0}"

lemmas signal_defs =
  oom_signal_def probe_signal_def pull_signal_def crash_loop_signal_def sigkill_signal_def
  failed_exit_def

lemma has_probe_failure_iff [simp]:
  "has_probe_failure ul evs \<longleftrightarrow> (\<exists>ev \<in> set evs. is_liveness_failure ul ev)"
  by (induction evs) auto

lemma sigkill_test:
  "(case e_signal e of None \<Rightarrow> False | Some s \<Rightarrow> s = 9) \<or> exit_code_is e 137 \<longleftrightarrow> sigkill_signal e"
  by (auto simp: sigkill_signal_def exit_code_is_def split: option.splits)

text \<open>\<^const>\<open>diagnose\<close> through the named signals: a chain of exclusive cases.\<close>

lemma diagnose_by_signal:
  shows diagnose_oom: "oom_signal e \<Longrightarrow>
      v_cause (diagnose ul e) = CauseOutOfMemory \<and> v_confidence (diagnose ul e) = ConfidenceHigh"
    and diagnose_probe: "\<not> oom_signal e \<Longrightarrow> probe_signal ul e \<Longrightarrow>
      v_cause (diagnose ul e) = CauseProbeFailure \<and> v_confidence (diagnose ul e) = ConfidenceHigh"
    and diagnose_evicted: "\<not> oom_signal e \<Longrightarrow> \<not> probe_signal ul e \<Longrightarrow> e_pod_phase_reason e = ''Evicted'' \<Longrightarrow>
      v_cause (diagnose ul e) = CauseNodePressure \<and> v_confidence (diagnose ul e) = ConfidenceHigh"
    and diagnose_pull: "\<not> oom_signal e \<Longrightarrow> \<not> probe_signal ul e \<Longrightarrow> e_pod_phase_reason e \<noteq> ''Evicted'' \<Longrightarrow>
      pull_signal e \<Longrightarrow>
      v_cause (diagnose ul e) = CauseImagePullFailed \<and> v_confidence (diagnose ul e) = ConfidenceHigh"
    and diagnose_job: "\<not> oom_signal e \<Longrightarrow> \<not> probe_signal ul e \<Longrightarrow> e_pod_phase_reason e \<noteq> ''Evicted'' \<Longrightarrow>
      \<not> pull_signal e \<Longrightarrow> e_job_failed e \<Longrightarrow>
      v_cause (diagnose ul e) = CauseJobFailed \<and> v_confidence (diagnose ul e) = ConfidenceHigh"
  by (auto simp: diagnose_def oom_signal_def probe_signal_def pull_signal_def)

lemma diagnose_container:
  assumes "\<not> oom_signal e" "\<not> probe_signal ul e" "e_pod_phase_reason e \<noteq> ''Evicted''"
    "\<not> pull_signal e" "\<not> e_job_failed e"
  shows "v_cause (diagnose ul e) =
      (if crash_loop_signal e \<or> sigkill_signal e then CauseRepeatedCrash
       else if failed_exit e then CauseApplicationErr else CauseUnknown)"
    and "v_confidence (diagnose ul e) =
      (if crash_loop_signal e then ConfidenceHigh
       else if sigkill_signal e \<or> failed_exit e then ConfidenceMedium else ConfidenceLow)"
proof -
  have "\<not> (e_oom_killed e \<or> e_termination_reason e = ''OOMKilled'')"
    "\<not> has_probe_failure ul (e_events e)"
    "\<not> (e_waiting_reason e = ''ImagePullBackOff'' \<or> e_waiting_reason e = ''ErrImagePull'')"
    using assms by (simp_all add: oom_signal_def probe_signal_def pull_signal_def)
  note facts = this assms(3,5)
  show "v_cause (diagnose ul e) =
      (if crash_loop_signal e \<or> sigkill_signal e then CauseRepeatedCrash
       else if failed_exit e then CauseApplicationErr else CauseUnknown)"
    unfolding diagnose_def sigkill_test using facts
    by (auto simp: crash_loop_signal_def failed_exit_def split: option.splits)
  show "v_confidence (diagnose ul e) =
      (if crash_loop_signal e then ConfidenceHigh
       else if sigkill_signal e \<or> failed_exit e then ConfidenceMedium else ConfidenceLow)"
    unfolding diagnose_def sigkill_test using facts
    by (auto simp: crash_loop_signal_def failed_exit_def split: option.splits)
qed

lemma diagnose_cause_in: "v_cause (diagnose ul e) \<in> set all_causes"
  by (auto simp: diagnose_def all_causes_def split: option.splits)

lemma diagnose_summary_nonempty: "v_summary (diagnose ul e) \<noteq> []"
  by (auto simp: diagnose_def split: option.splits)

lemma diagnose_confidence_set: "ConfidenceLow \<le> v_confidence (diagnose ul e)"
  by (auto simp: diagnose_def less_eq_confidence_def split: option.splits)

end
