(* ===== verification/Narrator.thy ===== *)
theory Narrator
  imports Evidence Diagnosis
begin

section \<open>Narrators\<close>

text \<open>
  \<^verbatim>\<open>internal/forensics/narrative.go\<close> and \<^verbatim>\<open>narrative_llm.go\<close>: the no-op narrator
  and the two LLM backed ones, the prompt they send, the JSON of the requests and of the replies,
  and how each HTTP outcome becomes a narrative or an error. The structs that are sent contain
  only strings and an integer, so marshalling them does not fail.
\<close>

definition defaultAnthropicBaseURL :: string where
  "defaultAnthropicBaseURL = ''https://api.anthropic.com''"

definition defaultOpenAIBaseURL :: string where
  "defaultOpenAIBaseURL = ''https://api.openai.com''"

definition narrator_max_tokens :: int where "narrator_max_tokens = 512"

record llm_config =
  lc_provider :: narrator_provider
  lc_model :: string
  lc_api_key :: string
  lc_base_url :: string

datatype narrator =
    NoopNarrator
  | AnthropicNarrator (nar_model: string) (nar_api_key: string) (nar_base_url: string)
  | OpenAINarrator (nar_model: string) (nar_api_key: string) (nar_base_url: string)

definition NewLLMNarrator :: "('l) go_lib_scheme \<Rightarrow> llm_config \<Rightarrow> go_error + narrator" where
  "NewLLMNarrator L cfg =
     (if lc_api_key cfg = '''' then Inl (errorf ''llm narrator: missing API key'')
      else if lc_model cfg = '''' then Inl (errorf ''llm narrator: missing model'')
      else if lc_provider cfg = NarratorProviderAnthropic then
        Inr (AnthropicNarrator (lc_model cfg) (lc_api_key cfg)
          (if lc_base_url cfg = '''' then defaultAnthropicBaseURL else lc_base_url cfg))
      else if lc_provider cfg = NarratorProviderOpenAI then
        Inr (OpenAINarrator (lc_model cfg) (lc_api_key cfg)
          (if lc_base_url cfg = '''' then defaultOpenAIBaseURL else lc_base_url cfg))
      else Inl (errorf (''llm narrator: unknown provider '' @ lib_quote L (lc_provider cfg))))"

definition DefaultSecretKey :: "narrator_provider \<Rightarrow> string" where
  "DefaultSecretKey provider =
     (if provider = NarratorProviderAnthropic then ''ANTHROPIC_API_KEY''
      else if provider = NarratorProviderOpenAI then ''OPENAI_API_KEY'' else '''')"

subsection \<open>The prompt\<close>

abbreviation nl :: string where "nl \<equiv> [CHR 0x0A]"

definition oneLine :: "string \<Rightarrow> string" where
  "oneLine s = trim_space (replace_char (CHR 0x0A) (CHR '' '') s)"

text \<open>The ellipsis U+2026 in UTF-8\<close>
definition ellipsis :: string where
  "ellipsis = [CHR 0xE2, CHR 0x80, CHR 0xA6]"

definition truncate_tail :: "string \<Rightarrow> nat \<Rightarrow> string" where
  "truncate_tail s n = (if length s \<le> n then s else ellipsis @ drop (length s - n) s)"

definition event_line :: "event_record \<Rightarrow> string" where
  "event_line ev = ''  - ['' @ ev_type ev @ ''/'' @ ev_reason ev @ ''] '' @ oneLine (ev_message ev) @ nl"

definition status_prompt :: "obituary_status \<Rightarrow> string" where
  "status_prompt status =
     (case st_exit_code status of None \<Rightarrow> '''' | Some c \<Rightarrow> ''ExitCode: '' @ show_int32 c @ nl) @
     (case st_signal status of None \<Rightarrow> '''' | Some s \<Rightarrow> ''Signal: '' @ show_int32 s @ nl) @
     (if st_oom_killed status then ''OOMKilled: true'' @ nl else '''') @
     (if 0 <s st_restart_count status
      then ''RestartCount: '' @ show_int32 (st_restart_count status) @ nl else '''') @
     (if 0 < length (st_event_timeline status)
      then ''Events:'' @ nl @ concat (map event_line (st_event_timeline status)) else '''') @
     (let tail = trim_space (st_log_tail status) in
      if tail \<noteq> '''' then ''LogTail (last lines):'' @ nl @ truncate_tail tail 2000 @ nl else '''')"

definition buildPrompt :: "verdict \<Rightarrow> obituary_status option \<Rightarrow> string" where
  "buildPrompt v status =
     ''You are KubeCoroner, a forensic post-mortem writer for dead Kubernetes workloads. '' @
     ''Write a 2-4 sentence narrative explaining the death in plain English. '' @
     ''Be factual; do not invent details that are not in the evidence.'' @ nl @ nl @
     ''Cause: '' @ v_cause v @ nl @
     ''Confidence: '' @ confidence_text (v_confidence v) @ nl @
     ''Summary: '' @ v_summary v @ nl @
     (case status of None \<Rightarrow> '''' | Some st \<Rightarrow> status_prompt st)"

lemma length_truncate: "length (truncate_tail s n) \<le> n + 3"
  by (simp add: truncate_tail_def ellipsis_def)

lemma truncate_suffix: "\<exists>u. s = u @ (if length s \<le> n then s else drop (length s - n) s)"
  by (metis append_Nil append_take_drop_id)

subsection \<open>Requests and replies\<close>

definition anthropicMessage :: "string \<Rightarrow> string \<Rightarrow> json" where
  "anthropicMessage role content = JObj [(''role'', JStr role), (''content'', JStr content)]"

definition anthropicRequest :: "string \<Rightarrow> int \<Rightarrow> json list \<Rightarrow> json" where
  "anthropicRequest model maxTokens messages =
     JObj [(''model'', JStr model), (''max_tokens'', JNum (show_int maxTokens)), (''messages'', JArr messages)]"

definition openAIMessage :: "string \<Rightarrow> string \<Rightarrow> json" where
  "openAIMessage role content = JObj [(''role'', JStr role), (''content'', JStr content)]"

definition openAIRequest :: "string \<Rightarrow> json list \<Rightarrow> json" where
  "openAIRequest model messages = JObj [(''model'', JStr model), (''messages'', JArr messages)]"

record text_block =
  tb_type :: string
  tb_text :: string

record reply_error =
  re_message :: string
  re_type :: string

text \<open>The type of the error differs between the narrators and the decider.\<close>
record 'e anthropic_reply =
  ar_content :: "text_block slice"
  ar_error :: "'e option"

record chat_message =
  cm_role :: string
  cm_content :: string

record 'e openai_reply =
  oa_choices :: "chat_message slice"
  oa_error :: "'e option"

definition text_block_field :: "string \<Rightarrow> text_block decoder" where
  "text_block_field k =
     (if same_name k ''type'' then in_field tb_type tb_type_update decode_string
      else if same_name k ''text'' then in_field tb_text tb_text_update decode_string
      else skip_value)"

definition reply_error_field :: "string \<Rightarrow> reply_error decoder" where
  "reply_error_field k =
     (if same_name k ''message'' then in_field re_message re_message_update decode_string
      else if same_name k ''type'' then in_field re_type re_type_update decode_string
      else skip_value)"

definition chat_message_field :: "string \<Rightarrow> chat_message decoder" where
  "chat_message_field k =
     (if same_name k ''role'' then in_field cm_role cm_role_update decode_string
      else if same_name k ''content'' then in_field cm_content cm_content_update decode_string
      else skip_value)"

definition anthropic_reply_field :: "'e decoder \<Rightarrow> 'e \<Rightarrow> string \<Rightarrow> 'e anthropic_reply decoder" where
  "anthropic_reply_field dec zero k =
     (if same_name k ''content'' then in_field ar_content ar_content_update
        (decode_slice (decode_struct text_block_field) \<lparr>tb_type = '''', tb_text = ''''\<rparr>)
      else if same_name k ''error'' then in_field ar_error ar_error_update (decode_pointer dec zero)
      else skip_value)"

text \<open>A choice is a struct of its message.\<close>
definition choice_field :: "string \<Rightarrow> chat_message decoder" where
  "choice_field k = (if same_name k ''message'' then decode_struct chat_message_field else skip_value)"

definition openai_reply_field :: "'e decoder \<Rightarrow> 'e \<Rightarrow> string \<Rightarrow> 'e openai_reply decoder" where
  "openai_reply_field dec zero k =
     (if same_name k ''choices'' then in_field oa_choices oa_choices_update
        (decode_slice (decode_struct choice_field) \<lparr>cm_role = '''', cm_content = ''''\<rparr>)
      else if same_name k ''error'' then in_field oa_error oa_error_update (decode_pointer dec zero)
      else skip_value)"

definition anthropicResponse :: "reply_error anthropic_reply decoder" where
  "anthropicResponse = decode_struct
     (anthropic_reply_field (decode_struct reply_error_field) \<lparr>re_message = '''', re_type = ''''\<rparr>)"

definition openAIResponse :: "reply_error openai_reply decoder" where
  "openAIResponse = decode_struct
     (openai_reply_field (decode_struct reply_error_field) \<lparr>re_message = '''', re_type = ''''\<rparr>)"

definition zero_anthropic :: "'e anthropic_reply" where
  "zero_anthropic = \<lparr>ar_content = ([], []), ar_error = None\<rparr>"

definition zero_openai :: "'e openai_reply" where
  "zero_openai = \<lparr>oa_choices = ([], []), oa_error = None\<rparr>"

subsection \<open>Calling a provider\<close>

definition http_post ::
  "('l) go_lib_scheme \<Rightarrow> ('w, 'z) cluster_client_scheme \<Rightarrow> string \<Rightarrow> (string \<times> string) list \<Rightarrow>
   string \<Rightarrow> ('w, go_error + http_response) state" where
  "http_post L K url headers body =
     (case lib_request_error L url of
        Some err \<Rightarrow> ret (Inl err)
      | None \<Rightarrow> k_http_do K
          \<lparr>rq_method = ''POST'', rq_url = url, rq_headers = headers, rq_body = body\<rparr>)"

definition anthropic_headers :: "string \<Rightarrow> (string \<times> string) list" where
  "anthropic_headers apiKey =
     [(''Content-Type'', ''application/json''), (''x-api-key'', apiKey),
      (''anthropic-version'', ''2023-06-01'')]"

definition openai_headers :: "string \<Rightarrow> (string \<times> string) list" where
  "openai_headers apiKey =
     [(''Content-Type'', ''application/json''), (''Authorization'', ''Bearer '' @ apiKey)]"

definition text_blocks :: "text_block list \<Rightarrow> string" where
  "text_blocks blocks = concat (map tb_text (filter (\<lambda>b. tb_type b = ''text'') blocks))"

definition anthropic_narrative :: "('l) go_lib_scheme \<Rightarrow> http_response \<Rightarrow> go_error + string" where
  "anthropic_narrative L resp =
     (case rsp_read_error resp of
        Some err \<Rightarrow> Inl err
      | None \<Rightarrow>
          if 300 \<le> rsp_status_code resp then
            Inl (errorf (''anthropic '' @ show_int (rsp_status_code resp) @ '': '' @
              truncate_tail (rsp_body resp) 400))
          else (case unmarshal anthropicResponse zero_anthropic (rsp_body resp) of
            None \<Rightarrow> Inl (lib_json_error L ''anthropicResponse'' (rsp_body resp))
          | Some out \<Rightarrow>
              (case ar_error out of
                 Some err \<Rightarrow> Inl (errorf (''anthropic: '' @ re_message err))
               | None \<Rightarrow> Inr (trim_space (text_blocks (fst (ar_content out)))))))"

definition openai_narrative :: "('l) go_lib_scheme \<Rightarrow> http_response \<Rightarrow> go_error + string" where
  "openai_narrative L resp =
     (case rsp_read_error resp of
        Some err \<Rightarrow> Inl err
      | None \<Rightarrow>
          if 300 \<le> rsp_status_code resp then
            Inl (errorf (''openai '' @ show_int (rsp_status_code resp) @ '': '' @
              truncate_tail (rsp_body resp) 400))
          else (case unmarshal openAIResponse zero_openai (rsp_body resp) of
            None \<Rightarrow> Inl (lib_json_error L ''openAIResponse'' (rsp_body resp))
          | Some out \<Rightarrow>
              (case oa_error out of
                 Some err \<Rightarrow> Inl (errorf (''openai: '' @ re_message err))
               | None \<Rightarrow>
                   let choices = fst (oa_choices out) in
                   if length choices = 0 then Inr '''' else Inr (trim_space (cm_content (choices ! 0))))))"

definition openai_narrator_system :: string where
  "openai_narrator_system = ''You are KubeCoroner, a forensic post-mortem writer for dead Kubernetes workloads. Reply with a concise factual narrative; do not invent details.''"

definition anthropic_Narrate ::
  "('l) go_lib_scheme \<Rightarrow> ('w, 'z) cluster_client_scheme \<Rightarrow> string \<Rightarrow> string \<Rightarrow> string \<Rightarrow>
   verdict \<Rightarrow> obituary_status option \<Rightarrow> ('w, go_error + string) state" where
  "anthropic_Narrate L K model apiKey baseURL v status =
     do {
       r \<leftarrow> http_post L K (baseURL @ ''/v1/messages'') (anthropic_headers apiKey)
         (json_text (anthropicRequest model narrator_max_tokens
            [anthropicMessage ''user'' (buildPrompt v status)]));
       case r of Inl err \<Rightarrow> ret (Inl err) | Inr resp \<Rightarrow> ret (anthropic_narrative L resp)
     }"

definition openai_Narrate ::
  "('l) go_lib_scheme \<Rightarrow> ('w, 'z) cluster_client_scheme \<Rightarrow> string \<Rightarrow> string \<Rightarrow> string \<Rightarrow>
   verdict \<Rightarrow> obituary_status option \<Rightarrow> ('w, go_error + string) state" where
  "openai_Narrate L K model apiKey baseURL v status =
     do {
       r \<leftarrow> http_post L K (baseURL @ ''/v1/chat/completions'') (openai_headers apiKey)
         (json_text (openAIRequest model
            [openAIMessage ''system'' openai_narrator_system, openAIMessage ''user'' (buildPrompt v status)]));
       case r of Inl err \<Rightarrow> ret (Inl err) | Inr resp \<Rightarrow> ret (openai_narrative L resp)
     }"

fun Narrate ::
  "('l) go_lib_scheme \<Rightarrow> ('w, 'z) cluster_client_scheme \<Rightarrow> narrator \<Rightarrow> verdict \<Rightarrow>
   obituary_status option \<Rightarrow> ('w, go_error + string) state" where
  "Narrate L K NoopNarrator v status = ret (Inr '''')"
| "Narrate L K (AnthropicNarrator model apiKey baseURL) v status =
     anthropic_Narrate L K model apiKey baseURL v status"
| "Narrate L K (OpenAINarrator model apiKey baseURL) v status =
     openai_Narrate L K model apiKey baseURL v status"

lemma http_post_frame:
  "world_frame R \<Longrightarrow> (\<And>rq. state_io_rel R (k_http_do K rq)) \<Longrightarrow> state_io_rel R (http_post L K url hs body)"
  unfolding http_post_def by (intro frame_intros)

lemma Narrate_frame:
  assumes "world_frame R" "\<And>rq. state_io_rel R (k_http_do K rq)"
  shows "state_io_rel R (Narrate L K n v status)"
  by (cases n)
    (auto simp: anthropic_Narrate_def openai_Narrate_def
      intro!: frame_intros http_post_frame assms)

text \<open>A narrator is only ever built with a key and a model, for a known provider.\<close>
lemma NewLLMNarrator_complete:
  assumes "NewLLMNarrator L cfg = Inr n"
  shows "n \<noteq> NoopNarrator \<and> nar_api_key n = lc_api_key cfg \<and> nar_api_key n \<noteq> '''' \<and>
    nar_model n = lc_model cfg \<and> nar_model n \<noteq> '''' \<and> nar_base_url n \<noteq> ''''"
  using assms
  by (auto simp: NewLLMNarrator_def defaultAnthropicBaseURL_def defaultOpenAIBaseURL_def split: if_splits)

lemma NewLLMNarrator_known:
  "(\<exists>n. NewLLMNarrator L cfg = Inr n) \<longleftrightarrow>
     lc_api_key cfg \<noteq> '''' \<and> lc_model cfg \<noteq> '''' \<and> DefaultSecretKey (lc_provider cfg) \<noteq> ''''"
  by (simp add: NewLLMNarrator_def DefaultSecretKey_def)

end
