(* ===== verification/Memory.thy ===== *)
theory Memory
  imports Narrator
begin

section \<open>Bumping memory\<close>

text \<open>
  The memory arithmetic of \<^verbatim>\<open>internal/selfheal/actions.go\<close>: the factor, the scaled and
  capped quantity rounded up to a MiB, and its application to every container of a pod spec.
  \<^verbatim>\<open>resource.Quantity\<close> belongs to apimachinery: its type is \<^typ>\<open>'q\<close> and its operations
  are fields of the library parameter. The locale \<open>quantities\<close> states what their documentation
  promises, in terms of the exact amount a quantity stands for.
\<close>

record 'q koroner_lib = go_lib +
  lib_quantity_value :: "'q \<Rightarrow> int64"
  lib_new_binary :: "int64 \<Rightarrow> 'q"
  lib_quantity_cmp :: "'q \<Rightarrow> 'q \<Rightarrow> int"
  lib_quantity_text :: "'q \<Rightarrow> string"
  lib_parse_quantity :: "string \<Rightarrow> go_error + 'q"
  lib_float_text :: "float64 \<Rightarrow> string"
  lib_float_overflow :: "float64 \<Rightarrow> int64"
  lib_sort_slice :: "('q replica_set \<times> int64 \<Rightarrow> 'q replica_set \<times> int64 \<Rightarrow> bool) \<Rightarrow>
    ('q replica_set \<times> int64) list \<Rightarrow> ('q replica_set \<times> int64) list"

definition mib :: int64 where "mib = 1024 * 1024"

definition roundUpToMiB :: "int64 \<Rightarrow> int64" where
  "roundUpToMiB n = (if int64_mod n mib = 0 then n else (int64_div n mib + 1) * mib)"

definition scaledQuantity ::
  "('q, 'l) koroner_lib_scheme \<Rightarrow> 'q \<Rightarrow> float64 \<Rightarrow> 'q option \<Rightarrow> 'q" where
  "scaledQuantity L q factor cap =
     (let bytes = float_mul (float_of_int64 (lib_quantity_value L q)) factor;
          out = lib_new_binary L (roundUpToMiB (int64_of_float (lib_float_overflow L) bytes))
      in case cap of
           Some c \<Rightarrow> if 0 < lib_quantity_cmp L out c then c else out
         | None \<Rightarrow> out)"

definition resourceMemory :: string where "resourceMemory = ''memory''"

definition bump_container ::
  "('q, 'l) koroner_lib_scheme \<Rightarrow> float64 \<Rightarrow> 'q option \<Rightarrow> 'q container \<Rightarrow> 'q container" where
  "bump_container L factor cap c =
     (let limits = or_default (ct_limits c) Map.empty;
          limits = (case limits resourceMemory of
            Some cur \<Rightarrow> limits(resourceMemory \<mapsto> scaledQuantity L cur factor cap)
          | None \<Rightarrow> limits);
          requests = (case ct_requests c of
            None \<Rightarrow> None
          | Some reqs \<Rightarrow> (case reqs resourceMemory of
              Some cur \<Rightarrow> Some (reqs(resourceMemory \<mapsto> scaledQuantity L cur factor cap))
            | None \<Rightarrow> Some reqs))
      in c\<lparr>ct_limits := Some limits, ct_requests := requests\<rparr>)"

definition bumpPodSpecMemory ::
  "('q, 'l) koroner_lib_scheme \<Rightarrow> float64 \<Rightarrow> 'q option \<Rightarrow> 'q pod_spec \<Rightarrow> 'q pod_spec" where
  "bumpPodSpecMemory L factor cap spec =
     spec\<lparr>ps_containers := map (bump_container L factor cap) (ps_containers spec)\<rparr>"

definition parseFactor ::
  "('q, 'l) koroner_lib_scheme \<Rightarrow> string option \<Rightarrow> go_error + float64" where
  "parseFactor L s =
     (case s of
        None \<Rightarrow> Inr (Fin (3 / 2))
      | Some t \<Rightarrow>
          if t = '''' then Inr (Fin (3 / 2))
          else (case lib_parse_float L t of
            Inl err \<Rightarrow> Inl \<lparr>ekind = ekind err,
              emsg = ''invalid memoryFactor '' @ lib_quote L t @ '': '' @ emsg err\<rparr>
          | Inr v \<Rightarrow>
              if float_le v (Fin 1) then
                Inl (errorf (''memoryFactor must be > 1.0, got '' @ lib_float_text L v))
              else Inr v))"

definition summarizeMemory :: "('q, 'l) koroner_lib_scheme \<Rightarrow> 'q container list \<Rightarrow> string" where
  "summarizeMemory L cs =
     join_with '','' (List.map_filter (\<lambda>c.
       map_option (\<lambda>lim. ct_name c @ ''='' @ lib_quantity_text L lim)
         (Option.bind (ct_limits c) (\<lambda>limits. limits resourceMemory))) cs)"

definition diffDetail :: "string \<Rightarrow> string \<Rightarrow> string \<Rightarrow> string" where
  "diffDetail before after target =
     (if before = after then ''patched '' @ target
      else ''patched '' @ target @ '' memory '' @ before @ '' -> '' @ after)"

subsection \<open>Rounding up\<close>

text \<open>The least multiple of a MiB that is not below \<open>i\<close>\<close>
definition up_mib :: "int \<Rightarrow> int" where
  "up_mib i = (i + 1048575) div 1048576 * 1048576"

lemma up_mib_bounds: "i \<le> up_mib i" "up_mib i < i + 1048576" "up_mib i mod 1048576 = 0"
  by (simp_all add: up_mib_def)

lemma up_mib_mono: "i \<le> j \<Longrightarrow> up_mib i \<le> up_mib j"
  by (simp add: up_mib_def zdiv_mono1)

lemma up_mib_exact: "i mod 1048576 = 0 \<Longrightarrow> up_mib i = i"
  by (auto simp: up_mib_def mod_eq_0_iff_dvd dvd_def)

lemma up_mib_next:
  assumes "i mod 1048576 \<noteq> 0"
  shows "up_mib i = (i div 1048576 + 1) * 1048576"
proof -
  have r: "0 \<le> i mod 1048576" "i mod 1048576 < 1048576" by simp_all
  have "i + 1048575 = 1048576 * (i div 1048576 + 1) + (i mod 1048576 - 1)"
    using mult_div_mod_eq[of 1048576 i] by (simp add: algebra_simps)
  then have "(i + 1048575) div 1048576 = i div 1048576 + 1"
    by (rule int_div_pos_eq) (use r assms in linarith)+
  then show ?thesis by (simp add: up_mib_def)
qed

lemma sint_mib [simp]: "sint mib = 1048576"
  by (simp add: mib_def)

lemma roundUpToMiB_up:
  assumes "0 \<le> sint n" "sint n \<le> 2 ^ 63 - 2 ^ 20"
  shows "sint (roundUpToMiB n) = up_mib (sint n)"
proof -
  let ?i = "sint n"
  have "?i smod 1048576 = ?i mod 1048576" "?i sdiv 1048576 = ?i div 1048576"
    using assms(1) by (cases "?i = 0"; simp add: signed_modulo_int_def signed_divide_int_def)+
  then have d: "int64_div n mib = word_of_int (?i div 1048576)"
    and "int64_mod n mib = word_of_int (?i mod 1048576)"
    by (simp_all add: int64_div_def int64_mod_def)
  moreover have "0 \<le> ?i mod 1048576" "?i mod 1048576 < 1048576" by simp_all
  ultimately have m: "sint (int64_mod n mib) = ?i mod 1048576"
    using sint_word_of_int_64[of "?i mod 1048576"] by simp
  show ?thesis
  proof (cases "?i mod 1048576 = 0")
    case True
    then have "sint (int64_mod n mib) = sint (0 :: int64)" using m by simp
    then have "int64_mod n mib = 0" by (rule signed_word_eqI)
    then show ?thesis by (simp add: roundUpToMiB_def up_mib_exact[OF True])
  next
    case False
    then have "int64_mod n mib \<noteq> 0" using m by auto
    then have "roundUpToMiB n = word_of_int ((?i div 1048576 + 1) * 1048576)"
      unfolding roundUpToMiB_def d by (simp add: mib_def)
    moreover have eq: "up_mib ?i = (?i div 1048576 + 1) * 1048576" using False by (rule up_mib_next)
    moreover have "up_mib ?i < 2 ^ 63"
    proof -
      have "?i + 1048575 < 2 ^ 63" using assms(2) by simp
      moreover have "up_mib ?i \<le> ?i + 1048575" using up_mib_bounds(2)[of ?i] by simp
      ultimately show ?thesis by (rule order.strict_trans1[rotated])
    qed
    moreover have "- (2 ^ 63) \<le> up_mib ?i" using up_mib_bounds(1)[of ?i] assms(1) by simp
    ultimately show ?thesis using sint_word_of_int_64[of "up_mib ?i"] by simp
  qed
qed

subsection \<open>Quantities\<close>

text \<open>
  \<open>amount q\<close> is the exact number a quantity stands for. \<^verbatim>\<open>Value\<close> rounds it up to an integer
  when an \<^verbatim>\<open>int64\<close> can hold it; \<^verbatim>\<open>NewQuantity\<close> is exact; \<^verbatim>\<open>Cmp\<close> compares amounts.
\<close>
locale quantities =
  fixes L :: "('q, 'l) koroner_lib_scheme" and amount :: "'q \<Rightarrow> rat"
  assumes value_ceiling: "0 \<le> amount q \<Longrightarrow> amount q \<le> 2 ^ 63 - 1 \<Longrightarrow>
      sint (lib_quantity_value L q) = \<lceil>amount q\<rceil>"
    and new_exact: "amount (lib_new_binary L n) = of_int (sint n)"
    and cmp_amount: "0 < lib_quantity_cmp L a b \<longleftrightarrow> amount b < amount a"
begin

text \<open>The product of a quantity and the factor is one \<^verbatim>\<open>int64\<close> can hold, rounding included.\<close>
definition scales :: "float64 \<Rightarrow> 'q \<Rightarrow> bool" where
  "scales factor q \<longleftrightarrow> 0 \<le> amount q \<and> amount q \<le> 2 ^ 53 \<and>
     (\<exists>r. float_mul (float_of_int64 (lib_quantity_value L q)) factor = Fin r \<and>
        0 \<le> r \<and> \<lfloor>r\<rfloor> \<le> 2 ^ 63 - 2 ^ 20)"

lemma value_small:
  assumes "0 \<le> amount q" "amount q \<le> 2 ^ 53"
  shows "sint (lib_quantity_value L q) = \<lceil>amount q\<rceil>" "0 \<le> \<lceil>amount q\<rceil>" "\<lceil>amount q\<rceil> \<le> 2 ^ 53"
    "float_of_int64 (lib_quantity_value L q) = Fin (of_int \<lceil>amount q\<rceil>)"
proof -
  show v: "sint (lib_quantity_value L q) = \<lceil>amount q\<rceil>"
    by (rule value_ceiling[OF assms(1) order_trans[OF assms(2)]]) simp
  show n: "0 \<le> \<lceil>amount q\<rceil>" using assms(1) by simp
  show m: "\<lceil>amount q\<rceil> \<le> 2 ^ 53" using assms(2) by (simp add: ceiling_le_iff)
  show "float_of_int64 (lib_quantity_value L q) = Fin (of_int \<lceil>amount q\<rceil>)"
    unfolding float_of_int64_def v using n m by (rule fl_exact)
qed

lemma scaled_none:
  assumes "scales factor q"
  obtains r where "float_mul (Fin (of_int \<lceil>amount q\<rceil>)) factor = Fin r" "0 \<le> r"
    "amount (scaledQuantity L q factor None) = of_int (up_mib \<lfloor>r\<rfloor>)"
proof -
  from assms obtain r where r: "float_mul (float_of_int64 (lib_quantity_value L q)) factor = Fin r"
    "0 \<le> r" "\<lfloor>r\<rfloor> \<le> 2 ^ 63 - 2 ^ 20" "0 \<le> amount q" "amount q \<le> 2 ^ 53"
    unfolding scales_def by blast
  have lim: "0 \<le> \<lfloor>r\<rfloor>" "\<lfloor>r\<rfloor> < 2 ^ 63" using r(2,3) by auto
  have "int64_of_float (lib_float_overflow L) (Fin r) = word_of_int \<lfloor>r\<rfloor>"
    using lim r(2) by (simp add: int64_of_float_def truncate_rat_def)
  moreover have "sint (word_of_int \<lfloor>r\<rfloor> :: int64) = \<lfloor>r\<rfloor>"
    using lim by (intro sint_word_of_int_64) auto
  ultimately have "amount (scaledQuantity L q factor None) = of_int (up_mib \<lfloor>r\<rfloor>)"
    using roundUpToMiB_up[of "word_of_int \<lfloor>r\<rfloor>"] lim r(1,3)
    by (simp add: scaledQuantity_def new_exact)
  with r value_small(4)[OF r(4,5)] that show thesis by simp
qed

lemma scaled_cap: "amount (scaledQuantity L q factor (Some c)) =
    min (amount (scaledQuantity L q factor None)) (amount c)"
  by (auto simp: scaledQuantity_def Let_def cmp_amount min_def)

lemma scaled_grows:
  assumes "scales (Fin f) q" "1 < f"
  shows "amount q \<le> amount (scaledQuantity L q (Fin f) None)"
proof -
  let ?v = "\<lceil>amount q\<rceil>"
  obtain r where r: "float_mul (Fin (of_int ?v)) (Fin f) = Fin r"
    "amount (scaledQuantity L q (Fin f) None) = of_int (up_mib \<lfloor>r\<rfloor>)"
    using scaled_none[OF assms(1)] .
  have v: "0 \<le> ?v" "?v \<le> 2 ^ 53" using assms(1) value_small(2,3) by (simp_all add: scales_def)
  have "(of_int ?v :: rat) \<le> of_int ?v * f"
    using v(1) assms(2) mult_left_mono[of 1 f "of_int ?v :: rat"] by simp
  moreover have "fl (of_int ?v * f) = Fin r" using r(1) by simp
  moreover have "(0::rat) \<le> of_int ?v" using v(1) by simp
  ultimately obtain a where "fl (of_int ?v) = Fin a" "a \<le> r" using fl_mono by metis
  then have "of_int ?v \<le> r" using fl_exact[OF v] by simp
  then have "?v \<le> \<lfloor>r\<rfloor>" by (simp only: le_floor_iff)
  then have "?v \<le> up_mib \<lfloor>r\<rfloor>" using up_mib_bounds(1) by (rule order_trans)
  then have "(of_int ?v :: rat) \<le> of_int (up_mib \<lfloor>r\<rfloor>)" by (simp only: of_int_le_iff)
  then show ?thesis using r(2) le_of_int_ceiling[of "amount q"] by linarith
qed

lemma scaled_mono:
  assumes "0 \<le> amount p" "amount p \<le> amount q" "scales (Fin f) q" "1 < f"
  shows "amount (scaledQuantity L p (Fin f) cap) \<le> amount (scaledQuantity L q (Fin f) cap)"
proof -
  let ?u = "\<lceil>amount p\<rceil>" and ?v = "\<lceil>amount q\<rceil>"
  have q: "0 \<le> amount q" "amount q \<le> 2 ^ 53" using assms(3) by (simp_all add: scales_def)
  with assms have p: "0 \<le> amount p" "amount p \<le> 2 ^ 53" by linarith+
  have uv: "?u \<le> ?v" using assms(2) by (rule ceiling_mono)
  obtain r where r: "float_mul (Fin (of_int ?v)) (Fin f) = Fin r" "0 \<le> r"
    "amount (scaledQuantity L q (Fin f) None) = of_int (up_mib \<lfloor>r\<rfloor>)"
    using scaled_none[OF assms(3)] .
  have bound: "\<lfloor>r\<rfloor> \<le> 2 ^ 63 - 2 ^ 20"
    using assms(3) r(1) value_small(4)[OF q] by (auto simp: scales_def)
  have "(0::rat) \<le> of_int ?u * f" "of_int ?u * f \<le> of_int ?v * f"
    using uv assms(4) value_small(2)[OF p] by (simp_all add: mult_right_mono)
  then obtain a where a: "fl (of_int ?u * f) = Fin a" "0 \<le> a" "a \<le> r"
    using fl_mono r(1) by (metis float_mul.simps(1))
  have "\<lfloor>a\<rfloor> \<le> \<lfloor>r\<rfloor>" using a(3) by (rule floor_mono)
  then have "scales (Fin f) p"
    using p a bound value_small(4)[OF p] by (auto simp: scales_def)
  then obtain a' where a': "float_mul (Fin (of_int ?u)) (Fin f) = Fin a'"
    "amount (scaledQuantity L p (Fin f) None) = of_int (up_mib \<lfloor>a'\<rfloor>)" by (rule scaled_none)
  with a have "a' = a" by simp
  with a' r(3) up_mib_mono[OF \<open>\<lfloor>a\<rfloor> \<le> \<lfloor>r\<rfloor>\<close>]
  have "amount (scaledQuantity L p (Fin f) None) \<le> amount (scaledQuantity L q (Fin f) None)" by simp
  then show ?thesis by (cases cap) (auto simp: scaled_cap)
qed

end

subsection \<open>Containers\<close>

lemma bump_container_other:
  "ct_name (bump_container L f cap c) = ct_name c"
  "ct_other (bump_container L f cap c) = ct_other c"
  by (simp_all add: bump_container_def Let_def)

lemma bump_container_limits:
  "ct_limits (bump_container L f cap c) = Some (\<lambda>r.
     if r = resourceMemory then map_option (\<lambda>q. scaledQuantity L q f cap) (or_default (ct_limits c) Map.empty r)
     else or_default (ct_limits c) Map.empty r)"
  by (auto simp: bump_container_def Let_def fun_eq_iff split: option.splits)

lemma bump_container_requests:
  "ct_requests (bump_container L f cap c) = map_option (\<lambda>m r.
     if r = resourceMemory then map_option (\<lambda>q. scaledQuantity L q f cap) (m r) else m r) (ct_requests c)"
  by (auto simp: bump_container_def Let_def fun_eq_iff split: option.splits)

lemma parseFactor_above_one:
  assumes "parseFactor L s = Inr v"
  shows "v = NaN \<or> v = PInf \<or> (\<exists>f. v = Fin f \<and> 1 < f)"
proof -
  have "\<not> float_le v (Fin 1)"
    using assms by (auto simp: parseFactor_def split: option.splits if_splits sum.splits)
  then show ?thesis by (cases v) auto
qed

end
