(* ===== verification/Defaults.thy ===== *)
theory Defaults
  imports Api_Types
begin

section \<open>Policy defaults\<close>

text \<open>
  \<^verbatim>\<open>api/v1alpha1/defaults.go\<close>: the constants, \<^verbatim>\<open>WithDefaults\<close> and the helpers it
  uses. Every reconciler reads its policy through \<open>with_defaults\<close>, so the lemmas here say
  what the rest of the program may rely on: which fields are set afterwards, and that a field
  the user set is kept.
\<close>

definition DefaultRestartThreshold :: int32 where "DefaultRestartThreshold = 3"
definition DefaultLogTailLines :: int32 where "DefaultLogTailLines = 200"
definition DefaultObituaryRetention :: int where
  "DefaultObituaryRetention = 7 * 24 * (60 * 60 * 1000000000)"
definition DefaultSelfHealMinOccurrences :: int32 where "DefaultSelfHealMinOccurrences = 3"
definition DefaultSelfHealMaxHealsPerHour :: int32 where "DefaultSelfHealMaxHealsPerHour = 5"
definition DefaultSelfHealMemoryFactor :: string where "DefaultSelfHealMemoryFactor = ''1.5''"

lemmas default_constants =
  DefaultRestartThreshold_def DefaultLogTailLines_def DefaultObituaryRetention_def
  DefaultSelfHealMinOccurrences_def DefaultSelfHealMaxHealsPerHour_def
  DefaultSelfHealMemoryFactor_def

definition DefaultSelfHealActions :: "self_heal_action list" where
  "DefaultSelfHealActions =
     [SelfHealDeletePod, SelfHealRestartWorkload, SelfHealBumpMemory, SelfHealRollbackDeployment]"

definition orTrue :: "bool option \<Rightarrow> bool option" where
  "orTrue b = (case b of None \<Rightarrow> Some True | Some v \<Rightarrow> Some v)"

definition orFalse :: "bool option \<Rightarrow> bool option" where
  "orFalse b = (case b of None \<Rightarrow> Some False | Some v \<Rightarrow> Some v)"

text \<open>\<^verbatim>\<open>if x == nil { v := d; x = &v }\<close>\<close>
definition fill :: "'a option \<Rightarrow> 'a \<Rightarrow> 'a option" where
  "fill x d = (case x of None \<Rightarrow> Some d | Some v \<Rightarrow> Some v)"

definition heal_with_defaults :: "self_heal_policy \<Rightarrow> self_heal_policy" where
  "heal_with_defaults p = p\<lparr>
     hp_dry_run := (if hp_dry_run p = None then orTrue None else hp_dry_run p),
     hp_require_high_confidence :=
       (if hp_require_high_confidence p = None then orTrue None else hp_require_high_confidence p),
     hp_min_occurrences := fill (hp_min_occurrences p) DefaultSelfHealMinOccurrences,
     hp_max_heals_per_hour := fill (hp_max_heals_per_hour p) DefaultSelfHealMaxHealsPerHour,
     hp_actions := (if length (hp_actions p) = 0 then DefaultSelfHealActions else hp_actions p),
     hp_memory_factor := fill (hp_memory_factor p) DefaultSelfHealMemoryFactor\<rparr>"

definition watch_with_defaults :: "watch_policy \<Rightarrow> watch_policy" where
  "watch_with_defaults w = w\<lparr>
     wp_pod_crashes := orTrue (wp_pod_crashes w),
     wp_job_failures := orTrue (wp_job_failures w),
     wp_rollout_failures := orFalse (wp_rollout_failures w),
     wp_evictions := orFalse (wp_evictions w)\<rparr>"

definition with_defaults :: "koroner_config_spec \<Rightarrow> koroner_config_spec" where
  "with_defaults s = s\<lparr>
     cfg_watch := watch_with_defaults (cfg_watch s),
     cfg_restart_threshold := fill (cfg_restart_threshold s) DefaultRestartThreshold,
     cfg_log_tail_lines := fill (cfg_log_tail_lines s) DefaultLogTailLines,
     cfg_obituary_retention := fill (cfg_obituary_retention s) DefaultObituaryRetention,
     cfg_self_heal := heal_with_defaults (cfg_self_heal s)\<rparr>"

definition DefaultKoronerConfigSpec :: koroner_config_spec where
  "DefaultKoronerConfigSpec = with_defaults zero_spec"

text \<open>The fields \<^verbatim>\<open>WithDefaults\<close> promises to fill in.\<close>
definition populated :: "koroner_config_spec \<Rightarrow> bool" where
  "populated s \<longleftrightarrow>
     wp_pod_crashes (cfg_watch s) \<noteq> None \<and> wp_job_failures (cfg_watch s) \<noteq> None \<and>
     wp_rollout_failures (cfg_watch s) \<noteq> None \<and> wp_evictions (cfg_watch s) \<noteq> None \<and>
     cfg_restart_threshold s \<noteq> None \<and> cfg_log_tail_lines s \<noteq> None \<and>
     cfg_obituary_retention s \<noteq> None \<and>
     hp_dry_run (cfg_self_heal s) \<noteq> None \<and> hp_require_high_confidence (cfg_self_heal s) \<noteq> None \<and>
     hp_min_occurrences (cfg_self_heal s) \<noteq> None \<and> hp_max_heals_per_hour (cfg_self_heal s) \<noteq> None \<and>
     hp_actions (cfg_self_heal s) \<noteq> [] \<and> hp_memory_factor (cfg_self_heal s) \<noteq> None"

lemma fill_simps [simp]: "fill None d = Some d" "fill (Some v) d = Some v" "fill x d \<noteq> None"
  by (auto simp: fill_def split: option.splits)

lemma orTrue_simps [simp]: "orTrue None = Some True" "orTrue (Some v) = Some v" "orTrue x \<noteq> None"
  by (auto simp: orTrue_def split: option.splits)

lemma orFalse_simps [simp]: "orFalse None = Some False" "orFalse (Some v) = Some v" "orFalse x \<noteq> None"
  by (auto simp: orFalse_def split: option.splits)

lemma DefaultSelfHealActions_nonempty [simp]: "DefaultSelfHealActions \<noteq> []"
  by (simp add: DefaultSelfHealActions_def)

lemmas defaults_simps =
  with_defaults_def watch_with_defaults_def heal_with_defaults_def

lemma with_defaults_populates: "populated (with_defaults s)"
  by (auto simp: populated_def defaults_simps)

lemma fill_set: "x \<noteq> None \<Longrightarrow> fill x d = x"
  by (cases x) simp_all

lemma orTrue_set: "x \<noteq> None \<Longrightarrow> orTrue x = x" and orFalse_set: "x \<noteq> None \<Longrightarrow> orFalse x = x"
  by (cases x; simp)+

lemma with_defaults_fixpoint:
  assumes "populated s"
  shows "with_defaults s = s"
proof -
  have "watch_with_defaults (cfg_watch s) = cfg_watch s"
    using assms unfolding populated_def watch_with_defaults_def
    by (simp add: orTrue_set orFalse_set)
  moreover have "heal_with_defaults (cfg_self_heal s) = cfg_self_heal s"
    using assms unfolding populated_def heal_with_defaults_def
    by (simp add: fill_set)
  ultimately show ?thesis
    using assms unfolding populated_def with_defaults_def by (simp add: fill_set)
qed

lemma with_defaults_keeps:
  "cfg_narrator (with_defaults s) = cfg_narrator s"
  "cfg_prometheus (with_defaults s) = cfg_prometheus s"
  "cfg_namespace_selector (with_defaults s) = cfg_namespace_selector s"
  "hp_enabled (cfg_self_heal (with_defaults s)) = hp_enabled (cfg_self_heal s)"
  "hp_llm (cfg_self_heal (with_defaults s)) = hp_llm (cfg_self_heal s)"
  "hp_namespace_selector (cfg_self_heal (with_defaults s)) = hp_namespace_selector (cfg_self_heal s)"
  "hp_memory_max_limit (cfg_self_heal (with_defaults s)) = hp_memory_max_limit (cfg_self_heal s)"
  by (simp_all add: defaults_simps)

end
