(* ===== verification/Decider.thy ===== *)
theory Decider
  imports Effects Defaults Diagnosis
begin

section \<open>Capabilities per kind, and the deciders\<close>

text \<open>
  \<^verbatim>\<open>internal/selfheal/subject_actions.go\<close> and \<^verbatim>\<open>decider.go\<close>: which actions a subject
  kind supports, the rule maps from cause of death to action, the rule decider and the
  composite. The interface \<^verbatim>\<open>Decider\<close> is the locale \<open>decider\<close>: a decider may only pick
  an action that the operator allows and the kind supports. The rule decider satisfies it here,
  and a composite does when its parts do; the LLM decider satisfies it in its own theory. The
  engine's safety rests on this contract alone.
\<close>

subsection \<open>Capabilities\<close>

definition supportedActionsForKind :: "string \<Rightarrow> self_heal_action set" where
  "supportedActionsForKind kind =
     (if kind = ''Deployment'' then
        {SelfHealDeletePod, SelfHealRestartWorkload, SelfHealBumpMemory, SelfHealRollbackDeployment}
      else if kind = ''StatefulSet'' \<or> kind = ''DaemonSet'' then
        {SelfHealDeletePod, SelfHealRestartWorkload, SelfHealBumpMemory}
      else if kind = ''Pod'' then {SelfHealDeletePod}
      else {})"

fun keep_supported :: "self_heal_action set \<Rightarrow> self_heal_action list \<Rightarrow> self_heal_action list" where
  "keep_supported supported [] = []"
| "keep_supported supported (a # as) =
     (if a \<in> supported then a # keep_supported supported as else keep_supported supported as)"

definition applicableActions :: "string \<Rightarrow> self_heal_action list \<Rightarrow> self_heal_action list" where
  "applicableActions kind allowed =
     (let supported = supportedActionsForKind kind
      in if supported = {} then [] else keep_supported supported allowed)"

definition kindSupports :: "string \<Rightarrow> self_heal_action \<Rightarrow> bool" where
  "kindSupports kind action \<longleftrightarrow> action \<in> supportedActionsForKind kind"

fun actionAllowed :: "self_heal_action \<Rightarrow> self_heal_action list \<Rightarrow> bool" where
  "actionAllowed a [] = False"
| "actionAllowed a (x # xs) = (if x = a then True else actionAllowed a xs)"

lemma keep_supported_filter [simp]: "keep_supported S as = filter (\<lambda>a. a \<in> S) as"
  by (induction as) auto

lemma applicableActions_filter:
  "applicableActions kind allowed = filter (kindSupports kind) allowed"
  unfolding applicableActions_def Let_def by (auto simp: kindSupports_def intro!: filter_cong)

lemma set_applicableActions:
  "set (applicableActions kind allowed) = set allowed \<inter> {a. kindSupports kind a}"
  by (auto simp: applicableActions_filter)

lemma actionAllowed_iff [simp]: "actionAllowed a as \<longleftrightarrow> a \<in> set as"
  by (induction as) auto

lemma no_empty_action: "\<not> kindSupports kind ''''"
  by (simp add: kindSupports_def supportedActionsForKind_def)

subsection \<open>The rule maps\<close>

definition ruleMap :: "string \<rightharpoonup> self_heal_action" where
  "ruleMap =
     [CauseOutOfMemory \<mapsto> SelfHealBumpMemory,
      CauseRepeatedCrash \<mapsto> SelfHealRollbackDeployment,
      CauseProbeFailure \<mapsto> SelfHealRestartWorkload,
      CauseApplicationErr \<mapsto> SelfHealDeletePod,
      CauseImagePullFailed \<mapsto> SelfHealRollbackDeployment,
      CauseNodePressure \<mapsto> SelfHealDeletePod]"

definition kindRuleMap :: "string \<rightharpoonup> (string \<rightharpoonup> self_heal_action)" where
  "kindRuleMap =
     [''Pod'' \<mapsto>
        [CauseRepeatedCrash \<mapsto> SelfHealDeletePod,
         CauseApplicationErr \<mapsto> SelfHealDeletePod,
         CauseProbeFailure \<mapsto> SelfHealDeletePod,
         CauseNodePressure \<mapsto> SelfHealDeletePod],
      ''StatefulSet'' \<mapsto>
        [CauseRepeatedCrash \<mapsto> SelfHealRestartWorkload,
         CauseImagePullFailed \<mapsto> SelfHealRestartWorkload],
      ''DaemonSet'' \<mapsto>
        [CauseRepeatedCrash \<mapsto> SelfHealRestartWorkload,
         CauseImagePullFailed \<mapsto> SelfHealRestartWorkload]]"

definition ruleFor :: "string \<Rightarrow> string \<Rightarrow> self_heal_action option" where
  "ruleFor kind cause =
     (case kindRuleMap kind of
        Some overrides \<Rightarrow>
          (case overrides cause of Some action \<Rightarrow> Some action | None \<Rightarrow> ruleMap cause)
      | None \<Rightarrow> ruleMap cause)"

subsection \<open>Decisions\<close>

record decision =
  d_action :: self_heal_action
  d_reason :: string
  d_decided_by :: string

definition Skip :: "string \<Rightarrow> string \<Rightarrow> decision" where
  "Skip reason decided_by = \<lparr>d_action = '''', d_reason = reason, d_decided_by = decided_by\<rparr>"

lemma d_action_Skip [simp]: "d_action (Skip r b) = ''''"
  by (simp add: Skip_def)

text \<open>A value of the Go interface: its \<^verbatim>\<open>Decide\<close> method.\<close>
type_synonym 'w decider_method =
  "obituary \<Rightarrow> self_heal_action list \<Rightarrow> ('w, decision) state"

definition subject_kind :: "obituary \<Rightarrow> string" where
  "subject_kind obit = sub_kind (sp_subject (obit_spec obit))"

definition rule_decision :: "string \<Rightarrow> string \<Rightarrow> self_heal_action list \<Rightarrow> decision" where
  "rule_decision kind cause allowed =
     (case ruleFor kind cause of
        None \<Rightarrow> Skip (''no rule for cause '' @ cause @ '' on kind '' @ kind) ''rule''
      | Some action \<Rightarrow>
          if \<not> kindSupports kind action then
            Skip (''rule action '' @ action @ '' not supported on kind '' @ kind) ''rule''
          else if \<not> actionAllowed action allowed then
            Skip (''rule action '' @ action @ '' not in operator allowlist'') ''rule''
          else
            \<lparr>d_action = action,
              d_reason = ''rule: '' @ kind @ ''/'' @ cause @ '' -> '' @ action,
              d_decided_by = ''rule''\<rparr>)"

text \<open>\<^verbatim>\<open>RuleDecider.Decide\<close>\<close>
definition rule_decide :: "'w decider_method" where
  "rule_decide obit allowed =
     ret (rule_decision (subject_kind obit) (st_cause_of_death (obit_status obit)) allowed)"

text \<open>\<^verbatim>\<open>CompositeDecider.Decide\<close>; \<^const>\<open>None\<close> is a nil interface value.\<close>
definition fallback_decide ::
  "'w decider_method option \<Rightarrow> 'w decider_method" where
  "fallback_decide fallback obit allowed =
     (case fallback of
        Some f \<Rightarrow> f obit allowed
      | None \<Rightarrow> ret (Skip ''no decider produced an action'' ''rule''))"

definition composite_decide ::
  "'w decider_method option \<Rightarrow> 'w decider_method option \<Rightarrow> 'w decider_method" where
  "composite_decide primary fallback obit allowed =
     (case primary of
        Some p \<Rightarrow> do {
          d \<leftarrow> p obit allowed;
          if d_action d \<noteq> '''' then ret d else fallback_decide fallback obit allowed
        }
      | None \<Rightarrow> fallback_decide fallback obit allowed)"

subsection \<open>The contract of the Decider interface\<close>

locale decider =
  fixes decide :: "'w decider_method"
  assumes decide_sound:
    "fst (run_state (decide obit allowed) w) = d \<Longrightarrow> d_action d \<noteq> '''' \<Longrightarrow>
     d_action d \<in> set allowed \<and> kindSupports (subject_kind obit) (d_action d)"
begin

lemma decide_applicable:
  assumes "run_state (decide obit allowed) w = (d, w')" "d_action d \<noteq> ''''"
  shows "d_action d \<in> set (applicableActions (subject_kind obit) allowed)"
  using decide_sound[of obit allowed w d] assms by (simp add: set_applicableActions)

lemma decide_none_applicable:
  assumes "applicableActions (subject_kind obit) allowed = []"
  shows "d_action (fst (run_state (decide obit allowed) w)) = ''''"
  using decide_applicable[of obit allowed w] assms by (metis empty_iff list.set(1) prod.collapse)

end

lemma rule_decision_sound:
  "d_action (rule_decision kind cause allowed) \<noteq> '''' \<Longrightarrow>
   d_action (rule_decision kind cause allowed) \<in> set allowed \<and>
   kindSupports kind (d_action (rule_decision kind cause allowed))"
  by (auto simp: rule_decision_def split: option.splits if_splits)

interpretation rule: decider rule_decide
  by unfold_locales (auto simp: rule_decide_def rule_decision_sound)

lemma decider_fallback:
  assumes "\<And>f. fallback = Some f \<Longrightarrow> decider f"
  shows "decider (fallback_decide fallback)"
proof (cases fallback)
  case None
  then show ?thesis by (unfold_locales) (auto simp: fallback_decide_def)
next
  case (Some f)
  then have "fallback_decide fallback = f" by (simp add: fallback_decide_def fun_eq_iff)
  with assms Some show ?thesis by simp
qed

lemma decider_composite:
  assumes "\<And>p. primary = Some p \<Longrightarrow> decider p" and "\<And>f. fallback = Some f \<Longrightarrow> decider f"
  shows "decider (composite_decide primary fallback)"
proof (unfold_locales)
  fix obit allowed w d
  assume d: "fst (run_state (composite_decide primary fallback obit allowed) w) = d"
    and a: "d_action d \<noteq> ''''"
  have fb: "decider (fallback_decide fallback)" using assms(2) by (rule decider_fallback)
  show "d_action d \<in> set allowed \<and> kindSupports (subject_kind obit) (d_action d)"
  proof (cases primary)
    case None
    with d have "fst (run_state (fallback_decide fallback obit allowed) w) = d"
      by (simp add: composite_decide_def)
    with a show ?thesis using decider.decide_sound[OF fb] by blast
  next
    case (Some p)
    obtain dp wp where p: "run_state (p obit allowed) w = (dp, wp)" by force
    show ?thesis
    proof (cases "d_action dp = ''''")
      case True
      with d p Some have "fst (run_state (fallback_decide fallback obit allowed) wp) = d"
        by (simp add: composite_decide_def)
      with a show ?thesis using decider.decide_sound[OF fb] by blast
    next
      case False
      with d p Some have "fst (run_state (p obit allowed) w) = d" by (simp add: composite_decide_def)
      with a show ?thesis using decider.decide_sound[OF assms(1)[OF Some]] by blast
    qed
  qed
qed

text \<open>The rule decider does not touch the world, and a primary that acts is not overridden.\<close>

lemma run_rule_decide [simp]:
  "run_state (rule_decide obit allowed) w =
     (rule_decision (subject_kind obit) (st_cause_of_death (obit_status obit)) allowed, w)"
  by (simp add: rule_decide_def)

lemma composite_primary_acts:
  assumes "run_state (p obit allowed) w = (d, w')" "d_action d \<noteq> ''''"
  shows "run_state (composite_decide (Some p) f obit allowed) w = (d, w')"
  using assms by (simp add: composite_decide_def)

lemma composite_primary_skips:
  assumes "run_state (p obit allowed) w = (d, w')" "d_action d = ''''"
  shows "run_state (composite_decide (Some p) f obit allowed) w =
    run_state (fallback_decide f obit allowed) w'"
  using assms by (simp add: composite_decide_def)

subsection \<open>The documented table\<close>

text \<open>
  The README's table of recommendations, one row per subject kind: which action, if any, is
  taken for each cause when every action is allowed.
\<close>
definition readme_causes :: "string list" where
  "readme_causes = [CauseOutOfMemory, CauseRepeatedCrash, CauseProbeFailure, CauseApplicationErr,
     CauseImagePullFailed, CauseNodePressure]"

definition readme_table :: "(string \<times> self_heal_action list) list" where
  "readme_table =
     [(''Deployment'', [SelfHealBumpMemory, SelfHealRollbackDeployment, SelfHealRestartWorkload,
         SelfHealDeletePod, SelfHealRollbackDeployment, SelfHealDeletePod]),
      (''StatefulSet'', [SelfHealBumpMemory, SelfHealRestartWorkload, SelfHealRestartWorkload,
         SelfHealDeletePod, SelfHealRestartWorkload, SelfHealDeletePod]),
      (''DaemonSet'', [SelfHealBumpMemory, SelfHealRestartWorkload, SelfHealRestartWorkload,
         SelfHealDeletePod, SelfHealRestartWorkload, SelfHealDeletePod]),
      (''Pod'', ['''', SelfHealDeletePod, SelfHealDeletePod, SelfHealDeletePod, '''',
         SelfHealDeletePod]),
      (''Job'', ['''', '''', '''', '''', '''', '''']),
      (''CronJob'', ['''', '''', '''', '''', '''', ''''])]"

definition rule_row :: "string \<Rightarrow> self_heal_action list" where
  "rule_row kind =
     map (\<lambda>cause. d_action (rule_decision kind cause DefaultSelfHealActions)) readme_causes"

lemma rule_row_table: "map (\<lambda>(kind, row). (kind, rule_row kind)) readme_table = readme_table"
  by (simp add: readme_table_def rule_row_def readme_causes_def rule_decision_def ruleFor_def
      ruleMap_def kindRuleMap_def kindSupports_def supportedActionsForKind_def
      DefaultSelfHealActions_def)

lemma rule_for_unruled: "ruleFor kind CauseUnknown = None" "ruleFor kind CauseJobFailed = None"
  by (simp_all add: ruleFor_def kindRuleMap_def ruleMap_def)

end
