(* ===== verification/Civil_Time.thy ===== *)
theory Civil_Time
  imports Go_Text
begin

section \<open>Civil time\<close>

text \<open>
  What \<^verbatim>\<open>t.UTC().Format(time.RFC3339)\<close> computes: the date of the proleptic Gregorian
  calendar from cycles of 400, 100, 4 and 1 years, and the text with two-digit fields. An
  instant counts nanoseconds from the start of year 1. The lemmas relate the date to the usual
  count of days before a year and before a month.
\<close>

definition leap_year :: "int \<Rightarrow> bool" where
  "leap_year y \<longleftrightarrow> y mod 4 = 0 \<and> (y mod 100 \<noteq> 0 \<or> y mod 400 = 0)"

text \<open>The year and the day of the year, from the days since the start of year 1\<close>
definition year_day :: "int \<Rightarrow> int \<times> int" where
  "year_day d =
     (let n400 = d div 146097; d = d mod 146097;
          n100 = min 3 (d div 36524); d = d - 36524 * n100;
          n4 = d div 1461; d = d mod 1461;
          n1 = min 3 (d div 365); d = d - 365 * n1
      in (1 + 400 * n400 + 100 * n100 + 4 * n4 + n1, d))"

definition month_lengths :: "int \<Rightarrow> int list" where
  "month_lengths y = [31, if leap_year y then 29 else 28, 31, 30, 31, 30, 31, 31, 30, 31, 30, 31]"

text \<open>The month and the day in it, both from 1, for the lengths of the months from \<open>m\<close> on\<close>
fun month_day :: "int \<Rightarrow> int list \<Rightarrow> int \<Rightarrow> int \<times> int" where
  "month_day m [] d = (m, d + 1)"
| "month_day m (l # ls) d = (if d < l then (m, d + 1) else month_day (m + 1) ls (d - l))"

definition two_digits :: "int \<Rightarrow> string" where
  "two_digits n = (if n < 10 then ''0'' @ show_int n else show_int n)"

definition four_digits :: "int \<Rightarrow> string" where
  "four_digits n =
     (let s = show_nat (nat \<bar>n\<bar>) in
      (if n < 0 then ''-'' else '''') @ replicate (4 - length s) CHR ''0'' @ s)"

text \<open>The date of a day\<close>
definition date_of :: "int \<Rightarrow> int \<times> int \<times> int" where
  "date_of d =
     (let (year, yday) = year_day d; (month, day) = month_day 1 (month_lengths year) yday
      in (year, month, day))"

definition rfc3339 :: "int \<Rightarrow> string" where
  "rfc3339 t =
     (let secs = t div 1000000000;
          (year, month, day) = date_of (secs div 86400);
          sod = secs mod 86400
      in four_digits year @ ''-'' @ two_digits month @ ''-'' @ two_digits day @ ''T'' @
         two_digits (sod div 3600) @ '':'' @ two_digits (sod mod 3600 div 60) @ '':'' @
         two_digits (sod mod 60) @ ''Z'')"

subsection \<open>Correctness\<close>

definition days_before_year :: "int \<Rightarrow> int" where
  "days_before_year y = 365 * (y - 1) + (y - 1) div 4 - (y - 1) div 100 + (y - 1) div 400"

lemma cycles:
  fixes a b c e :: int
  assumes "0 \<le> b" "b \<le> 3" "0 \<le> c" "c \<le> 24" "0 \<le> e" "e \<le> 3"
  shows "(400 * a + 100 * b + 4 * c + e) div 400 = a"
    and "(400 * a + 100 * b + 4 * c + e) div 100 = 4 * a + b"
    and "(400 * a + 100 * b + 4 * c + e) div 4 = 100 * a + 25 * b + c"
proof -
  have div_eq: "x div m = q" if "0 < m" "m * q \<le> x" "x < m * q + m" for x m q :: int
    by (rule int_div_pos_eq[of x m q "x - m * q"]) (use that in simp_all)
  show "(400 * a + 100 * b + 4 * c + e) div 400 = a" using assms by (intro div_eq) simp_all
  show "(400 * a + 100 * b + 4 * c + e) div 100 = 4 * a + b" using assms by (intro div_eq) simp_all
  show "(400 * a + 100 * b + 4 * c + e) div 4 = 100 * a + 25 * b + c" using assms by (intro div_eq) simp_all
qed

text \<open>The day of the year is counted from the start of the year, and lies in it.\<close>
lemma year_day_correct:
  assumes "year_day d = (y, yd)"
  shows "days_before_year y + yd = d" "0 \<le> yd" "yd < (if leap_year y then 366 else 365)"
proof -
  define a r b r1 c r2 e where "a = d div 146097" and "r = d mod 146097"
    and "b = min 3 (r div 36524)" and "r1 = r - 36524 * b"
    and "c = r1 div 1461" and "r2 = r1 mod 1461" and "e = min 3 (r2 div 365)"
  note defs = this
  have d: "d = 146097 * a + r" and r: "0 \<le> r" "r < 146097" by (simp_all add: defs)
  have b: "0 \<le> b" "b \<le> 3" and r1: "0 \<le> r1" "b < 3 \<Longrightarrow> r1 < 36524" "r1 < 36525"
    using r by (auto simp: defs min_def)
  have r1d: "r1 = 1461 * c + r2" and r2: "0 \<le> r2" "r2 < 1461" by (simp_all add: c_def r2_def)
  have c: "0 \<le> c" "c \<le> 24" using r1 r1d r2 by simp_all
  have e: "0 \<le> e" "e \<le> 3" using r2 by (auto simp: e_def)
  have "year_day d = (1 + 400 * a + 100 * b + 4 * c + e, r2 - 365 * e)"
    unfolding year_day_def Let_def defs ..
  with assms have y: "y = 1 + 400 * a + 100 * b + 4 * c + e" and yd: "yd = r2 - 365 * e"
    by (simp_all only: prod.inject)
  have y1: "y - 1 = 400 * a + 100 * b + 4 * c + e" using y by simp
  show "days_before_year y + yd = d"
    unfolding days_before_year_def y1 cycles[OF b c e] yd using d r1d by (simp add: r1_def)
  have pos: "0 \<le> yd \<and> (yd < 365 \<or> yd = 365 \<and> e = 3 \<and> r2 = 1460)"
  proof (cases "3 \<le> r2 div 365")
    case True
    then have "e = 3" "1095 \<le> r2" by (simp_all add: e_def)
    with r2 yd show ?thesis by auto
  next
    case False
    then have "yd = r2 mod 365" by (simp add: yd e_def minus_mult_div_eq_mod)
    then show ?thesis by simp
  qed
  then show "0 \<le> yd" by simp
  have leap: "leap_year y" if "e = 3" "r2 = 1460"
  proof -
    have y4: "y = 4 * (100 * a + 25 * b + c + 1)" using y that by simp
    then have "y mod 4 = 0" by simp
    moreover have "y mod 100 \<noteq> 0 \<or> y mod 400 = 0"
    proof (cases "c = 24")
      case True
      then have "b = 3" using r1(2) r1d that(2) b by (cases "b < 3") auto
      with True have "y = 400 * (a + 1)" using y4 by simp
      then show ?thesis by simp
    next
      case False
      have "y = 4 * (c + 1) + 100 * (4 * a + b)" using y4 by simp
      then have "y mod 100 = 4 * (c + 1) mod 100" by (metis mod_mult_self2)
      also have "\<dots> = 4 * (c + 1)" using c False by (intro mod_pos_pos_trivial) simp_all
      finally show ?thesis using c by simp
    qed
    ultimately show ?thesis by (simp add: leap_year_def)
  qed
  with pos show "yd < (if leap_year y then 366 else 365)" by auto
qed

text \<open>The month and the day: the days of the earlier months and the day add up.\<close>
lemma month_day_correct:
  assumes "month_day m ls d = (m', day)" "0 \<le> d" "d < sum_list ls" "\<forall>l \<in> set ls. 0 < l"
  shows "\<exists>k < length ls. m' = m + int k \<and> 1 \<le> day \<and> day \<le> ls ! k \<and> d = sum_list (take k ls) + day - 1"
  using assms
proof (induction m ls d rule: month_day.induct)
  case (2 m l ls d)
  show ?case
  proof (cases "d < l")
    case True
    with 2 show ?thesis by (intro exI[of _ 0]) auto
  next
    case False
    with 2 obtain k where "k < length ls" "m' = m + 1 + int k" "1 \<le> day" "day \<le> ls ! k"
      "d - l = sum_list (take k ls) + day - 1" by auto
    then show ?thesis by (intro exI[of _ "Suc k"]) auto
  qed
qed simp

lemma month_lengths_sum: "sum_list (month_lengths y) = (if leap_year y then 366 else 365)"
  and month_lengths_pos: "\<forall>l \<in> set (month_lengths y). 0 < l"
  by (simp_all add: month_lengths_def)

text \<open>The days before the first of a month\<close>
definition days_before_date :: "int \<Rightarrow> int \<Rightarrow> int" where
  "days_before_date y m = days_before_year y + sum_list (take (nat (m - 1)) (month_lengths y))"

lemma date_correct:
  assumes "date_of d = (y, m, day)"
  shows "1 \<le> m" "m \<le> 12" "1 \<le> day" "day \<le> month_lengths y ! nat (m - 1)"
    "d = days_before_date y m + day - 1"
proof -
  obtain yd where yd: "year_day d = (y, yd)" and md: "month_day 1 (month_lengths y) yd = (m, day)"
    using assms by (auto simp: date_of_def split: prod.splits)
  note year = year_day_correct[OF yd]
  obtain k where k: "k < length (month_lengths y)" "m = 1 + int k" "1 \<le> day" "day \<le> month_lengths y ! k"
    "yd = sum_list (take k (month_lengths y)) + day - 1"
    using month_day_correct[OF md year(2)] year(3) month_lengths_sum[of y] month_lengths_pos[of y] by auto
  have nk: "nat (m - 1) = k" "length (month_lengths y) = 12" using k(2) by (simp_all add: month_lengths_def)
  show "1 \<le> m" "m \<le> 12" "1 \<le> day" "day \<le> month_lengths y ! nat (m - 1)" using k nk by simp_all
  show "d = days_before_date y m + day - 1"
    unfolding days_before_date_def nk(1) using year(1) k(5) by simp
qed

lemma rfc3339_epoch: "rfc3339 (62135596800 * 1000000000) = ''1970-01-01T00:00:00Z''"
  and rfc3339_leap_day: "rfc3339 ((62135596800 + 1709209845) * 1000000000 + 7) = ''2024-02-29T12:30:45Z''"
  by code_simp+

end
