(* ===== verification/Actions.thy ===== *)
theory Actions
  imports Memory Decider Civil_Time
begin

section \<open>Executing an action\<close>

text \<open>
  \<^verbatim>\<open>internal/selfheal/actions.go\<close>: one executor per action. The three workload kinds
  share \<open>patch_template\<close>, the retried read-modify-write of
  \<^verbatim>\<open>patchDeploymentTemplate\<close> and its two siblings; its detail string is the captured
  variable of the closure. The lemmas say on which kinds an executor acts at all, that it
  writes nothing but pods and workloads, and what it writes.
\<close>

type_synonym 'w execution = "('w, string \<times> go_error option) state"

text \<open>The obituary's subject: namespace and name of what an executor acts on\<close>
definition subject_key :: "obituary \<Rightarrow> object_key" where
  "subject_key obit = (sub_namespace (sp_subject (obit_spec obit)), sub_name (sp_subject (obit_spec obit)))"

definition deletePod :: "('w, 'q, 'z) kube_client_scheme \<Rightarrow> obituary \<Rightarrow> 'w execution" where
  "deletePod K obit =
     (let podName = st_last_pod (obit_status obit) in
      if podName = '''' then ret ('''', Some (errorf ''no LastPod recorded on obituary''))
      else do {
        r \<leftarrow> k_get_pod K (fst (subject_key obit), podName);
        case r of
          Inl err \<Rightarrow>
            if is_not_found err then ret (''pod '' @ podName @ '' already gone'', None)
            else ret ('''', Some err)
        | Inr pod \<Rightarrow> do {
            e \<leftarrow> k_delete_pod K pod;
            case e of
              Some err \<Rightarrow> ret ('''', Some err)
            | None \<Rightarrow> ret (''deleted pod '' @ podName, None)
          }
      })"

subsection \<open>Patching a pod template\<close>

definition template_containers :: "'q workload \<Rightarrow> 'q container list" where
  "template_containers wl = ps_containers (pt_spec (wl_template wl))"

definition patch_attempt ::
  "('q, 'l) koroner_lib_scheme \<Rightarrow> (object_key \<Rightarrow> ('w, go_error + 'q workload) state) \<Rightarrow>
   ('q workload \<Rightarrow> ('w, go_error option) state) \<Rightarrow> string \<Rightarrow> obituary \<Rightarrow>
   ('q workload \<Rightarrow> 'q workload) \<Rightarrow> ('w \<times> string, go_error option) state" where
  "patch_attempt L get update label obit mutate = do {
     r \<leftarrow> no_capture (get (subject_key obit));
     case r of
       Inl err \<Rightarrow> ret (Some err)
     | Inr dep \<Rightarrow>
         let before = summarizeMemory L (template_containers dep);
             dep = mutate dep;
             after = summarizeMemory L (template_containers dep)
         in do {
           _ \<leftarrow> capture (diffDetail before after (label @ snd (subject_key obit)));
           no_capture (update dep)
         }
   }"

definition patch_template ::
  "('q, 'l) koroner_lib_scheme \<Rightarrow> ('w, 'z) obit_client_scheme \<Rightarrow>
   (object_key \<Rightarrow> ('w, go_error + 'q workload) state) \<Rightarrow>
   ('q workload \<Rightarrow> ('w, go_error option) state) \<Rightarrow> string \<Rightarrow> obituary \<Rightarrow>
   ('q workload \<Rightarrow> 'q workload) \<Rightarrow> 'w execution" where
  "patch_template L K get update label obit mutate = do {
     (err, detail) \<leftarrow> retried K (patch_attempt L get update label obit mutate);
     ret (detail, err)
   }"

definition patchDeploymentTemplate ::
  "('q, 'l) koroner_lib_scheme \<Rightarrow> ('w, 'q, 'z) kube_client_scheme \<Rightarrow> obituary \<Rightarrow>
   ('q workload \<Rightarrow> 'q workload) \<Rightarrow> 'w execution" where
  "patchDeploymentTemplate L K obit mutate =
     patch_template L K (k_get_deployment K) (k_update_deployment K) ''deployment '' obit mutate"

definition patchStatefulSetTemplate ::
  "('q, 'l) koroner_lib_scheme \<Rightarrow> ('w, 'q, 'z) kube_client_scheme \<Rightarrow> obituary \<Rightarrow>
   ('q workload \<Rightarrow> 'q workload) \<Rightarrow> 'w execution" where
  "patchStatefulSetTemplate L K obit mutate =
     patch_template L K (k_get_stateful_set K) (k_update_stateful_set K) ''statefulset '' obit mutate"

definition patchDaemonSetTemplate ::
  "('q, 'l) koroner_lib_scheme \<Rightarrow> ('w, 'q, 'z) kube_client_scheme \<Rightarrow> obituary \<Rightarrow>
   ('q workload \<Rightarrow> 'q workload) \<Rightarrow> 'w execution" where
  "patchDaemonSetTemplate L K obit mutate =
     patch_template L K (k_get_daemon_set K) (k_update_daemon_set K) ''daemonset '' obit mutate"

text \<open>The mutations of the executors\<close>

definition restartedAtKey :: string where
  "restartedAtKey = ''kubectl.kubernetes.io/restartedAt''"

definition ensureAnnotations :: "object_meta \<Rightarrow> object_meta" where
  "ensureAnnotations m =
     (if om_annotations m = None then m\<lparr>om_annotations := Some Map.empty\<rparr> else m)"

definition set_restarted_at :: "string \<Rightarrow> 'q workload \<Rightarrow> 'q workload" where
  "set_restarted_at now wl =
     (let tpl = wl_template wl; m = ensureAnnotations (pt_meta tpl);
          m = m\<lparr>om_annotations := map_option (\<lambda>a. a(restartedAtKey \<mapsto> now)) (om_annotations m)\<rparr>
      in wl\<lparr>wl_template := tpl\<lparr>pt_meta := m\<rparr>\<rparr>)"

definition bump_workload ::
  "('q, 'l) koroner_lib_scheme \<Rightarrow> float64 \<Rightarrow> 'q option \<Rightarrow> 'q workload \<Rightarrow> 'q workload" where
  "bump_workload L factor cap wl =
     (let tpl = wl_template wl
      in wl\<lparr>wl_template := tpl\<lparr>pt_spec := bumpPodSpecMemory L factor cap (pt_spec tpl)\<rparr>\<rparr>)"

definition roll_back_to :: "'q replica_set \<Rightarrow> 'q workload \<Rightarrow> 'q workload" where
  "roll_back_to prev wl =
     (let tpl = wl_template wl
      in wl\<lparr>wl_template := tpl\<lparr>pt_spec := pt_spec (rs_template prev)\<rparr>\<rparr>)"

subsection \<open>The executors\<close>

definition restartWorkload ::
  "('q, 'l) koroner_lib_scheme \<Rightarrow> ('w, 'q, 'z) kube_client_scheme \<Rightarrow> obituary \<Rightarrow> 'w execution" where
  "restartWorkload L K obit = do {
     t \<leftarrow> k_now K;
     let now = rfc3339 t; kind = subject_kind obit in
     if kind = ''Deployment'' then patchDeploymentTemplate L K obit (set_restarted_at now)
     else if kind = ''StatefulSet'' then patchStatefulSetTemplate L K obit (set_restarted_at now)
     else if kind = ''DaemonSet'' then patchDaemonSetTemplate L K obit (set_restarted_at now)
     else ret ('''', Some (errorf (''RestartWorkload not supported for kind '' @ kind)))
   }"

text \<open>The cap of the policy: absent, parsed, or an error\<close>
definition parse_cap ::
  "('q, 'l) koroner_lib_scheme \<Rightarrow> string option \<Rightarrow> go_error + 'q option" where
  "parse_cap L limit =
     (case limit of
        None \<Rightarrow> Inr None
      | Some t \<Rightarrow>
          if t = '''' then Inr None
          else (case lib_parse_quantity L t of
            Inl err \<Rightarrow> Inl \<lparr>ekind = ekind err,
              emsg = ''invalid memoryMaxLimit '' @ lib_quote L t @ '': '' @ emsg err\<rparr>
          | Inr q \<Rightarrow> Inr (Some q)))"

definition bumpMemory ::
  "('q, 'l) koroner_lib_scheme \<Rightarrow> ('w, 'q, 'z) kube_client_scheme \<Rightarrow> obituary \<Rightarrow>
   self_heal_policy \<Rightarrow> 'w execution" where
  "bumpMemory L K obit p =
     (case parseFactor L (hp_memory_factor p) of
        Inl err \<Rightarrow> ret ('''', Some err)
      | Inr factor \<Rightarrow>
          (case parse_cap L (hp_memory_max_limit p) of
             Inl err \<Rightarrow> ret ('''', Some err)
           | Inr cap \<Rightarrow>
               let kind = subject_kind obit in
               if kind = ''Deployment'' then patchDeploymentTemplate L K obit (bump_workload L factor cap)
               else if kind = ''StatefulSet'' then patchStatefulSetTemplate L K obit (bump_workload L factor cap)
               else if kind = ''DaemonSet'' then patchDaemonSetTemplate L K obit (bump_workload L factor cap)
               else ret ('''', Some (errorf (''BumpMemory not supported for kind '' @ kind)))))"

definition revisionKey :: string where
  "revisionKey = ''deployment.kubernetes.io/revision''"

text \<open>Indexing a possibly nil map of strings\<close>
definition annotation :: "object_meta \<Rightarrow> string \<Rightarrow> string" where
  "annotation m k = or_default (or_default (om_annotations m) Map.empty k) ''''"

text \<open>
  \<^verbatim>\<open>strconv.ParseInt(s, 10, 64)\<close> with its error dropped: 0 on a syntax error, the nearest
  bound on overflow. \<open>parse_digits\<close> is the loop of \<^verbatim>\<open>ParseUint\<close>.
\<close>
fun parse_digits :: "nat \<Rightarrow> string \<Rightarrow> nat option" where
  "parse_digits n [] = Some n"
| "parse_digits n (c # s) =
     (if \<not> is_digit c then None
      else if 2 ^ 64 \<le> 10 * n + digit_val c then Some (2 ^ 64 - 1)
      else parse_digits (10 * n + digit_val c) s)"

definition parse_int64 :: "string \<Rightarrow> int64" where
  "parse_int64 s =
     (let neg = (s \<noteq> '''' \<and> hd s = CHR ''-'');
          digits = (if s \<noteq> '''' \<and> (hd s = CHR ''-'' \<or> hd s = CHR ''+'') then tl s else s)
      in if digits = '''' then 0
         else (case parse_digits 0 digits of
           None \<Rightarrow> 0
         | Some n \<Rightarrow>
             if neg then word_of_int (- min (int n) (2 ^ 63))
             else word_of_int (min (int n) (2 ^ 63 - 1))))"

fun ownedBy :: "owner_reference list \<Rightarrow> string \<Rightarrow> bool" where
  "ownedBy [] uid = False"
| "ownedBy (r # refs) uid = (if or_uid r = uid then True else ownedBy refs uid)"

definition owned_revisions :: "'q workload \<Rightarrow> 'q replica_set list \<Rightarrow> ('q replica_set \<times> int64) list" where
  "owned_revisions dep items =
     map (\<lambda>rs. (rs, parse_int64 (annotation (rs_meta rs) revisionKey)))
       (filter (\<lambda>rs. ownedBy (om_owner_references (rs_meta rs)) (om_uid (wl_meta dep))) items)"

text \<open>The less function given to \<^verbatim>\<open>sort.Slice\<close>, which is a parameter: the newer
  revision comes first.\<close>
definition revision_less :: "'q replica_set \<times> int64 \<Rightarrow> 'q replica_set \<times> int64 \<Rightarrow> bool" where
  "revision_less a b \<longleftrightarrow> snd b <s snd a"

interpretation newest_first: strict_weak_order "revision_less :: 'q replica_set \<times> int64 \<Rightarrow> 'q replica_set \<times> int64 \<Rightarrow> bool"
  by unfold_locales (auto simp: revision_less_def word_sless_alt)

definition previousReplicaSet ::
  "('q, 'l) koroner_lib_scheme \<Rightarrow> ('w, 'q, 'z) kube_client_scheme \<Rightarrow> 'q workload \<Rightarrow>
   ('w, go_error + ('q replica_set \<times> string) option) state" where
  "previousReplicaSet L K dep = do {
     r \<leftarrow> k_list_replica_sets K (om_namespace (wl_meta dep));
     case r of
       Inl err \<Rightarrow> ret (Inl err)
     | Inr items \<Rightarrow>
         let owns = owned_revisions dep items in
         if length owns < 2 then ret (Inr None)
         else let (rs, rev) = lib_sort_slice L revision_less owns ! 1
              in ret (Inr (Some (rs, show_int (sint rev))))
   }"

definition rollbackDeployment ::
  "('q, 'l) koroner_lib_scheme \<Rightarrow> ('w, 'q, 'z) kube_client_scheme \<Rightarrow> obituary \<Rightarrow> 'w execution" where
  "rollbackDeployment L K obit =
     (if subject_kind obit \<noteq> ''Deployment'' then
        ret ('''', Some (errorf (''RollbackDeployment only supports Deployment, got '' @ subject_kind obit)))
      else do {
        r \<leftarrow> k_get_deployment K (subject_key obit);
        case r of
          Inl err \<Rightarrow> ret ('''', Some err)
        | Inr dep \<Rightarrow> do {
            pr \<leftarrow> previousReplicaSet L K dep;
            case pr of
              Inl err \<Rightarrow> ret ('''', Some err)
            | Inr None \<Rightarrow> ret ('''', Some (errorf ''no prior ReplicaSet to roll back to''))
            | Inr (Some (prev, prevRev)) \<Rightarrow> do {
                (_, perr) \<leftarrow> patchDeploymentTemplate L K obit (roll_back_to prev);
                case perr of
                  Some err \<Rightarrow> ret ('''', Some err)
                | None \<Rightarrow> ret (''rolled back deployment '' @ snd (subject_key obit) @ '' revision '' @
                    annotation (wl_meta dep) revisionKey @ '' -> '' @ prevRev, None)
              }
          }
      })"

definition executors ::
  "('q, 'l) koroner_lib_scheme \<Rightarrow> ('w, 'q, 'z) kube_client_scheme \<Rightarrow> self_heal_action \<Rightarrow>
   (obituary \<Rightarrow> self_heal_policy \<Rightarrow> 'w execution) option" where
  "executors L K action =
     (if action = SelfHealDeletePod then Some (\<lambda>obit p. deletePod K obit)
      else if action = SelfHealRestartWorkload then Some (\<lambda>obit p. restartWorkload L K obit)
      else if action = SelfHealBumpMemory then Some (\<lambda>obit p. bumpMemory L K obit p)
      else if action = SelfHealRollbackDeployment then Some (\<lambda>obit p. rollbackDeployment L K obit)
      else None)"

subsection \<open>What an executor may change\<close>

lemma executors_supported: "kindSupports kind action \<Longrightarrow> executors L K action \<noteq> None"
  by (auto simp: kindSupports_def supportedActionsForKind_def executors_def split: if_splits)

text \<open>
  A frame that the reads, the clock and the writes of pods and workloads keep is kept by every
  executor: there is no other call in them.
\<close>
locale executor_frame =
  fixes K :: "('w, 'q, 'z) kube_client_scheme" and R :: "'w \<Rightarrow> 'w \<Rightarrow> bool"
  assumes exec_frame: "world_frame R"
    and retry_ok: "retry_contract (k_retry_on_conflict K)"
    and exec_now_frame: "state_io_rel R (k_now K)"
    and get_pod_frame: "state_io_rel R (k_get_pod K key)"
    and delete_pod_frame: "state_io_rel R (k_delete_pod K pod)"
    and get_workload_frame: "state_io_rel R (k_get_deployment K key)"
      "state_io_rel R (k_get_stateful_set K key)" "state_io_rel R (k_get_daemon_set K key)"
    and update_workload_frame: "state_io_rel R (k_update_deployment K wl)"
      "state_io_rel R (k_update_stateful_set K wl)" "state_io_rel R (k_update_daemon_set K wl)"
    and list_frame: "state_io_rel R (k_list_replica_sets K ns)"
begin

lemma patch_frame:
  assumes "state_io_rel R (get (subject_key obit))" "\<And>wl. state_io_rel R (update wl)"
  shows "state_io_rel R (patch_template L K get update label obit mutate)"
proof -
  have "state_io_rel (on_world R) (patch_attempt L get update label obit mutate)"
    unfolding patch_attempt_def Let_def
    by (intro frame_intros world_frame_on_world exec_frame assms)
  then have "state_io_rel R (retried K (patch_attempt L get update label obit mutate))"
    by (rule frame_retried[OF retry_ok exec_frame])
  then show ?thesis
    unfolding patch_template_def
    by (rule frame_bind[OF exec_frame]) (auto intro!: frame_return exec_frame split: prod.splits)
qed

lemma patches_frame:
  "state_io_rel R (patchDeploymentTemplate L K obit mutate)"
  "state_io_rel R (patchStatefulSetTemplate L K obit mutate)"
  "state_io_rel R (patchDaemonSetTemplate L K obit mutate)"
  unfolding patchDeploymentTemplate_def patchStatefulSetTemplate_def patchDaemonSetTemplate_def
  by (rule patch_frame, rule get_workload_frame, rule update_workload_frame)+

lemma deletePod_frame: "state_io_rel R (deletePod K obit)"
  unfolding deletePod_def Let_def
  by (intro frame_intros exec_frame get_pod_frame delete_pod_frame)

lemma restartWorkload_frame: "state_io_rel R (restartWorkload L K obit)"
  unfolding restartWorkload_def Let_def
  by (intro frame_intros exec_frame exec_now_frame patches_frame)

lemma bumpMemory_frame: "state_io_rel R (bumpMemory L K obit p)"
  unfolding bumpMemory_def Let_def
  by (intro frame_intros exec_frame patches_frame)

lemma previousReplicaSet_frame: "state_io_rel R (previousReplicaSet L K dep)"
  unfolding previousReplicaSet_def Let_def
  by (intro frame_intros exec_frame list_frame)

lemma rollbackDeployment_frame: "state_io_rel R (rollbackDeployment L K obit)"
  unfolding rollbackDeployment_def
  by (intro frame_intros exec_frame get_workload_frame patches_frame previousReplicaSet_frame)

lemma executors_frame:
  assumes "executors L K action = Some exec"
  shows "state_io_rel R (exec obit p)"
  using assms deletePod_frame restartWorkload_frame bumpMemory_frame rollbackDeployment_frame
  by (auto simp: executors_def split: if_splits)

end

text \<open>
  What an update writes, when the first attempt goes through: the mutated object it read, and
  the detail compares the memory limits before and after.
\<close>
lemma patch_template_once:
  assumes "retry_contract (k_retry_on_conflict K)"
    and "run_state (get (subject_key obit)) w = (Inr dep, w1)"
    and "run_state (update (mutate dep)) w1 = (None, w2)"
  shows "run_state (patch_template L K get update label obit mutate) w =
    ((diffDetail (summarizeMemory L (template_containers dep))
        (summarizeMemory L (template_containers (mutate dep))) (label @ snd (subject_key obit)), None), w2)"
proof -
  let ?d = "diffDetail (summarizeMemory L (template_containers dep))
    (summarizeMemory L (template_containers (mutate dep))) (label @ snd (subject_key obit))"
  have "run_state (patch_attempt L get update label obit mutate) (w, '''') = (None, (w2, ?d))"
    using assms(2,3) by (simp add: patch_attempt_def Let_def)
  then have "run_state (k_retry_on_conflict K (patch_attempt L get update label obit mutate)) (w, '''') =
      (None, (w2, ?d))"
    by (rule retry_contract.retry_first[OF assms(1)]) simp
  then show ?thesis by (simp add: patch_template_def run_retried)
qed

text \<open>Patching changes only what its action names.\<close>

lemma set_restarted_at_spec:
  "wl_meta (set_restarted_at now wl) = wl_meta wl"
  "wl_other (set_restarted_at now wl) = wl_other wl"
  "pt_spec (wl_template (set_restarted_at now wl)) = pt_spec (wl_template wl)"
  "om_annotations (pt_meta (wl_template (set_restarted_at now wl))) =
     Some ((or_default (om_annotations (pt_meta (wl_template wl))) Map.empty)(restartedAtKey \<mapsto> now))"
  by (auto simp: set_restarted_at_def ensureAnnotations_def Let_def)

lemma bump_workload_spec:
  "wl_meta (bump_workload L f cap wl) = wl_meta wl"
  "wl_other (bump_workload L f cap wl) = wl_other wl"
  "pt_meta (wl_template (bump_workload L f cap wl)) = pt_meta (wl_template wl)"
  "template_containers (bump_workload L f cap wl) = map (bump_container L f cap) (template_containers wl)"
  by (simp_all add: bump_workload_def bumpPodSpecMemory_def template_containers_def Let_def)

lemma roll_back_to_spec:
  "wl_meta (roll_back_to prev wl) = wl_meta wl"
  "wl_other (roll_back_to prev wl) = wl_other wl"
  "pt_meta (wl_template (roll_back_to prev wl)) = pt_meta (wl_template wl)"
  "pt_spec (wl_template (roll_back_to prev wl)) = pt_spec (rs_template prev)"
  by (simp_all add: roll_back_to_def Let_def)

lemma ownedBy_iff: "ownedBy refs uid \<longleftrightarrow> uid \<in> or_uid ` set refs"
  by (induction refs) auto

end
