(* ===== verification/Rate_Limit.thy ===== *)
theory Rate_Limit
  imports Prelude
begin

section \<open>The per-namespace rate limiter\<close>

text \<open>
  \<^verbatim>\<open>internal/selfheal/ratelimit.go\<close>. The limiter keeps, per namespace, the instants of the
  actions it granted; \<^verbatim>\<open>reserve\<close> first drops those outside the rolling window, reusing the
  slice's own backing array (\<^verbatim>\<open>kept := r.history[namespace][:0]\<close>), then grants or denies.
  The mutex makes each call one atomic step, so a run of the limiter is a list of calls.

  The in-place filtering is modelled as the loop over the shared array that it is (\<open>compact\<close>),
  and shown to be the filter it is meant to be. The main results: a grant depends only on the
  namespace's own grants within the window, and over any run no window ever holds more grants
  than the cap.
\<close>

record rate_limiter =
  rl_window :: int
  rl_history :: "string \<rightharpoonup> instant list"

definition hour :: int where "hour = 60 * 60 * 1000000000"

definition newRateLimiter :: rate_limiter where
  "newRateLimiter = \<lparr>rl_window = hour, rl_history = Map.empty\<rparr>"

text \<open>
  The loop over the backing array: \<open>i\<close> is the index the range loop reads, \<open>k\<close> the length of
  \<^verbatim>\<open>kept\<close>, which is the prefix of the same array.
\<close>
function compact :: "(instant \<Rightarrow> bool) \<Rightarrow> instant list \<Rightarrow> nat \<Rightarrow> nat \<Rightarrow> instant list \<times> nat" where
  "compact P arr i k =
     (if i < length arr then
        (if P (arr ! i) then compact P (arr[k := arr ! i]) (i + 1) (k + 1)
         else compact P arr (i + 1) k)
      else (arr, k))"
  by pat_completeness auto
termination
  by (relation "measure (\<lambda>(P, arr, i, k). length arr - i)") auto

declare compact.simps [simp del]

definition history_of :: "rate_limiter \<Rightarrow> string \<Rightarrow> instant list" where
  "history_of r ns = or_default (rl_history r ns) []"

definition reserve :: "rate_limiter \<Rightarrow> instant \<Rightarrow> string \<Rightarrow> int \<Rightarrow> bool \<times> rate_limiter" where
  "reserve r now ns maxPerWindow =
     (let cutoff = now - rl_window r;
          (arr, k) = compact (\<lambda>t. cutoff < t) (history_of r ns) 0 0;
          kept = take k arr
      in if maxPerWindow \<le> int (length kept)
         then (False, r\<lparr>rl_history := (rl_history r)(ns \<mapsto> kept)\<rparr>)
         else (True, r\<lparr>rl_history := (rl_history r)(ns \<mapsto> kept @ [now])\<rparr>))"

subsection \<open>The loop is a filter\<close>

lemma compact_filter:
  "k \<le> i \<Longrightarrow> compact P arr i k = (arr', k') \<Longrightarrow>
   take k' arr' = take k arr @ filter P (drop i arr)"
proof (induction P arr i k arbitrary: arr' k' rule: compact.induct)
  case (1 P arr i k)
  show ?case
  proof (cases "i < length arr")
    case False
    with 1 show ?thesis by (simp add: compact.simps[of P arr i k])
  next
    case i: True
    then have drop_i: "drop i arr = arr ! i # drop (Suc i) arr" by (simp add: Cons_nth_drop_Suc)
    show ?thesis
    proof (cases "P (arr ! i)")
      case True
      let ?arr = "arr[k := arr ! i]"
      from True i 1 have "take k' arr' = take (k + 1) ?arr @ filter P (drop (i + 1) ?arr)"
        by (simp add: compact.simps[of P arr i k])
      moreover have "take (k + 1) ?arr = take k arr @ [arr ! i]"
        using i 1(3) by (simp add: take_Suc_conv_app_nth)
      moreover have "drop (i + 1) ?arr = drop (i + 1) arr"
        using 1(3) by simp
      ultimately show ?thesis using True by (simp add: drop_i)
    next
      case False
      with i 1 have "take k' arr' = take k arr @ filter P (drop (i + 1) arr)"
        by (simp add: compact.simps[of P arr i k])
      with False show ?thesis by (simp add: drop_i)
    qed
  qed
qed

text \<open>What \<^const>\<open>reserve\<close> is meant to do, without the shared array.\<close>
definition in_window :: "rate_limiter \<Rightarrow> instant \<Rightarrow> string \<Rightarrow> instant list" where
  "in_window r now ns = filter (\<lambda>t. now - rl_window r < t) (history_of r ns)"

lemma reserve_filter:
  "reserve r now ns m =
     (if m \<le> int (length (in_window r now ns))
      then (False, r\<lparr>rl_history := (rl_history r)(ns \<mapsto> in_window r now ns)\<rparr>)
      else (True, r\<lparr>rl_history := (rl_history r)(ns \<mapsto> in_window r now ns @ [now])\<rparr>))"
proof -
  obtain arr k where c: "compact (\<lambda>t. now - rl_window r < t) (history_of r ns) 0 0 = (arr, k)"
    by force
  then have "take k arr = in_window r now ns"
    using compact_filter[OF _ c] by (simp add: in_window_def)
  with c show ?thesis by (simp add: reserve_def Let_def del: length_take)
qed

lemma history_of_reserve:
  "history_of (snd (reserve r now ns m)) ns' =
     (if ns' \<noteq> ns then history_of r ns'
      else in_window r now ns @ (if fst (reserve r now ns m) then [now] else []))"
  by (simp add: reserve_filter history_of_def)

lemma rl_window_reserve [simp]: "rl_window (snd (reserve r now ns m)) = rl_window r"
  by (simp add: reserve_filter)

lemma fst_reserve: "fst (reserve r now ns m) \<longleftrightarrow> int (length (in_window r now ns)) < m"
  by (simp add: reserve_filter)

subsection \<open>The contract a client relies on\<close>

text \<open>
  \<open>used l now ns\<close> is how much of the budget of \<open>ns\<close> is spent at the instant \<open>now\<close>. The heal
  engine only needs these laws of its limiter.
\<close>
locale heal_limiter =
  fixes grant :: "'l \<Rightarrow> instant \<Rightarrow> string \<Rightarrow> int \<Rightarrow> bool \<times> 'l"
    and used :: "'l \<Rightarrow> instant \<Rightarrow> string \<Rightarrow> nat"
    and invar :: "'l \<Rightarrow> bool"
  assumes granted_iff: "fst (grant l now ns m) \<longleftrightarrow> int (used l now ns) < m"
    and used_grant: "invar l \<Longrightarrow> used (snd (grant l now ns m)) now ns =
      used l now ns + (if fst (grant l now ns m) then 1 else 0)"
    and used_other: "ns' \<noteq> ns \<Longrightarrow> used (snd (grant l now ns m)) t ns' = used l t ns'"
    and invar_grant: "invar l \<Longrightarrow> invar (snd (grant l now ns m))"
begin

text \<open>A budget within its cap stays within it; an exhausted one denies.\<close>

lemma cap_kept:
  assumes "invar l" "int (used l now ns) \<le> m"
  shows "int (used (snd (grant l now ns m)) now ns) \<le> m"
  using assms granted_iff[of l now ns m] by (simp add: used_grant)

lemma exhausted_denies: "m \<le> int (used l now ns) \<Longrightarrow> \<not> fst (grant l now ns m)"
  by (simp add: granted_iff)

text \<open>Calls for one namespace at one instant are granted as long as there is budget.\<close>

fun grant_n :: "nat \<Rightarrow> 'l \<Rightarrow> instant \<Rightarrow> string \<Rightarrow> int \<Rightarrow> bool list" where
  "grant_n 0 l now ns m = []"
| "grant_n (Suc n) l now ns m =
     fst (grant l now ns m) # grant_n n (snd (grant l now ns m)) now ns m"

lemma grant_n_within:
  "invar l \<Longrightarrow> int (used l now ns) + int n \<le> m \<Longrightarrow> grant_n n l now ns m = replicate n True"
proof (induction n arbitrary: l)
  case 0
  then show ?case by simp
next
  case (Suc n)
  have g: "fst (grant l now ns m)" using granted_iff[of l now ns m] Suc.prems by simp
  then have "used (snd (grant l now ns m)) now ns = used l now ns + 1"
    using used_grant Suc.prems(1) by simp
  then show ?case using Suc g invar_grant by simp
qed

end

definition used_budget :: "rate_limiter \<Rightarrow> instant \<Rightarrow> string \<Rightarrow> nat" where
  "used_budget r now ns = length (in_window r now ns)"

lemma in_window_reserve:
  "in_window (snd (reserve r now ns m)) t ns' =
     (if ns' \<noteq> ns then in_window r t ns'
      else filter (\<lambda>s. t - rl_window r < s)
        (in_window r now ns @ (if fst (reserve r now ns m) then [now] else [])))"
proof -
  have "in_window (snd (reserve r now ns m)) t ns' =
      filter (\<lambda>s. t - rl_window r < s) (history_of (snd (reserve r now ns m)) ns')"
    by (simp add: in_window_def)
  then show ?thesis by (simp add: history_of_reserve in_window_def)
qed

definition limiter_ok :: "rate_limiter \<Rightarrow> bool" where
  "limiter_ok r \<longleftrightarrow> 0 < rl_window r"

lemma newRateLimiter_ok [simp]: "limiter_ok newRateLimiter"
  by (simp add: limiter_ok_def newRateLimiter_def hour_def)

lemma history_newRateLimiter [simp]: "history_of newRateLimiter ns = []"
  by (simp add: history_of_def newRateLimiter_def)

lemma used_budget_new [simp]: "used_budget newRateLimiter now ns = 0"
  by (simp add: used_budget_def in_window_def)

lemma used_budget_reserve:
  assumes "limiter_ok r"
  shows "used_budget (snd (reserve r now ns m)) now ns =
    used_budget r now ns + (if fst (reserve r now ns m) then 1 else 0)"
  using assms
  by (simp add: used_budget_def in_window_reserve limiter_ok_def) (simp add: in_window_def)

interpretation lim: heal_limiter reserve used_budget limiter_ok
proof unfold_locales
  show "fst (reserve l now ns m) \<longleftrightarrow> int (used_budget l now ns) < m" for l now ns m
    by (simp add: fst_reserve used_budget_def)
  show "used_budget (snd (reserve l now ns m)) now ns =
      used_budget l now ns + (if fst (reserve l now ns m) then 1 else 0)"
    if "limiter_ok l" for l now ns m
    using that by (rule used_budget_reserve)
  show "used_budget (snd (reserve l now ns m)) t ns' = used_budget l t ns'"
    if "ns' \<noteq> ns" for l now ns m t ns'
    using that by (simp add: used_budget_def in_window_reserve)
  show "limiter_ok (snd (reserve l now ns m))" if "limiter_ok l" for l now ns m
    using that by (simp add: limiter_ok_def)
qed

subsection \<open>Runs of the limiter\<close>

text \<open>A run: the calls in the order the mutex lets them in, each with its clock reading and cap.\<close>
type_synonym call = "instant \<times> string \<times> int"

fun reserve_run :: "rate_limiter \<Rightarrow> call list \<Rightarrow> bool list" where
  "reserve_run r [] = []"
| "reserve_run r ((t, ns, m) # cs) =
     fst (reserve r t ns m) # reserve_run (snd (reserve r t ns m)) cs"

fun granted_times :: "rate_limiter \<Rightarrow> call list \<Rightarrow> string \<Rightarrow> instant list" where
  "granted_times r [] ns = []"
| "granted_times r ((t, n, m) # cs) ns =
     (if n = ns \<and> fst (reserve r t n m) then [t] else []) @
     granted_times (snd (reserve r t n m)) cs ns"

text \<open>How many of the instants lie in the window that ends at \<open>t\<close>.\<close>
definition window_count :: "int \<Rightarrow> instant \<Rightarrow> instant list \<Rightarrow> nat" where
  "window_count w t ts = length (filter (\<lambda>s. t - w < s \<and> s \<le> t) ts)"

definition calls_ordered :: "instant \<Rightarrow> call list \<Rightarrow> bool" where
  "calls_ordered t cs \<longleftrightarrow> sorted (t # map fst cs)"

lemma length_filter_mono:
  "(\<And>x. P x \<Longrightarrow> Q x) \<Longrightarrow> length (filter P xs) \<le> length (filter Q xs)"
  by (induction xs) (auto intro: le_SucI)

lemma window_count_append [simp]:
  "window_count w t (xs @ ys) = window_count w t xs + window_count w t ys"
  by (simp add: window_count_def)

text \<open>
  The induction keeps that the history still holds every grant that a later call can see.
\<close>
lemma granted_window_step:
  assumes "limiter_ok r" "calls_ordered T cs" "\<forall>(t, n, m) \<in> set cs. m \<le> int N"
    and "\<forall>s \<in> set G. s \<le> T"
    and "filter (\<lambda>s. T - rl_window r < s) (history_of r ns) = filter (\<lambda>s. T - rl_window r < s) G"
    and "\<forall>t. window_count (rl_window r) t G \<le> N"
  shows "window_count (rl_window r) t (G @ granted_times r cs ns) \<le> N"
  using assms
proof (induction cs arbitrary: r T G)
  case Nil
  then show ?case by simp
next
  case (Cons c cs)
  obtain now n m where c: "c = (now, n, m)" by (cases c)
  let ?w = "rl_window r" and ?r = "snd (reserve r now n m)"
  have now: "T \<le> now" "calls_ordered now cs" "calls_ordered T cs"
    using Cons.prems(2) by (auto simp: calls_ordered_def c)
  have caps: "\<forall>(t, n, m) \<in> set cs. m \<le> int N" "m \<le> int N"
    using Cons.prems(3) by (auto simp: c)
  have ok: "limiter_ok ?r" using Cons.prems(1) by (rule lim.invar_grant)
  show ?case
  proof (cases "n = ns")
    case False
    then have "history_of ?r ns = history_of r ns" by (simp add: history_of_reserve)
    with Cons.IH[of ?r T G] ok now(3) caps(1) Cons.prems(4-6) False show ?thesis
      by (simp add: c)
  next
    case True
    let ?G = "G @ (if fst (reserve r now ns m) then [now] else [])"
    have w: "0 < ?w" using Cons.prems(1) by (simp add: limiter_ok_def)
    have later: "filter (\<lambda>s. now - ?w < s) xs = filter (\<lambda>s. now - ?w < s) (filter (\<lambda>s. T - ?w < s) xs)"
      for xs using now(1) by (auto intro!: filter_cong)
    have win: "in_window r now ns = filter (\<lambda>s. now - ?w < s) G"
      using Cons.prems(5) later[of "history_of r ns"] later[of G] by (simp add: in_window_def)
    have agree: "filter (\<lambda>s. now - ?w < s) (history_of ?r ns) = filter (\<lambda>s. now - ?w < s) ?G"
      using w by (auto simp: True history_of_reserve win)
    have bound: "window_count ?w t ?G \<le> N" for t
    proof (cases "fst (reserve r now ns m) \<and> now \<le> t")
      case False
      have "window_count ?w t G \<le> N" using Cons.prems(6) by blast
      with False show ?thesis by (auto simp: window_count_def)
    next
      case g: True
      then have "int (length (in_window r now ns)) < int N"
        using caps(2) by (simp add: fst_reserve)
      moreover have "window_count ?w t G \<le> length (in_window r now ns)"
        unfolding window_count_def win using g by (intro length_filter_mono) auto
      ultimately show ?thesis using g by (simp add: window_count_def)
    qed
    have "\<forall>s \<in> set ?G. s \<le> now" using Cons.prems(4) now(1) by force
    then have "window_count ?w t (?G @ granted_times ?r cs ns) \<le> N"
      using Cons.IH[of ?r now ?G] ok now(2) caps(1) agree bound True by simp
    then show ?thesis by (simp add: c True split: if_splits)
  qed
qed

lemma granted_window:
  assumes "calls_ordered T cs" "\<forall>(t, n, m) \<in> set cs. m \<le> int N"
  shows "window_count hour t (granted_times newRateLimiter cs ns) \<le> N"
  using granted_window_step[OF _ assms, of newRateLimiter "[]"]
  by (simp add: window_count_def) (simp add: newRateLimiter_def limiter_ok_def hour_def)

lemma reserve_run_replicate:
  "reserve_run r (replicate n (t, ns, m)) = lim.grant_n n r t ns m"
  by (induction n arbitrary: r) simp_all

end
