(* ===== verification/Sha256.thy ===== *)
theory Sha256
  imports Go_Text
begin

section \<open>SHA-256\<close>

text \<open>
  What \<^verbatim>\<open>crypto/sha256\<close> computes, as FIPS 180-4 defines it: \<^verbatim>\<open>sha256.Sum256\<close> names
  obituaries and labels them. The message is padded to blocks of sixteen 32-bit words; each
  block is expanded to a schedule of 64 words and compressed into the eight words of the state.
  All additions wrap.
\<close>

unbundle bit_operations_syntax

type_synonym word32 = "32 word"
type_synonym chain = "word32 \<times> word32 \<times> word32 \<times> word32 \<times> word32 \<times> word32 \<times> word32 \<times> word32"

text \<open>
  The constants are the first 32 bits of the fractional parts of the cube roots of the first 64
  primes, and for the initial state of the square roots of the first eight.
\<close>
definition round_constants :: "word32 list" where
  "round_constants = [
    1116352408, 1899447441, 3049323471, 3921009573, 961987163, 1508970993,
    2453635748, 2870763221, 3624381080, 310598401, 607225278, 1426881987,
    1925078388, 2162078206, 2614888103, 3248222580, 3835390401, 4022224774,
    264347078, 604807628, 770255983, 1249150122, 1555081692, 1996064986,
    2554220882, 2821834349, 2952996808, 3210313671, 3336571891, 3584528711,
    113926993, 338241895, 666307205, 773529912, 1294757372, 1396182291,
    1695183700, 1986661051, 2177026350, 2456956037, 2730485921, 2820302411,
    3259730800, 3345764771, 3516065817, 3600352804, 4094571909, 275423344,
    430227734, 506948616, 659060556, 883997877, 958139571, 1322822218,
    1537002063, 1747873779, 1955562222, 2024104815, 2227730452, 2361852424,
    2428436474, 2756734187, 3204031479, 3329325298]"

definition initial_chain :: chain where
  "initial_chain = (1779033703, 3144134277, 1013904242, 2773480762,
    1359893119, 2600822924, 528734635, 1541459225)"

definition rotr :: "nat \<Rightarrow> word32 \<Rightarrow> word32" where
  "rotr n x = drop_bit n x OR push_bit (32 - n) (take_bit n x)"

definition small_sigma0 :: "word32 \<Rightarrow> word32" where
  "small_sigma0 x = rotr 7 x XOR rotr 18 x XOR drop_bit 3 x"

definition small_sigma1 :: "word32 \<Rightarrow> word32" where
  "small_sigma1 x = rotr 17 x XOR rotr 19 x XOR drop_bit 10 x"

definition big_sigma0 :: "word32 \<Rightarrow> word32" where
  "big_sigma0 x = rotr 2 x XOR rotr 13 x XOR rotr 22 x"

definition big_sigma1 :: "word32 \<Rightarrow> word32" where
  "big_sigma1 x = rotr 6 x XOR rotr 11 x XOR rotr 25 x"

definition ch_bits :: "word32 \<Rightarrow> word32 \<Rightarrow> word32 \<Rightarrow> word32" where
  "ch_bits x y z = (x AND y) XOR (NOT x AND z)"

definition majority :: "word32 \<Rightarrow> word32 \<Rightarrow> word32 \<Rightarrow> word32" where
  "majority x y z = (x AND y) XOR (x AND z) XOR (y AND z)"

text \<open>The schedule, latest word first: \<open>n\<close> more words on top of the sixteen of the block\<close>
fun expand :: "nat \<Rightarrow> word32 list \<Rightarrow> word32 list" where
  "expand 0 ws = ws"
| "expand (Suc n) ws =
     expand n ((small_sigma1 (ws ! 1) + ws ! 6 + small_sigma0 (ws ! 14) + ws ! 15) # ws)"

fun advance :: "chain \<Rightarrow> word32 \<Rightarrow> word32 \<Rightarrow> chain" where
  "advance (a, b, c, d, e, f, g, h) t1 t2 = (t1 + t2, a, b, c, d + t1, e, f, g)"

fun compress_round :: "chain \<Rightarrow> word32 \<times> word32 \<Rightarrow> chain" where
  "compress_round (a, b, c, d, e, f, g, h) (k, w) =
     advance (a, b, c, d, e, f, g, h)
       (h + big_sigma1 e + ch_bits e f g + k + w) (big_sigma0 a + majority a b c)"

fun add_chain :: "chain \<Rightarrow> chain \<Rightarrow> chain" where
  "add_chain (a, b, c, d, e, f, g, h) (a', b', c', d', e', f', g', h') =
     (a + a', b + b', c + c', d + d', e + e', f + f', g + g', h + h')"

definition compress_block :: "chain \<Rightarrow> word32 list \<Rightarrow> chain" where
  "compress_block ch block =
     add_chain ch (foldl compress_round ch (zip round_constants (rev (expand 48 (rev block)))))"

subsection \<open>Bytes and words\<close>

fun words_of_bytes :: "nat list \<Rightarrow> word32 list" where
  "words_of_bytes (a # b # c # d # bs) =
     (push_bit 24 (of_nat a) OR push_bit 16 (of_nat b) OR push_bit 8 (of_nat c) OR of_nat d) #
     words_of_bytes bs"
| "words_of_bytes _ = []"

fun blocks :: "nat \<Rightarrow> word32 list \<Rightarrow> word32 list list" where
  "blocks 0 ws = []"
| "blocks (Suc n) ws = take 16 ws # blocks n (drop 16 ws)"

fun bytes_be :: "nat \<Rightarrow> nat \<Rightarrow> nat list" where
  "bytes_be 0 x = []"
| "bytes_be (Suc n) x = x div 256 ^ n mod 256 # bytes_be n x"

text \<open>A one bit, zeros, and the length in bits, up to a multiple of 64 bytes\<close>
definition padding :: "nat \<Rightarrow> nat list" where
  "padding len = 0x80 # replicate ((119 - len mod 64) mod 64) 0 @ bytes_be 8 (8 * len)"

definition word_bytes :: "word32 \<Rightarrow> 8 word list" where
  "word_bytes w = [ucast (drop_bit 24 w), ucast (drop_bit 16 w), ucast (drop_bit 8 w), ucast w]"

definition chain_bytes :: "chain \<Rightarrow> 8 word list" where
  "chain_bytes ch = (case ch of (a, b, c, d, e, f, g, h) \<Rightarrow>
     concat (map word_bytes [a, b, c, d, e, f, g, h]))"

definition sha256 :: "string \<Rightarrow> 8 word list" where
  "sha256 s =
     (let msg = map byte_of s @ padding (length s)
      in chain_bytes (foldl compress_block initial_chain
           (blocks (length msg div 64) (words_of_bytes msg))))"

subsection \<open>Sizes\<close>

lemma length_bytes_be [simp]: "length (bytes_be n x) = n"
  by (induction n) simp_all

lemma length_sha256 [simp]: "length (sha256 s) = 32"
proof -
  have "length (chain_bytes ch) = 32" for ch
    by (simp add: chain_bytes_def word_bytes_def split: prod.split)
  then show ?thesis by (simp add: sha256_def Let_def)
qed

text \<open>The padded message is a whole number of blocks, the least that holds it and nine more bytes.\<close>
lemma length_padded: "(len + length (padding len)) mod 64 = 0"
  and length_padded_less: "length (padding len) < 73"
proof -
  have l: "length (padding len) = 9 + (119 - len mod 64) mod 64" by (simp add: padding_def)
  show "length (padding len) < 73" unfolding l by simp
  have "(len mod 64 + (9 + (119 - len mod 64) mod 64)) mod 64 = 0"
  proof (cases "len mod 64 \<le> 55")
    case True
    then have "119 - len mod 64 = (55 - len mod 64) + 64" by arith
    then have "(119 - len mod 64) mod 64 = 55 - len mod 64" by (simp only: mod_add_self2) simp
    with True show ?thesis by simp
  next
    case False
    have "len mod 64 < 64" by simp
    with False have "(119 - len mod 64) mod 64 = 119 - len mod 64" by simp
    with False \<open>len mod 64 < 64\<close> show ?thesis by simp
  qed
  then show "(len + length (padding len)) mod 64 = 0"
    unfolding l using mod_add_left_eq[of len 64 "9 + (119 - len mod 64) mod 64"] by (simp only:)
qed

subsection \<open>The constants\<close>

definition first_primes :: "nat list" where
  "first_primes = [
    2, 3, 5, 7, 11, 13, 17, 19, 23, 29, 31, 37, 41, 43, 47, 53,
    59, 61, 67, 71, 73, 79, 83, 89, 97, 101, 103, 107, 109, 113, 127, 131,
    137, 139, 149, 151, 157, 163, 167, 173, 179, 181, 191, 193, 197, 199, 211, 223,
    227, 229, 233, 239, 241, 251, 257, 263, 269, 271, 277, 281, 283, 293, 307, 311]"

text \<open>\<open>k\<close> holds the 32 bits after the point of the \<open>e\<close>-th root of \<open>p\<close>, for a root below 7.\<close>
definition root_fraction :: "nat \<Rightarrow> nat \<Rightarrow> word32 \<Rightarrow> bool" where
  "root_fraction e p k \<longleftrightarrow>
     (let n = length (filter (\<lambda>i. i ^ e \<le> p) [1, 2, 3, 4, 5, 6]); m = n * 2 ^ 32 + unat k
      in m ^ e \<le> p * 2 ^ (32 * e) \<and> p * 2 ^ (32 * e) < (m + 1) ^ e)"

lemma round_constants_are_cube_roots: "list_all2 (root_fraction 3) first_primes round_constants"
  by (simp add: first_primes_def round_constants_def root_fraction_def Let_def)

lemma initial_chain_are_square_roots:
  "case initial_chain of (a, b, c, d, e, f, g, h) \<Rightarrow>
     list_all2 (root_fraction 2) (take 8 first_primes) [a, b, c, d, e, f, g, h]"
  by (simp add: first_primes_def initial_chain_def root_fraction_def Let_def)

subsection \<open>The test vector of the standard\<close>

text \<open>What \<^verbatim>\<open>simp\<close> needs to evaluate a hash\<close>

lemma numeral_functions:
  "expand (numeral k) ws = expand (pred_numeral k)
     ((small_sigma1 (ws ! 1) + ws ! 6 + small_sigma0 (ws ! 14) + ws ! 15) # ws)"
  "bytes_be (numeral k) x = x div 256 ^ pred_numeral k mod 256 # bytes_be (pred_numeral k) x"
  "replicate (numeral k) y = y # replicate (pred_numeral k) y"
  unfolding numeral_eq_Suc[of k] by (simp_all only: expand.simps bytes_be.simps replicate.simps)

lemmas sha256_functions =
  numeral_functions round_constants_def initial_chain_def rotr_def small_sigma0_def small_sigma1_def
  big_sigma0_def big_sigma1_def ch_bits_def majority_def compress_block_def padding_def byte_of_def

lemma sha256_abc: "sha256 ''abc'' =
   [0xba, 0x78, 0x16, 0xbf, 0x8f, 0x01, 0xcf, 0xea, 0x41, 0x41, 0x40, 0xde, 0x5d, 0xae, 0x22, 0x23,
    0xb0, 0x03, 0x61, 0xa3, 0x96, 0x17, 0x7a, 0x9c, 0xb4, 0x10, 0xff, 0x61, 0xf2, 0x00, 0x15, 0xad]"
  by (simp add: sha256_functions sha256_def chain_bytes_def word_bytes_def)

end
