(* ===== verification/Naming.thy ===== *)
theory Naming
  imports Api_Types Go_Text Sha256
begin

section \<open>Names and keys of obituaries\<close>

text \<open>
  The naming functions of \<^verbatim>\<open>internal/controller/koroner.go\<close>: the issue key that
  identifies a known issue, the episode discriminator of one death, and the object name derived
  from the SHA-256 digest of the key.
\<close>

text \<open>The regular expression \<^verbatim>\<open>[^a-z0-9-]\<close>, matched rune by rune\<close>
definition dns_rune :: "rune \<Rightarrow> bool" where
  "dns_rune r \<longleftrightarrow> (97 \<le> r \<and> r \<le> 122) \<or> (48 \<le> r \<and> r \<le> 57) \<or> r = 45"

definition replace_non_dns :: "string \<Rightarrow> string" where
  "replace_non_dns s = map (\<lambda>r. if dns_rune r then char_of r else CHR ''-'') (runes s)"

definition sanitizeName :: "(rune \<Rightarrow> rune) \<Rightarrow> string \<Rightarrow> string" where
  "sanitizeName ul s = trim_char CHR ''-'' (replace_non_dns (to_lower ul s))"

definition obituaryName :: "(rune \<Rightarrow> rune) \<Rightarrow> string \<Rightarrow> string \<Rightarrow> string" where
  "obituaryName ul subjectName episodeKey =
     (let hash = take 10 (hex_encode (sha256 episodeKey));
          prefix = sanitizeName ul subjectName;
          prefix = (if 40 < length prefix then take 40 prefix else prefix)
      in trim_right_char CHR ''-'' prefix @ ''-'' @ hash)"

definition shortHash :: "string \<Rightarrow> string" where
  "shortHash s = take 16 (hex_encode (sha256 s))"

definition issueKey :: "subject \<Rightarrow> string \<Rightarrow> string \<Rightarrow> string" where
  "issueKey subject container cause =
     sub_namespace subject @ ''/'' @ sub_kind subject @ ''/'' @ sub_name subject @ ''/'' @
     container @ ''/'' @ cause"

text \<open>\<^verbatim>\<open>fmt.Sprintf("%s/%d", pod.UID, death.restartCount)\<close> in the pod reconciler\<close>
definition pod_episode :: "string \<Rightarrow> int32 \<Rightarrow> string" where
  "pod_episode uid restartCount = uid @ ''/'' @ show_int32 restartCount"

subsection \<open>Keys are injective\<close>

lemma split_at_first:
  assumes "a @ c # x = b @ c # y" "c \<notin> set a" "c \<notin> set b"
  shows "a = b" and "x = y"
proof -
  have "takeWhile (\<lambda>d. d \<noteq> c) (u @ c # v) = u" if "c \<notin> set u" for u v
    using that by (induction u) auto
  then show ab: "a = b" using assms by metis
  with assms(1) show "x = y" by simp
qed

lemma split_at_last:
  assumes "a @ c # x = b @ c # y" "c \<notin> set x" "c \<notin> set y"
  shows "a = b" and "x = y"
proof -
  have "rev x @ c # rev a = rev y @ c # rev b"
    using arg_cong[OF assms(1), of rev] by simp
  then have "rev x = rev y" "rev a = rev b"
    using split_at_first[of "rev x" c "rev a" "rev y" "rev b"] assms(2,3) by auto
  then show "a = b" "x = y" by simp_all
qed

lemma pod_episode_inject: "pod_episode u m = pod_episode v n \<longleftrightarrow> u = v \<and> m = n"
proof
  assume "pod_episode u m = pod_episode v n"
  then have "u @ CHR ''/'' # show_int32 m = v @ CHR ''/'' # show_int32 n"
    by (simp add: pod_episode_def)
  then have "u = v" "show_int32 m = show_int32 n"
    using split_at_last slash_not_in_show_int32 by metis+
  then show "u = v \<and> m = n" by (simp add: show_int32_inject)
qed simp

lemma pod_episode_nonempty [simp]: "pod_episode u m \<noteq> []"
  by (simp add: pod_episode_def)

text \<open>A subject whose parts contain no slash, as the API server's name rules enforce\<close>
definition slash_free :: "subject \<Rightarrow> bool" where
  "slash_free s \<longleftrightarrow> CHR ''/'' \<notin> set (sub_namespace s) \<and> CHR ''/'' \<notin> set (sub_kind s) \<and>
     CHR ''/'' \<notin> set (sub_name s)"

lemma issueKey_inject:
  assumes "slash_free s" "slash_free t" "CHR ''/'' \<notin> set c" "CHR ''/'' \<notin> set d"
    and "issueKey s c k = issueKey t d l"
  shows "sub_namespace s = sub_namespace t \<and> sub_kind s = sub_kind t \<and>
    sub_name s = sub_name t \<and> c = d \<and> k = l"
proof -
  have free: "CHR ''/'' \<notin> set (sub_namespace s)" "CHR ''/'' \<notin> set (sub_namespace t)"
    "CHR ''/'' \<notin> set (sub_kind s)" "CHR ''/'' \<notin> set (sub_kind t)"
    "CHR ''/'' \<notin> set (sub_name s)" "CHR ''/'' \<notin> set (sub_name t)"
    using assms(1,2) by (auto simp: slash_free_def)
  from assms(5) have
    "sub_namespace s @ CHR ''/'' # (sub_kind s @ CHR ''/'' # (sub_name s @ CHR ''/'' # (c @ CHR ''/'' # k))) =
     sub_namespace t @ CHR ''/'' # (sub_kind t @ CHR ''/'' # (sub_name t @ CHR ''/'' # (d @ CHR ''/'' # l)))"
    by (simp add: issueKey_def)
  note 1 = split_at_first[OF this free(1,2)]
  note 2 = split_at_first[OF 1(2) free(3,4)]
  note 3 = split_at_first[OF 2(2) free(5,6)]
  note 4 = split_at_first[OF 3(2) assms(3,4)]
  from 1 2 3 4 show ?thesis by simp
qed

subsection \<open>Names are DNS labels\<close>

definition dns_char :: "char \<Rightarrow> bool" where
  "dns_char c \<longleftrightarrow> dns_rune (byte_of c)"

text \<open>An RFC 1123 label: what the API server requires of the name's form\<close>
definition dns1123_label :: "string \<Rightarrow> bool" where
  "dns1123_label s \<longleftrightarrow> s \<noteq> [] \<and> length s \<le> 63 \<and> list_all dns_char s \<and>
     hd s \<noteq> CHR ''-'' \<and> last s \<noteq> CHR ''-''"

lemma dns_rune_small: "dns_rune r \<Longrightarrow> r < 256"
  by (auto simp: dns_rune_def)

lemma dash_dns [simp]: "dns_char (CHR ''-'')"
  by (simp add: dns_char_def dns_rune_def byte_of_def)

lemma dns_char_of_rune: "dns_rune r \<Longrightarrow> dns_char (char_of r)"
  using dns_rune_small[of r] by (simp add: dns_char_def byte_of_def)

lemma replace_non_dns_chars: "\<forall>c \<in> set (replace_non_dns s). dns_char c"
  by (auto simp: replace_non_dns_def dns_char_of_rune)

lemma sanitizeName_chars: "\<forall>c \<in> set (sanitizeName ul s). dns_char c"
  using replace_non_dns_chars set_trim_char unfolding sanitizeName_def by blast

lemma sanitizeName_ends:
  assumes "sanitizeName ul s \<noteq> []"
  shows "hd (sanitizeName ul s) \<noteq> CHR ''-''" "last (sanitizeName ul s) \<noteq> CHR ''-''"
  using assms trim_char_ends unfolding sanitizeName_def by blast+

lemma hex_dns: "is_hex_lower c \<Longrightarrow> dns_char c \<and> c \<noteq> CHR ''-''"
  by (auto simp: is_hex_lower_def is_digit_def dns_char_def dns_rune_def byte_of_def)

lemma hash_part:
  shows "length (take 10 (hex_encode (sha256 k))) = 10"
    and "\<forall>c \<in> set (take 10 (hex_encode (sha256 k))). dns_char c \<and> c \<noteq> CHR ''-''"
  using hex_encode_chars[of "sha256 k"] hex_dns by (auto dest: in_set_takeD)

text \<open>The name's prefix part: what precedes the dash and the hash\<close>
definition name_prefix :: "(rune \<Rightarrow> rune) \<Rightarrow> string \<Rightarrow> string" where
  "name_prefix ul s = trim_right_char CHR ''-'' (take 40 (sanitizeName ul s))"

lemma obituaryName_parts:
  "obituaryName ul s k = name_prefix ul s @ CHR ''-'' # take 10 (hex_encode (sha256 k))"
  by (simp add: obituaryName_def name_prefix_def Let_def)

lemma name_prefix_length: "length (name_prefix ul s) \<le> 40"
  using length_trim_right_char[of "CHR ''-''" "take 40 (sanitizeName ul s)"]
  by (simp add: name_prefix_def)

lemma name_prefix_chars: "\<forall>c \<in> set (name_prefix ul s). dns_char c"
  using sanitizeName_chars[of ul s] set_trim_right_char[of "CHR ''-''" "take 40 (sanitizeName ul s)"]
  by (auto simp: name_prefix_def dest: in_set_takeD)

lemma name_prefix_empty: "name_prefix ul s = [] \<longleftrightarrow> sanitizeName ul s = []"
proof
  assume e: "name_prefix ul s = []"
  show "sanitizeName ul s = []"
  proof (rule ccontr)
    assume ne: "sanitizeName ul s \<noteq> []"
    obtain n where "take 40 (sanitizeName ul s) = name_prefix ul s @ replicate n CHR ''-''"
      using trim_right_char_prefix[of "take 40 (sanitizeName ul s)" "CHR ''-''"]
      by (auto simp: name_prefix_def)
    with e have "set (take 40 (sanitizeName ul s)) \<subseteq> {CHR ''-''}" by auto
    moreover have "hd (sanitizeName ul s) \<in> set (take 40 (sanitizeName ul s))"
      using ne by (cases "sanitizeName ul s") auto
    ultimately show False using sanitizeName_ends(1)[OF ne] by blast
  qed
qed (simp add: name_prefix_def trim_right_char_def)

lemma name_prefix_hd:
  assumes "sanitizeName ul s \<noteq> []"
  shows "hd (name_prefix ul s) \<noteq> CHR ''-''"
proof -
  have "name_prefix ul s \<noteq> []" using assms name_prefix_empty by blast
  then have "hd (name_prefix ul s) = hd (take 40 (sanitizeName ul s))"
    unfolding name_prefix_def by (rule hd_trim_right_char)
  also have "\<dots> = hd (sanitizeName ul s)" using assms by (cases "sanitizeName ul s") auto
  finally show ?thesis using sanitizeName_ends(1)[OF assms] by simp
qed

lemma obituaryName_length:
  shows "length (obituaryName ul s k) \<le> 51"
  using name_prefix_length[of ul s] hash_part(1)[of k] by (simp add: obituaryName_parts)

lemma obituaryName_label_iff:
  shows "dns1123_label (obituaryName ul s k) \<longleftrightarrow> sanitizeName ul s \<noteq> []"
proof
  let ?h = "take 10 (hex_encode (sha256 k))"
  note h = hash_part[of k]
  {
    assume ne: "sanitizeName ul s \<noteq> []"
    have "?h \<noteq> []" using h(1) by fastforce
    then have "last (obituaryName ul s k) = last ?h" "?h \<noteq> []"
      by (simp_all add: obituaryName_parts del: take_eq_Nil)
    with h(2) have "last (obituaryName ul s k) \<noteq> CHR ''-''"
      by (metis last_in_set)
    moreover have "hd (obituaryName ul s k) \<noteq> CHR ''-''"
      using name_prefix_hd[OF ne] name_prefix_empty[of ul s] ne by (simp add: obituaryName_parts)
    moreover have "list_all dns_char (obituaryName ul s k)"
      using name_prefix_chars[of ul s] h(2) by (auto simp: obituaryName_parts list_all_iff)
    ultimately show "dns1123_label (obituaryName ul s k)"
      using obituaryName_length[of ul s k] unfolding dns1123_label_def
      by (simp add: obituaryName_parts)
  }
  show "sanitizeName ul s \<noteq> []" if l: "dns1123_label (obituaryName ul s k)"
  proof
    assume "sanitizeName ul s = []"
    then have "hd (obituaryName ul s k) = CHR ''-''"
      using name_prefix_empty[of ul s] by (simp add: obituaryName_parts)
    with l show False by (simp add: dns1123_label_def)
  qed
qed

end
