(* ===== verification/Obituary_Store.thy ===== *)
theory Obituary_Store
  imports Mem_Server Naming
begin

section \<open>Recording a death: the obituary upsert\<close>

text \<open>
  \<^verbatim>\<open>recordedDeath\<close> and \<^verbatim>\<open>upsertObituary\<close> of
  \<^verbatim>\<open>internal/controller/koroner.go\<close>: create the obituary of an issue on first sight,
  count a further episode on a repeat, and do nothing for an episode already counted.

  Two interfaces of the API server's obituary store follow as locales. \<open>obit_server\<close> states
  optimistic concurrency as the API documents it and allows stale reads, other writers and
  failures at any call; what upsert guarantees there is about its own commit.
  \<open>quiet_server\<close> extends it to a server with no other writer and no fault, where upsert is
  proved to implement a pure step on the obituary's status.
\<close>

record recorded_death =
  rd_subject :: subject
  rd_issue_key :: string
  rd_episode :: string
  rd_last_pod :: string
  rd_now :: instant
  rd_status :: obituary_status

definition episodeKeyLabel :: string where
  "episodeKeyLabel = ''koroner.pez.sh/episode-hash''"

definition death_name :: "('l) go_lib_scheme \<Rightarrow> recorded_death \<Rightarrow> string" where
  "death_name L d =
     obituaryName (lib_uni_lower L) (sub_name (rd_subject d)) (rd_issue_key d)"

definition death_key :: "('l) go_lib_scheme \<Rightarrow> recorded_death \<Rightarrow> object_key" where
  "death_key L d = (sub_namespace (rd_subject d), death_name L d)"

definition new_obituary :: "('l) go_lib_scheme \<Rightarrow> recorded_death \<Rightarrow> obituary" where
  "new_obituary L d =
     \<lparr>obit_meta = zero_meta\<lparr>
        om_name := death_name L d,
        om_namespace := sub_namespace (rd_subject d),
        om_labels := Some [episodeKeyLabel \<mapsto> shortHash (rd_issue_key d)]\<rparr>,
      obit_spec =
        \<lparr>sp_subject = rd_subject d, sp_time_of_death = Some (rd_now d),
         sp_death_episode_key = rd_issue_key d\<rparr>,
      obit_status = zero_status\<rparr>"

text \<open>The status written after a create, and the one written by a repeat occurrence\<close>
definition first_status :: "recorded_death \<Rightarrow> obituary_status" where
  "first_status d = (rd_status d)\<lparr>
     st_occurrences := 1,
     st_first_seen := Some (rd_now d),
     st_last_seen := Some (rd_now d),
     st_last_episode := rd_episode d,
     st_last_pod := rd_last_pod d\<rparr>"

definition bumped_status :: "recorded_death \<Rightarrow> obituary_status \<Rightarrow> obituary_status" where
  "bumped_status d fresh = (rd_status d)\<lparr>
     st_occurrences := st_occurrences fresh + 1,
     st_first_seen := (case st_first_seen fresh of Some t \<Rightarrow> Some t | None \<Rightarrow> Some (rd_now d)),
     st_last_seen := Some (rd_now d),
     st_last_episode := rd_episode d,
     st_last_pod := rd_last_pod d\<rparr>"

text \<open>The closure that \<^verbatim>\<open>retry.RetryOnConflict\<close> runs\<close>
definition bump_attempt ::
  "('w, 'z) obit_client_scheme \<Rightarrow> object_key \<Rightarrow> recorded_death \<Rightarrow> ('w, go_error option) state" where
  "bump_attempt K key d = do {
     r \<leftarrow> k_get_obit K key;
     case r of
       Inl gerr \<Rightarrow> ret (Some gerr)
     | Inr fresh \<Rightarrow>
         if st_last_episode (obit_status fresh) = rd_episode d then ret None
         else k_update_obit_status K
           (fresh\<lparr>obit_status := bumped_status d (obit_status fresh)\<rparr>)
   }"

definition upsertObituary ::
  "('l) go_lib_scheme \<Rightarrow> ('w, 'z) obit_client_scheme \<Rightarrow> recorded_death \<Rightarrow>
   ('w, bool \<times> bool \<times> go_error option) state" where
  "upsertObituary L K d = do {
     r \<leftarrow> k_get_obit K (death_key L d);
     case r of
       Inl getErr \<Rightarrow>
         if \<not> is_not_found getErr then ret (False, False, Some getErr)
         else do {
           c \<leftarrow> k_create_obit K (new_obituary L d);
           case c of
             Inl cerr \<Rightarrow>
               if is_already_exists cerr then ret (False, False, None)
               else ret (False, False, Some cerr)
           | Inr obit \<Rightarrow> do {
               e \<leftarrow> k_update_obit_status K (obit\<lparr>obit_status := first_status d\<rparr>);
               ret (True, False, e)
             }
         }
     | Inr existing \<Rightarrow>
         if st_last_episode (obit_status existing) = rd_episode d then ret (False, False, None)
         else do {
           (err, _) \<leftarrow> retried K (no_capture (bump_attempt K (death_key L d) d));
           ret (False, err = None, err)
         }
   }"

lemma new_obituary_key [simp]: "obit_key (new_obituary L d) = death_key L d"
  by (simp add: obit_key_def new_obituary_def death_key_def)

lemma obit_key_status [simp]: "obit_key (o1\<lparr>obit_status := s\<rparr>) = obit_key o1"
  by (simp add: obit_key_def)

text \<open>
  A write of the status keeps everything of the object but its status and version. A create keeps
  what was submitted, but the server assigns the version and the UID and drops the status.
\<close>
definition created_as :: "obituary \<Rightarrow> obituary \<Rightarrow> bool" where
  "created_as x y \<longleftrightarrow> obit_status y = zero_status \<and> obit_spec y = obit_spec x \<and>
     (\<exists>rv uid. obit_meta y = (obit_meta x)\<lparr>om_resource_version := rv, om_uid := uid\<rparr>)"

definition status_write_of :: "obituary \<Rightarrow> obituary_status \<Rightarrow> obituary \<Rightarrow> bool" where
  "status_write_of cur s new \<longleftrightarrow>
     obit_status new = s \<and> obit_spec new = obit_spec cur \<and>
     (\<exists>rv. obit_meta new = (obit_meta cur)\<lparr>om_resource_version := rv\<rparr>)"

lemma status_write_of_status: "status_write_of cur s new \<Longrightarrow> obit_status new = s"
  by (simp add: status_write_of_def)

lemma status_write_of_key: "status_write_of cur s new \<Longrightarrow> obit_key new = obit_key cur"
  by (auto simp: status_write_of_def obit_key_def)

subsection \<open>The store under concurrency\<close>

text \<open>
  A revision history is the list of an object's versions, oldest first, \<^const>\<open>None\<close> where it
  was deleted.
\<close>
type_synonym history = "obituary option list"

definition already_counted :: "recorded_death \<Rightarrow> history \<Rightarrow> bool" where
  "already_counted d vs \<longleftrightarrow>
     (\<exists>x. Some x \<in> set vs \<and> st_last_episode (obit_status x) = rd_episode d)"

text \<open>\<open>y\<close> was added to a history that held no live object, after its first \<open>n\<close> versions.\<close>
definition born_as :: "obituary \<Rightarrow> nat \<Rightarrow> history \<Rightarrow> bool" where
  "born_as y n vs \<longleftrightarrow> (\<exists>u v. vs = u @ Some y # v \<and> n \<le> length u \<and> (u = [] \<or> last u = None))"

text \<open>\<open>s\<close> was written on top of the version \<open>y\<close>.\<close>
definition status_on :: "obituary \<Rightarrow> obituary_status \<Rightarrow> history \<Rightarrow> bool" where
  "status_on y s vs \<longleftrightarrow>
     (\<exists>u v new. vs = u @ Some y # Some new # v \<and> status_write_of y s new)"

lemma born_as_mono: "born_as y n vs \<Longrightarrow> m \<le> n \<Longrightarrow> born_as y m vs"
  unfolding born_as_def using order_trans by blast

text \<open>
  \<open>versions w key\<close> is the server's revision history of an object. Any call may let other
  writers append to it first. A read returns some version, not necessarily the newest. A
  successful status write commits on top of exactly the version whose resource version it
  carries, and no two versions of an object share one.
\<close>
locale obit_server =
  fixes K :: "('w, 'z) obit_client_scheme"
    and versions :: "'w \<Rightarrow> object_key \<Rightarrow> history"
  assumes get_grows: "\<exists>ext. versions (snd (run_state (k_get_obit K key) w)) k = versions w k @ ext"
    and create_grows: "\<exists>ext. versions (snd (run_state (k_create_obit K x) w)) k = versions w k @ ext"
    and update_grows:
      "\<exists>ext. versions (snd (run_state (k_update_obit_status K x) w)) k = versions w k @ ext"
    and get_seen: "run_state (k_get_obit K key) w = (Inr x, w') \<Longrightarrow> Some x \<in> set (versions w' key)"
    and seen_key: "Some x \<in> set (versions w key) \<Longrightarrow> obit_key x = key"
    and rv_identifies:
      "Some x \<in> set (versions w key) \<Longrightarrow> Some y \<in> set (versions w key) \<Longrightarrow> obit_rv x = obit_rv y \<Longrightarrow> x = y"
    and create_commits: "run_state (k_create_obit K x) w = (Inr y, w') \<Longrightarrow>
      born_as y (length (versions w (obit_key x))) (versions w' (obit_key x)) \<and> created_as x y"
    and update_commits: "run_state (k_update_obit_status K x) w = (None, w') \<Longrightarrow>
      \<exists>u v cur new. versions w' (obit_key x) = u @ Some cur # Some new # v \<and>
        length (versions w (obit_key x)) \<le> Suc (length u) \<and>
        obit_rv cur = obit_rv x \<and> status_write_of cur (obit_status x) new"
    and retries: "retry_contract (k_retry_on_conflict K)"
begin

definition grows :: "'w \<Rightarrow> 'w \<Rightarrow> bool" where
  "grows w w' \<longleftrightarrow> (\<forall>k. \<exists>ext. versions w' k = versions w k @ ext)"

lemma grows_frame [simp]: "world_frame grows"
  unfolding world_frame_def
proof
  show "reflp grows" by (auto simp: grows_def reflp_def)
  show "transp grows"
  proof (rule transpI)
    fix u v w
    assume a: "grows u v" "grows v w"
    show "grows u w"
      unfolding grows_def
    proof
      fix k
      obtain x y where "versions v k = versions u k @ x" "versions w k = versions v k @ y"
        using a unfolding grows_def by blast
      then show "\<exists>ext. versions w k = versions u k @ ext" by simp
    qed
  qed
qed

lemma ops_grow [frame_intros]:
  "state_io_rel grows (k_get_obit K key)" "state_io_rel grows (k_create_obit K x)"
  "state_io_rel grows (k_update_obit_status K x)"
  by (auto simp: state_io_rel_def grows_def get_grows create_grows update_grows)

lemma grows_seen: "grows w w' \<Longrightarrow> x \<in> set (versions w k) \<Longrightarrow> x \<in> set (versions w' k)"
  unfolding grows_def by (metis Un_iff set_append)

lemma grows_length: "grows w w' \<Longrightarrow> length (versions w k) \<le> length (versions w' k)"
  unfolding grows_def by (metis le_add1 length_append)

lemma write_after_read:
  assumes seen: "Some x \<in> set (versions w key)"
    and u: "run_state (k_update_obit_status K (x\<lparr>obit_status := s\<rparr>)) w = (None, w')"
  shows "\<exists>u v new. versions w' key = u @ Some x # Some new # v \<and>
    length (versions w key) \<le> Suc (length u) \<and> status_write_of x s new"
proof -
  have key: "obit_key x = key" using seen by (rule seen_key)
  obtain us vs cur new where v: "versions w' key = us @ Some cur # Some new # vs"
    "length (versions w key) \<le> Suc (length us)" "obit_rv cur = obit_rv x" "status_write_of cur s new"
    using update_commits[OF u] by (auto simp: key)
  have "Some x \<in> set (versions w' key)"
    using state_io_relD[OF ops_grow(3) u] seen by (rule grows_seen)
  moreover have "Some cur \<in> set (versions w' key)" using v(1) by simp
  ultimately have "cur = x" using v(3) rv_identifies by blast
  with v show ?thesis by blast
qed

lemma bump_attempt_commits:
  assumes "run_state (bump_attempt K key d) w = (None, w')"
  shows "already_counted d (versions w' key)"
proof -
  obtain r w1 where g: "run_state (k_get_obit K key) w = (r, w1)" by force
  from assms g obtain fresh where r: "r = Inr fresh"
    by (auto simp: bump_attempt_def split: sum.splits)
  have seen: "Some fresh \<in> set (versions w1 key)" using g unfolding r by (rule get_seen)
  show ?thesis
  proof (cases "st_last_episode (obit_status fresh) = rd_episode d")
    case True
    with assms g r have "w' = w1" by (simp add: bump_attempt_def)
    with seen True show ?thesis by (auto simp: already_counted_def)
  next
    case False
    have "run_state (k_update_obit_status K
        (fresh\<lparr>obit_status := bumped_status d (obit_status fresh)\<rparr>)) w1 = (None, w')"
      using assms g r False by (simp add: bump_attempt_def)
    from write_after_read[OF seen this] obtain u v new where
      "versions w' key = u @ Some fresh # Some new # v"
      "status_write_of fresh (bumped_status d (obit_status fresh)) new" by blast
    then show ?thesis
      unfolding already_counted_def by (intro exI[of _ new]) (simp add: status_write_of_def bumped_status_def)
  qed
qed

lemma bump_attempt_grows: "state_io_rel grows (bump_attempt K key d)"
  unfolding bump_attempt_def by (intro frame_intros ops_grow grows_frame)

lemma retried_bump:
  assumes "run_state (retried K (no_capture (bump_attempt K key d))) w = ((None, x), w')"
  shows "already_counted d (versions w' key)"
proof -
  have "run_state (k_retry_on_conflict K (no_capture (bump_attempt K key d))) (w, '''') = (None, (w', x))"
    using assms by (auto simp: run_retried split: prod.splits)
  then obtain u where "run_state (no_capture (bump_attempt K key d)) u = (None, (w', x))"
    by (rule retry_contract.retry_ends[OF retries])
  then have "run_state (bump_attempt K key d) (fst u) = (None, w')"
    by (cases u) (auto split: prod.splits)
  then show ?thesis by (rule bump_attempt_commits)
qed

lemma upsert_grows: "state_io_rel grows (upsertObituary L K d)"
  unfolding upsertObituary_def
  by (intro frame_intros ops_grow grows_frame retries
      frame_no_capture[OF bump_attempt_grows])

lemma upsert_bumped:
  assumes "run_state (upsertObituary L K d) w = ((False, True, None), w')"
  shows "already_counted d (versions w' (death_key L d))"
proof -
  obtain r w1 where g: "run_state (k_get_obit K (death_key L d)) w = (r, w1)" by force
  from assms g obtain e x where
    "run_state (retried K (no_capture (bump_attempt K (death_key L d) d))) w1 = ((e, x), w')" "e = None"
    by (auto simp: upsertObituary_def split: sum.splits if_splits prod.splits)
  with retried_bump[of "death_key L d" d w1 x w'] show ?thesis by simp
qed

lemma upsert_created:
  assumes "run_state (upsertObituary L K d) w = ((True, b, e), w')"
  shows "b = False \<and> (\<exists>w1 y. grows w w1 \<and> grows w1 w' \<and>
    born_as y (length (versions w (death_key L d))) (versions w1 (death_key L d)) \<and>
    created_as (new_obituary L d) y \<and>
    (e = None \<longrightarrow> status_on y (first_status d) (versions w' (death_key L d))))"
proof -
  obtain r w0 where g: "run_state (k_get_obit K (death_key L d)) w = (r, w0)" by force
  obtain c w1 where c: "run_state (k_create_obit K (new_obituary L d)) w0 = (c, w1)" by force
  have w0: "grows w w0" using ops_grow(1) g by (rule state_io_relD)
  have w1: "grows w0 w1" using ops_grow(2) c by (rule state_io_relD)
  from assms g c obtain y where y: "c = Inr y" "b = False"
    "run_state (k_update_obit_status K (y\<lparr>obit_status := first_status d\<rparr>)) w1 = (e, w')"
    by (auto simp: upsertObituary_def split: sum.splits if_splits prod.splits)
  have w': "grows w1 w'" using ops_grow(3) y(3) by (rule state_io_relD)
  from create_commits[OF c[unfolded y(1)]]
  have born0: "born_as y (length (versions w0 (death_key L d))) (versions w1 (death_key L d))"
    and new: "created_as (new_obituary L d) y"
    by (simp_all only: new_obituary_key)
  with grows_length[OF w0, of "death_key L d"]
  have born: "born_as y (length (versions w (death_key L d))) (versions w1 (death_key L d))"
    by (blast intro: born_as_mono)
  have "status_on y (first_status d) (versions w' (death_key L d))" if "e = None"
  proof -
    have "Some y \<in> set (versions w1 (death_key L d))" using born by (auto simp: born_as_def)
    from write_after_read[OF this] y(3) that show ?thesis unfolding status_on_def by blast
  qed
  moreover have "grows w w1" using w0 w1 by (rule world_frame_trans[OF grows_frame])
  ultimately show ?thesis using y(2) born new w' by blast
qed

end

subsection \<open>A quiet server: upsert implements a pure step\<close>

text \<open>
  With no other writer and no fault, one upsert is a pure step on the obituary's status, and a
  run of upserts folds it. \<open>record_all\<close> is the sequence of deaths the reconcilers report.
\<close>
definition count_step :: "obituary_status \<Rightarrow> recorded_death \<Rightarrow> obituary_status" where
  "count_step s d = (if st_last_episode s = rd_episode d then s else bumped_status d s)"

definition upsert_status :: "obituary_status option \<Rightarrow> recorded_death \<Rightarrow> obituary_status" where
  "upsert_status s d = (case s of None \<Rightarrow> first_status d | Some s \<Rightarrow> count_step s d)"

definition upsert_result ::
  "obituary_status option \<Rightarrow> recorded_death \<Rightarrow> bool \<times> bool \<times> go_error option" where
  "upsert_result s d = (case s of
     None \<Rightarrow> (True, False, None)
   | Some s \<Rightarrow> (False, st_last_episode s \<noteq> rd_episode d, None))"

definition status_at :: "('w \<Rightarrow> object_key \<Rightarrow> history) \<Rightarrow> 'w \<Rightarrow> object_key \<Rightarrow> obituary_status option" where
  "status_at versions w key = map_option obit_status (latest (versions w key))"

fun record_all ::
  "('l) go_lib_scheme \<Rightarrow> ('w, 'z) obit_client_scheme \<Rightarrow> recorded_death list \<Rightarrow> ('w, unit) state" where
  "record_all L K [] = ret ()"
| "record_all L K (d # ds) = do { _ \<leftarrow> upsertObituary L K d; record_all L K ds }"

locale quiet_server = obit_server K versions
  for K :: "('w, 'z) obit_client_scheme" and versions :: "'w \<Rightarrow> object_key \<Rightarrow> history" +
  assumes get_quiet: "run_state (k_get_obit K key) w = (r, w') \<Longrightarrow> versions w' = versions w \<and>
      (case latest (versions w key) of
         Some x \<Rightarrow> r = Inr x
       | None \<Rightarrow> (\<exists>e. r = Inl e \<and> is_not_found e))"
    and create_quiet: "latest (versions w (obit_key x)) = None \<Longrightarrow>
      \<exists>y w'. run_state (k_create_obit K x) w = (Inr y, w') \<and>
        versions w' = (versions w)(obit_key x := versions w (obit_key x) @ [Some y])"
    and update_quiet: "latest (versions w (obit_key x)) = Some cur \<Longrightarrow> obit_rv cur = obit_rv x \<Longrightarrow>
      \<exists>new w'. run_state (k_update_obit_status K x) w = (None, w') \<and>
        versions w' = (versions w)(obit_key x := versions w (obit_key x) @ [Some new]) \<and>
        status_write_of cur (obit_status x) new"
begin

lemma get_found:
  assumes "latest (versions w key) = Some x"
  obtains w' where "run_state (k_get_obit K key) w = (Inr x, w')" "versions w' = versions w"
    "obit_key x = key"
proof -
  obtain r w' where g: "run_state (k_get_obit K key) w = (r, w')" by force
  have "Some x \<in> set (versions w key)" using latest_SomeD[OF assms] by auto
  then have "obit_key x = key" by (rule seen_key)
  with get_quiet[OF g] assms g that show thesis by auto
qed

lemma get_absent:
  assumes "latest (versions w key) = None"
  obtains e w' where "run_state (k_get_obit K key) w = (Inl e, w')" "versions w' = versions w"
    "is_not_found e"
proof -
  obtain r w' where g: "run_state (k_get_obit K key) w = (r, w')" by force
  with get_quiet[OF g] assms that show thesis by auto
qed

lemma write_quiet:
  assumes "latest (versions w key) = Some x" "obit_key x = key"
  obtains w' where "run_state (k_update_obit_status K (x\<lparr>obit_status := s\<rparr>)) w = (None, w')"
    "status_at versions w' = (status_at versions w)(key := Some s)"
proof -
  from update_quiet[of w "x\<lparr>obit_status := s\<rparr>" x] assms
  obtain new w' where "run_state (k_update_obit_status K (x\<lparr>obit_status := s\<rparr>)) w = (None, w')"
    "versions w' = (versions w)(key := versions w key @ [Some new])" "status_write_of x s new"
    by auto
  with that show thesis
    by (auto simp: status_at_def status_write_of_def fun_eq_iff)
qed

lemma bump_attempt_quiet:
  assumes "latest (versions w key) = Some x" "st_last_episode (obit_status x) \<noteq> rd_episode d"
  obtains w' where "run_state (bump_attempt K key d) w = (None, w')"
    "status_at versions w' = (status_at versions w)(key := Some (bumped_status d (obit_status x)))"
proof -
  obtain w1 where g: "run_state (k_get_obit K key) w = (Inr x, w1)" "versions w1 = versions w"
    "obit_key x = key" using get_found[OF assms(1)] .
  obtain w' where u: "run_state (k_update_obit_status K
      (x\<lparr>obit_status := bumped_status d (obit_status x)\<rparr>)) w1 = (None, w')"
    "status_at versions w' = (status_at versions w1)(key := Some (bumped_status d (obit_status x)))"
    using write_quiet[of w1 key x "bumped_status d (obit_status x)"] assms(1) g(2,3) by metis
  have "status_at versions w1 = status_at versions w" using g(2) by (simp add: status_at_def fun_eq_iff)
  with u g assms(2) that show thesis by (simp add: bump_attempt_def)
qed

lemma retried_quiet:
  assumes "run_state m w = (None, w')"
  shows "run_state (retried K (no_capture m)) w = ((None, ''''), w')"
proof -
  have "run_state (k_retry_on_conflict K (no_capture m)) (w, '''') = (None, (w', ''''))"
    by (rule retry_contract.retry_first[OF retries]) (simp_all add: assms)
  then show ?thesis by (simp add: run_retried)
qed

lemma upsert_refines:
  obtains w' where
    "run_state (upsertObituary L K d) w = (upsert_result (status_at versions w (death_key L d)) d, w')"
    "status_at versions w' = (status_at versions w)
      (death_key L d := Some (upsert_status (status_at versions w (death_key L d)) d))"
proof (cases "latest (versions w (death_key L d))")
  case None
  let ?x = "new_obituary L d" and ?k = "death_key L d"
  obtain e w1 where g: "run_state (k_get_obit K ?k) w = (Inl e, w1)" "versions w1 = versions w"
    "is_not_found e" using get_absent[OF None] .
  obtain y w2 where c: "run_state (k_create_obit K ?x) w1 = (Inr y, w2)"
    "versions w2 = (versions w1)(?k := versions w1 ?k @ [Some y])"
    using create_quiet[of w1 ?x] None g(2) by auto
  have y: "latest (versions w2 ?k) = Some y" using c(2) by simp
  then have "obit_key y = ?k" using latest_SomeD seen_key by (metis in_set_conv_decomp)
  with y obtain w' where u: "run_state (k_update_obit_status K (y\<lparr>obit_status := first_status d\<rparr>)) w2 =
      (None, w')" "status_at versions w' = (status_at versions w2)(?k := Some (first_status d))"
    by (rule write_quiet)
  have "status_at versions w' = (status_at versions w)(?k := Some (first_status d))"
    using u(2) c(2) g(2) by (auto simp: status_at_def fun_eq_iff)
  moreover have "run_state (upsertObituary L K d) w = ((True, False, None), w')"
    using g c(1) u(1) by (simp add: upsertObituary_def)
  ultimately show thesis
    using that None by (simp add: upsert_result_def upsert_status_def status_at_def)
next
  case (Some x)
  let ?k = "death_key L d"
  obtain w1 where g: "run_state (k_get_obit K ?k) w = (Inr x, w1)" "versions w1 = versions w"
    using get_found[OF Some] .
  have s1: "status_at versions w1 = status_at versions w" using g(2) by (simp add: status_at_def fun_eq_iff)
  have s: "status_at versions w ?k = Some (obit_status x)" using Some by (simp add: status_at_def)
  show thesis
  proof (cases "st_last_episode (obit_status x) = rd_episode d")
    case True
    then have "run_state (upsertObituary L K d) w = ((False, False, None), w1)"
      using g by (simp add: upsertObituary_def)
    moreover have "(status_at versions w)(?k := Some (obit_status x)) = status_at versions w"
      using s by (simp add: fun_upd_idem)
    ultimately show thesis
      using that s s1 True by (simp add: upsert_result_def upsert_status_def count_step_def)
  next
    case False
    obtain w' where b: "run_state (bump_attempt K ?k d) w1 = (None, w')"
      "status_at versions w' = (status_at versions w1)(?k := Some (bumped_status d (obit_status x)))"
      using bump_attempt_quiet[of w1 ?k x d] Some g(2) False by metis
    have "run_state (upsertObituary L K d) w = ((False, True, None), w')"
      using g(1) False retried_quiet[OF b(1)] by (simp add: upsertObituary_def)
    with that s s1 b(2) False show thesis
      by (simp add: upsert_result_def upsert_status_def count_step_def)
  qed
qed

lemma record_all_refines:
  assumes "\<forall>d \<in> set ds. death_key L d = key"
  shows "status_at versions (snd (run_state (record_all L K ds) w)) key =
    foldl (\<lambda>s d. Some (upsert_status s d)) (status_at versions w key) ds"
  using assms
proof (induction ds arbitrary: w)
  case Nil
  then show ?case by simp
next
  case (Cons d ds)
  obtain w' where
    u: "run_state (upsertObituary L K d) w = (upsert_result (status_at versions w (death_key L d)) d, w')"
    "status_at versions w' = (status_at versions w)
      (death_key L d := Some (upsert_status (status_at versions w (death_key L d)) d))"
    by (rule upsert_refines)
  with Cons show ?case by simp
qed

end

subsection \<open>Counting\<close>

lemma bumped_status_fields [simp]:
  "st_occurrences (bumped_status d s) = st_occurrences s + 1"
  "st_last_episode (bumped_status d s) = rd_episode d"
  "st_last_seen (bumped_status d s) = Some (rd_now d)"
  "st_last_pod (bumped_status d s) = rd_last_pod d"
  "st_heal_attempts (bumped_status d s) = st_heal_attempts (rd_status d)"
  "st_last_heal_at (bumped_status d s) = st_last_heal_at (rd_status d)"
  "st_conditions (bumped_status d s) = st_conditions (rd_status d)"
  by (simp_all add: bumped_status_def)

lemma first_status_fields [simp]:
  "st_occurrences (first_status d) = 1"
  "st_last_episode (first_status d) = rd_episode d"
  "st_first_seen (first_status d) = Some (rd_now d)"
  "st_heal_attempts (first_status d) = st_heal_attempts (rd_status d)"
  by (simp_all add: first_status_def)

lemma foldl_upsert_Some:
  "foldl (\<lambda>s d. Some (upsert_status s d)) (Some s) ds = Some (foldl count_step s ds)"
  by (induction ds arbitrary: s) (simp_all add: upsert_status_def)

lemma count_steps:
  "st_occurrences (foldl count_step s ds) + 1 =
     st_occurrences s + of_nat (length (remdups_adj (st_last_episode s # map rd_episode ds)))"
proof (induction ds arbitrary: s)
  case Nil
  then show ?case by simp
next
  case (Cons d ds)
  show ?case using Cons[of "count_step s d"]
    by (cases "st_last_episode s = rd_episode d") (simp_all add: count_step_def algebra_simps)
qed

lemma count_first_seen:
  "st_first_seen s \<noteq> None \<Longrightarrow> st_first_seen (foldl count_step s ds) = st_first_seen s"
proof (induction ds arbitrary: s)
  case (Cons d ds)
  have "st_first_seen (count_step s d) = st_first_seen s"
    using Cons.prems by (auto simp: count_step_def bumped_status_def split: option.splits)
  with Cons show ?case by simp
qed simp

subsection \<open>The reference servers meet the contracts\<close>

lemma created_stamp:
  "created_as x (stamp n (obit_key x)
     (x\<lparr>obit_meta := (obit_meta x)\<lparr>om_uid := u\<rparr>, obit_status := zero_status\<rparr>))"
  unfolding created_as_def
proof (intro conjI exI)
  show "obit_meta (stamp n (obit_key x)
      (x\<lparr>obit_meta := (obit_meta x)\<lparr>om_uid := u\<rparr>, obit_status := zero_status\<rparr>)) =
    (obit_meta x)\<lparr>om_resource_version := show_nat n, om_uid := u\<rparr>"
    by (cases "obit_meta x") (simp add: stamp_def obit_key_def)
qed (simp_all add: stamp_def)

lemma mem_create_run:
  assumes "run_state (mem_create_obit x) w = (Inr y, w')"
  shows "latest (mem_versions w (obit_key x)) = None"
    "mem_versions w' (obit_key x) = mem_versions w (obit_key x) @ [Some y]"
    "created_as x y"
proof -
  from assms have run: "latest (mem_versions w (obit_key x)) = None"
    "y = stamp (length (m_log w)) (obit_key x) (x\<lparr>obit_meta :=
       (obit_meta x)\<lparr>om_uid := ''uid-'' @ show_nat (length (m_log w))\<rparr>, obit_status := zero_status\<rparr>)"
    "mem_versions w' (obit_key x) = mem_versions w (obit_key x) @ [Some y]"
    by (auto simp: mem_create_obit_def Let_def log_versions_snoc split: option.splits)
  from run(1) show "latest (mem_versions w (obit_key x)) = None" .
  from run(3) show "mem_versions w' (obit_key x) = mem_versions w (obit_key x) @ [Some y]" .
  show "created_as x y" unfolding run(2) by (rule created_stamp)
qed

lemma mem_update_run:
  assumes "run_state (mem_update_obit_status x) w = (None, w')"
  obtains cur new where "latest (mem_versions w (obit_key x)) = Some cur" "obit_rv cur = obit_rv x"
    "mem_versions w' (obit_key x) = mem_versions w (obit_key x) @ [Some new]"
    "status_write_of cur (obit_status x) new"
proof -
  from assms obtain cur where cur: "latest (mem_versions w (obit_key x)) = Some cur"
    "obit_rv cur = obit_rv x"
    "w' = w\<lparr>m_log := m_log w @ [(obit_key x, Some (cur\<lparr>obit_status := obit_status x\<rparr>))]\<rparr>"
    by (auto simp: mem_update_obit_status_def Let_def split: option.splits if_splits)
  let ?new = "stamp (length (m_log w)) (obit_key x) (cur\<lparr>obit_status := obit_status x\<rparr>)"
  have "obit_key cur = obit_key x"
    using latest_SomeD[OF cur(1)] log_versions_key[of cur "m_log w" "obit_key x"] by auto
  then have "status_write_of cur (obit_status x) ?new"
    by (cases "obit_meta cur") (auto simp: status_write_of_def stamp_def obit_key_def)
  moreover have "mem_versions w' (obit_key x) = mem_versions w (obit_key x) @ [Some ?new]"
    using cur(3) by (simp add: log_versions_snoc)
  ultimately show thesis using that cur(1,2) by blast
qed


lemma mem_ops_grow:
  "\<exists>ext. mem_versions (snd (run_state (mem_get_obit key) w)) k = mem_versions w k @ ext"
  "\<exists>ext. mem_versions (snd (run_state (mem_create_obit x) w)) k = mem_versions w k @ ext"
  "\<exists>ext. mem_versions (snd (run_state (mem_update_obit_status x) w)) k = mem_versions w k @ ext"
  by (simp_all add: mem_get_obit_def mem_read_def mem_create_obit_def mem_update_obit_status_def
      Let_def log_versions_snoc split: option.splits)

text \<open>Foreign writes only ever append to the log.\<close>
definition appends :: "(write_log \<Rightarrow> write_log \<Rightarrow> write_log) \<Rightarrow> bool" where
  "appends land \<longleftrightarrow> (\<forall>l b. \<exists>ext. land l b = l @ ext)"

lemma interfered_grows:
  assumes "appends land"
  shows "\<exists>ext. mem_versions (interfered land w sc) k = mem_versions w k @ ext"
proof (cases sc)
  case (Cons b bs)
  obtain ext where "land (m_log w) b = m_log w @ ext" using assms unfolding appends_def by blast
  with Cons show ?thesis by (simp add: interfered_def log_versions_append)
qed (simp add: interfered_def)

lemma scripted_grows:
  assumes "appends land" "\<And>w. \<exists>ext. mem_versions (snd (run_state m w)) k = mem_versions w k @ ext"
  shows "\<exists>ext. mem_versions (fst (snd (run_state (scripted land m) s))) k = mem_versions (fst s) k @ ext"
proof -
  obtain w sc where s: "s = (w, sc)" by (cases s)
  let ?w = "interfered land w sc"
  obtain e1 where "mem_versions ?w k = mem_versions w k @ e1" using interfered_grows[OF assms(1)] by blast
  moreover obtain e2 where "mem_versions (snd (run_state m ?w)) k = mem_versions ?w k @ e2"
    using assms(2) by blast
  ultimately show ?thesis by (simp add: s run_scripted case_prod_unfold)
qed

lemma run_scriptedE:
  assumes "run_state (scripted land m) s = (a, s')"
  obtains w where "run_state m w = (a, fst s')" "w = interfered land (fst s) (snd s)"
proof -
  obtain w sc where s: "s = (w, sc)" by (cases s)
  have "run_state m (interfered land w sc) = (a, fst s')"
    using assms by (auto simp: s run_scripted split: prod.splits)
  with that s show thesis by simp
qed

lemma mem_get_law: "run_state (mem_get_obit key) w = (Inr x, w') \<Longrightarrow> Some x \<in> set (mem_versions w' key)"
  using latest_SomeD[of "mem_versions w key" x]
  by (auto simp: mem_get_obit_def mem_read_def split: option.splits)

lemma mem_create_law:
  assumes "run_state (mem_create_obit x) w = (Inr y, w')"
  shows "born_as y (length (mem_versions w (obit_key x))) (mem_versions w' (obit_key x)) \<and> created_as x y"
proof -
  note r = mem_create_run[OF assms]
  let ?u = "mem_versions w (obit_key x)"
  have "?u = [] \<or> last ?u = None" using r(1) by (simp add: latest_def split: if_splits)
  with r(2,3) show ?thesis unfolding born_as_def by blast
qed

lemma mem_update_law:
  assumes "run_state (mem_update_obit_status x) w = (None, w')"
  shows "\<exists>u v cur new. mem_versions w' (obit_key x) = u @ Some cur # Some new # v \<and>
    length (mem_versions w (obit_key x)) \<le> Suc (length u) \<and>
    obit_rv cur = obit_rv x \<and> status_write_of cur (obit_status x) new"
proof -
  obtain cur new where r: "latest (mem_versions w (obit_key x)) = Some cur" "obit_rv cur = obit_rv x"
    "mem_versions w' (obit_key x) = mem_versions w (obit_key x) @ [Some new]"
    "status_write_of cur (obit_status x) new" using assms by (rule mem_update_run)
  obtain us where "mem_versions w (obit_key x) = us @ [Some cur]" using latest_SomeD[OF r(1)] by blast
  with r show ?thesis
    by (intro exI[of _ us] exI[of _ "[]"] exI[of _ cur] exI[of _ new]) simp
qed

lemma length_prefix: "\<exists>ext. ys = xs @ ext \<Longrightarrow> length xs \<le> length ys"
  by auto

lemma scripted_server:
  assumes app: "appends land"
  shows "obit_server (scripted_client land) (\<lambda>s. mem_versions (fst s))"
proof (rule obit_server.intro)
  let ?vs = "\<lambda>s. mem_versions (fst s)"
  note grow = scripted_grows[OF app mem_ops_grow(1)] scripted_grows[OF app mem_ops_grow(2)]
    scripted_grows[OF app mem_ops_grow(3)]
  show "\<exists>ext. ?vs (snd (run_state (k_get_obit (scripted_client land) key) w)) k = ?vs w k @ ext"
    "\<exists>ext. ?vs (snd (run_state (k_create_obit (scripted_client land) x) w)) k = ?vs w k @ ext"
    "\<exists>ext. ?vs (snd (run_state (k_update_obit_status (scripted_client land) x) w)) k = ?vs w k @ ext"
    for key x w k
    using grow by (simp_all add: scripted_client_def)
  show "Some x \<in> set (?vs s' key)"
    if "run_state (k_get_obit (scripted_client land) key) s = (Inr x, s')" for key s x s'
  proof -
    from that have "run_state (scripted land (mem_get_obit key)) s = (Inr x, s')"
      by (simp add: scripted_client_def)
    then show ?thesis by (rule run_scriptedE) (rule mem_get_law)
  qed
  show "obit_key x = key" if "Some x \<in> set (?vs w key)" for x w key
    using that by (rule log_versions_key)
  show "x = y" if "Some x \<in> set (?vs w key)" "Some y \<in> set (?vs w key)" "obit_rv x = obit_rv y" for x y w key
    using that by (rule log_versions_rv)
  show "born_as y (length (?vs s (obit_key x))) (?vs s' (obit_key x)) \<and> created_as x y"
    if "run_state (k_create_obit (scripted_client land) x) s = (Inr y, s')" for x s y s'
  proof -
    from that have "run_state (scripted land (mem_create_obit x)) s = (Inr y, s')"
      by (simp add: scripted_client_def)
    then obtain w where w: "run_state (mem_create_obit x) w = (Inr y, fst s')"
      "w = interfered land (fst s) (snd s)" by (rule run_scriptedE)
    have "length (?vs s (obit_key x)) \<le> length (mem_versions w (obit_key x))"
      unfolding w(2) by (rule length_prefix[OF interfered_grows[OF app]])
    with mem_create_law[OF w(1)] show ?thesis by (blast intro: born_as_mono)
  qed
  show "\<exists>u v cur new. ?vs s' (obit_key x) = u @ Some cur # Some new # v \<and>
        length (?vs s (obit_key x)) \<le> Suc (length u) \<and>
        obit_rv cur = obit_rv x \<and> status_write_of cur (obit_status x) new"
    if "run_state (k_update_obit_status (scripted_client land) x) s = (None, s')" for x s s'
  proof -
    from that have "run_state (scripted land (mem_update_obit_status x)) s = (None, s')"
      by (simp add: scripted_client_def)
    then obtain w where w: "run_state (mem_update_obit_status x) w = (None, fst s')"
      "w = interfered land (fst s) (snd s)" by (rule run_scriptedE)
    have "length (?vs s (obit_key x)) \<le> length (mem_versions w (obit_key x))"
      unfolding w(2) by (rule length_prefix[OF interfered_grows[OF app]])
    with mem_update_law[OF w(1)] show ?thesis using order_trans by blast
  qed
  show "retry_contract (k_retry_on_conflict (scripted_client land))"
    by (rule retry_contract.intro) (simp add: scripted_client_def mem_retry_allowed)
qed

lemma appends_all [simp]: "appends (@)"
  by (simp add: appends_def)

interpretation shared: obit_server "scripted_client (@)" "\<lambda>s. mem_versions (fst s)"
  by (rule scripted_server) simp

lemma mem_client_ops [simp]:
  "k_get_obit mem_client = mem_get_obit" "k_create_obit mem_client = mem_create_obit"
  "k_update_obit_status mem_client = mem_update_obit_status"
  "k_retry_on_conflict mem_client = mem_retry 4"
  by (simp_all add: mem_client_def)

interpretation mem: quiet_server mem_client mem_versions
proof unfold_locales
  show "Some x \<in> set (mem_versions w' key)" if "run_state (k_get_obit mem_client key) w = (Inr x, w')" for key w x w'
    using that by (auto intro: mem_get_law)
  show "born_as y (length (mem_versions w (obit_key x))) (mem_versions w' (obit_key x)) \<and> created_as x y"
    if "run_state (k_create_obit mem_client x) w = (Inr y, w')" for x w y w'
    using mem_create_law that by simp
  show "\<exists>u v cur new. mem_versions w' (obit_key x) = u @ Some cur # Some new # v \<and>
        length (mem_versions w (obit_key x)) \<le> Suc (length u) \<and>
        obit_rv cur = obit_rv x \<and> status_write_of cur (obit_status x) new"
    if "run_state (k_update_obit_status mem_client x) w = (None, w')" for x w w'
    using mem_update_law that by simp
  show "obit_key x = key" if "Some x \<in> set (mem_versions w key)" for x w key
    using that by (rule log_versions_key)
  show "x = y" if "Some x \<in> set (mem_versions w key)" "Some y \<in> set (mem_versions w key)"
    "obit_rv x = obit_rv y" for x y w key
    using that by (rule log_versions_rv)
  show "mem_versions w' = mem_versions w \<and> (case latest (mem_versions w key) of
      Some x \<Rightarrow> r = Inr x | None \<Rightarrow> \<exists>e. r = Inl e \<and> is_not_found e)"
    if "run_state (k_get_obit mem_client key) w = (r, w')" for key w r w'
    using that by (auto simp: mem_get_obit_def mem_read_def split: option.splits)
  show "\<exists>y w'. run_state (k_create_obit mem_client x) w = (Inr y, w') \<and>
      mem_versions w' = (mem_versions w)(obit_key x := mem_versions w (obit_key x) @ [Some y])"
    if "latest (mem_versions w (obit_key x)) = None" for x w
    using that by (auto simp: mem_create_obit_def Let_def log_versions_snoc fun_eq_iff)
  show "\<exists>new w'. run_state (k_update_obit_status mem_client x) w = (None, w') \<and>
      mem_versions w' = (mem_versions w)(obit_key x := mem_versions w (obit_key x) @ [Some new]) \<and>
      status_write_of cur (obit_status x) new"
    if cur: "latest (mem_versions w (obit_key x)) = Some cur" "obit_rv cur = obit_rv x" for x w cur
  proof -
    obtain w' where w': "run_state (mem_update_obit_status x) w = (None, w')"
      "w' = w\<lparr>m_log := m_log w @ [(obit_key x, Some (cur\<lparr>obit_status := obit_status x\<rparr>))]\<rparr>"
      using cur by (simp add: mem_update_obit_status_def Let_def)
    obtain cur2 new where u: "latest (mem_versions w (obit_key x)) = Some cur2"
      "mem_versions w' (obit_key x) = mem_versions w (obit_key x) @ [Some new]"
      "status_write_of cur2 (obit_status x) new"
      using mem_update_run[OF w'(1)] by blast
    have "mem_versions w' k = mem_versions w k" if "k \<noteq> obit_key x" for k
      using that w'(2) by (simp add: log_versions_snoc)
    with u w'(1) cur(1) show ?thesis by (auto simp: fun_eq_iff)
  qed
qed (use mem_ops_grow mem_retry_allowed in simp_all)

end
