(* ===== verification/Engine.thy ===== *)
theory Engine
  imports Actions Rate_Limit Obituary_Store
begin

section \<open>The self-heal engine\<close>

text \<open>
  \<^verbatim>\<open>internal/selfheal/engine.go\<close>. The engine's state is the rate limiter, threaded beside
  the world. Past the silent gates every branch of \<^verbatim>\<open>MaybeHeal\<close> ends with one
  \<^verbatim>\<open>appendRecord\<close>: \<open>heal_attempt\<close> computes the record, \<open>MaybeHeal\<close> appends it.

  The lemmas: which records can come out (\<open>sound_record\<close>: an action that is executed or would
  be is allowed by the operator, supported on the kind and within the hourly budget), what the
  limiter is charged, that a dry run makes no call that deletes or updates anything but the
  obituary's status, and that against a quiet server the audit trail gains exactly that record
  and is trimmed to the newest entries.
\<close>

record 'w engine =
  eng_decider_for :: "string \<Rightarrow> self_heal_policy \<Rightarrow> ('w, 'w decider_method) state"
  eng_max_attempts :: int

text \<open>\<^verbatim>\<open>NewEngine\<close> without options, and the two options\<close>
definition NewEngine :: "'w engine" where
  "NewEngine = \<lparr>eng_decider_for = (\<lambda>ns p. ret rule_decide), eng_max_attempts = 20\<rparr>"

definition WithDeciderFactory ::
  "(string \<Rightarrow> self_heal_policy \<Rightarrow> ('w, 'w decider_method) state) \<Rightarrow> 'w engine \<Rightarrow> 'w engine" where
  "WithDeciderFactory f e = e\<lparr>eng_decider_for := f\<rparr>"

definition WithMaxAttempts :: "int \<Rightarrow> 'w engine \<Rightarrow> 'w engine" where
  "WithMaxAttempts n e = e\<lparr>eng_max_attempts := n\<rparr>"

definition derefInt32 :: "int32 option \<Rightarrow> int32 \<Rightarrow> int32" where
  "derefInt32 p dflt = (case p of None \<Rightarrow> dflt | Some v \<Rightarrow> v)"

definition boolOr :: "bool option \<Rightarrow> bool \<Rightarrow> bool" where
  "boolOr p dflt = (case p of None \<Rightarrow> dflt | Some v \<Rightarrow> v)"

subsection \<open>The gates\<close>

definition namespaceAllowed ::
  "('l) go_lib_scheme \<Rightarrow> ('w, 'z) cluster_client_scheme \<Rightarrow> self_heal_policy \<Rightarrow> string \<Rightarrow>
   ('w, bool) state" where
  "namespaceAllowed L K p ns =
     (case hp_namespace_selector p of
        None \<Rightarrow> ret True
      | Some ls \<Rightarrow>
          (case lib_selector L ls of
             Inl err \<Rightarrow> ret True
           | Inr sel \<Rightarrow>
               if sel_empty sel then ret True
               else do {
                 r \<leftarrow> k_get_namespace_labels K ns;
                 case r of
                   Inl err \<Rightarrow> ret False
                 | Inr lbls \<Rightarrow> ret (sel_matches sel lbls)
               }))"

text \<open>The gates that only look at the policy and the obituary\<close>
definition silent_gates :: "self_heal_policy \<Rightarrow> obituary_status \<Rightarrow> bool" where
  "silent_gates p st \<longleftrightarrow>
     hp_enabled p \<and>
     st_phase st = PhaseComplete \<and>
     \<not> st_occurrences st <s derefInt32 (hp_min_occurrences p) DefaultSelfHealMinOccurrences \<and>
     \<not> (boolOr (hp_require_high_confidence p) True \<and> st_confidence st \<noteq> ConfidenceHigh)"

subsection \<open>The audit trail\<close>

definition trim_attempts :: "int \<Rightarrow> heal_record list \<Rightarrow> heal_record list" where
  "trim_attempts maxAttempts attempts =
     (if 0 < maxAttempts \<and> maxAttempts < int (length attempts)
      then drop (nat (int (length attempts) - maxAttempts)) attempts else attempts)"

definition with_record :: "int \<Rightarrow> heal_record \<Rightarrow> obituary_status \<Rightarrow> obituary_status" where
  "with_record maxAttempts rec st = st\<lparr>
     st_heal_attempts := trim_attempts maxAttempts (st_heal_attempts st @ [rec]),
     st_last_heal_at := hr_time rec\<rparr>"

definition append_attempt ::
  "('w, 'z) obit_client_scheme \<Rightarrow> int \<Rightarrow> obituary \<Rightarrow> heal_record \<Rightarrow> ('w, go_error option) state" where
  "append_attempt K maxAttempts obit rec = do {
     r \<leftarrow> k_get_obit K (obit_key obit);
     case r of
       Inl err \<Rightarrow> ret (Some err)
     | Inr fresh \<Rightarrow>
         k_update_obit_status K (fresh\<lparr>obit_status := with_record maxAttempts rec (obit_status fresh)\<rparr>)
   }"

definition appendRecord ::
  "('w, 'z) obit_client_scheme \<Rightarrow> int \<Rightarrow> obituary \<Rightarrow> heal_record \<Rightarrow> ('w, unit) state" where
  "appendRecord K maxAttempts obit rec = do {
     _ \<leftarrow> retried K (no_capture (append_attempt K maxAttempts obit rec));
     ret ()
   }"

subsection \<open>One heal\<close>

text \<open>A call of the client, seen from the engine, whose state also holds the limiter\<close>
definition in_world :: "('w, 'a) state \<Rightarrow> ('w \<times> 'r, 'a) state" where
  "in_world m = State (\<lambda>(w, r). case run_state m w of (a, w') \<Rightarrow> (a, (w', r)))"

definition reserve_now ::
  "('w, 'z) obit_client_scheme \<Rightarrow> string \<Rightarrow> int \<Rightarrow> ('w \<times> rate_limiter, bool) state" where
  "reserve_now K ns m = do {
     t \<leftarrow> in_world (k_now K);
     State (\<lambda>(w, r). case reserve r t ns m of (ok, r') \<Rightarrow> (ok, (w, r')))
   }"

text \<open>A record with the time of its making\<close>
definition stamped_record ::
  "('w, 'z) obit_client_scheme \<Rightarrow> self_heal_action \<Rightarrow> heal_outcome \<Rightarrow> string \<Rightarrow> string \<Rightarrow> string \<Rightarrow>
   ('w, heal_record) state" where
  "stamped_record K action outcome detail reason decidedBy = do {
     t \<leftarrow> k_now K;
     ret \<lparr>hr_time = Some t, hr_action = action, hr_outcome = outcome, hr_detail = detail,
       hr_reason = reason, hr_decided_by = decidedBy\<rparr>
   }"

definition allowed_actions :: "self_heal_policy \<Rightarrow> self_heal_action list" where
  "allowed_actions p =
     (if length (hp_actions p) = 0 then DefaultSelfHealActions else hp_actions p)"

text \<open>After the limiter: the dry run, or the executor\<close>
definition carry_out ::
  "('q, 'l) koroner_lib_scheme \<Rightarrow> ('w, 'q, 'z) kube_client_scheme \<Rightarrow> obituary \<Rightarrow> self_heal_policy \<Rightarrow>
   decision \<Rightarrow> ('w, heal_record) state" where
  "carry_out L K obit p d =
     (if boolOr (hp_dry_run p) True then
        stamped_record K (d_action d) HealDryRun (''dry-run: would execute '' @ d_action d)
          (d_reason d) (d_decided_by d)
      else (case executors L K (d_action d) of
        None \<Rightarrow> stamped_record K (d_action d) HealFailed ''''
          (''no executor registered for action '' @ d_action d) (d_decided_by d)
      | Some exec \<Rightarrow> do {
          (detail, err) \<leftarrow> exec obit p;
          case err of
            Some e \<Rightarrow> stamped_record K (d_action d) HealFailed detail (emsg e) (d_decided_by d)
          | None \<Rightarrow> stamped_record K (d_action d) HealApplied detail (d_reason d) (d_decided_by d)
        }))"

definition subject_ns :: "obituary \<Rightarrow> string" where
  "subject_ns obit = sub_namespace (sp_subject (obit_spec obit))"

definition heal_with_decider ::
  "('q, 'l) koroner_lib_scheme \<Rightarrow> ('w, 'q, 'z) kube_client_scheme \<Rightarrow> obituary \<Rightarrow>
   self_heal_policy \<Rightarrow> 'w decider_method \<Rightarrow> ('w \<times> rate_limiter, heal_record) state" where
  "heal_with_decider L K obit p decide = do {
     d \<leftarrow> in_world (decide obit (allowed_actions p));
     if d_action d = '''' then
       in_world (stamped_record K '''' HealSkipped '''' (d_reason d) (d_decided_by d))
     else do {
       ok \<leftarrow> reserve_now K (subject_ns obit)
         (sint (derefInt32 (hp_max_heals_per_hour p) DefaultSelfHealMaxHealsPerHour));
       if \<not> ok then
         in_world (stamped_record K (d_action d) HealSkipped ''''
           ''rate limit exceeded for namespace'' (d_decided_by d))
       else in_world (carry_out L K obit p d)
     }
   }"

definition heal_attempt ::
  "('q, 'l) koroner_lib_scheme \<Rightarrow> ('w, 'q, 'z) kube_client_scheme \<Rightarrow> 'w engine \<Rightarrow> obituary \<Rightarrow>
   self_heal_policy \<Rightarrow> ('w \<times> rate_limiter, heal_record) state" where
  "heal_attempt L K e obit p =
     (if length (applicableActions (subject_kind obit) (allowed_actions p)) = 0 then
        in_world (stamped_record K '''' HealSkipped ''''
          (''no allowlisted action is supported on kind '' @ subject_kind obit) ''engine'')
      else do {
        decide \<leftarrow> in_world (eng_decider_for e (subject_ns obit) p);
        heal_with_decider L K obit p decide
      })"

definition MaybeHeal ::
  "('q, 'l) koroner_lib_scheme \<Rightarrow> ('w, 'q, 'z) kube_client_scheme \<Rightarrow> 'w engine \<Rightarrow> obituary \<Rightarrow>
   koroner_config_spec \<Rightarrow> ('w \<times> rate_limiter, unit) state" where
  "MaybeHeal L K e obit cfg =
     (let p = cfg_self_heal cfg in
      if \<not> silent_gates p (obit_status obit) then ret ()
      else do {
        ok \<leftarrow> in_world (namespaceAllowed L K p (subject_ns obit));
        if \<not> ok then ret ()
        else do {
          rec \<leftarrow> heal_attempt L K e obit p;
          in_world (appendRecord K (eng_max_attempts e) obit rec)
        }
      })"

lemma run_in_world [simp]:
  "run_state (in_world m) (w, r) = (case run_state m w of (a, w') \<Rightarrow> (a, (w', r)))"
  by (simp add: in_world_def)

lemma run_reserve_now: "run_state (reserve_now K ns m) (w, r) =
   (case run_state (k_now K) w of (t, w') \<Rightarrow>
      (fst (reserve r t ns m), (w', snd (reserve r t ns m))))"
  by (simp add: reserve_now_def case_prod_unfold)

subsection \<open>What a heal may touch\<close>

definition world_part :: "('w \<Rightarrow> 'w \<Rightarrow> bool) \<Rightarrow> 'w \<times> 'r \<Rightarrow> 'w \<times> 'r \<Rightarrow> bool" where
  "world_part R s t = R (fst s) (fst t)"

lemma world_frame_world_part [simp]: "world_frame R \<Longrightarrow> world_frame (world_part R)"
  unfolding world_frame_def world_part_def reflp_def transp_def by blast

lemma frame_in_world [frame_intros]: "state_io_rel R m \<Longrightarrow> state_io_rel (world_part R) (in_world m)"
  by (auto simp: state_io_rel_def world_part_def case_prod_unfold)

lemma frame_reserve_now [frame_intros]:
  "state_io_rel R (k_now K) \<Longrightarrow> state_io_rel (world_part R) (reserve_now K ns m)"
  by (auto simp: state_io_rel_def world_part_def run_reserve_now case_prod_unfold)

lemma frame_stamped_record [frame_intros]:
  "world_frame R \<Longrightarrow> state_io_rel R (k_now K) \<Longrightarrow> state_io_rel R (stamped_record K a oc dt rs who)"
  unfolding stamped_record_def by (intro frame_intros)

text \<open>
  \<open>decide_frame\<close>: what deciding calls, the clock, the namespace's labels and the decider,
  keeps \<open>R\<close>. A dry run calls nothing else before it appends its record. \<open>act_frame\<close> adds the
  calls of the executors.
\<close>
locale decide_frame =
  fixes K :: "('w, 'q, 'z) kube_client_scheme" and e :: "'w engine" and R :: "'w \<Rightarrow> 'w \<Rightarrow> bool"
  assumes frame: "world_frame R"
    and now_frame: "state_io_rel R (k_now K)"
    and labels_frame: "state_io_rel R (k_get_namespace_labels K ns)"
    and factory_frame: "state_io_rel R (eng_decider_for e ns p)"
    and decider_frame: "run_state (eng_decider_for e ns p) w = (decide, w') \<Longrightarrow>
      state_io_rel R (decide obit allowed)"
begin

lemma namespaceAllowed_frame: "state_io_rel R (namespaceAllowed L K p ns)"
  unfolding namespaceAllowed_def by (intro frame_intros frame labels_frame)

lemma heal_attempt_frame_if:
  assumes "\<And>d. state_io_rel R (carry_out L K obit p d)"
  shows "state_io_rel (world_part R) (heal_attempt L K e obit p)"
proof -
  have "state_io_rel (world_part R) (heal_with_decider L K obit p decide)"
    if fd: "run_state (in_world (eng_decider_for e (subject_ns obit) p)) s = (decide, s')"
    for decide and s s' :: "'w \<times> rate_limiter"
  proof -
    obtain w r where s: "s = (w, r)" by (cases s)
    obtain w1 where "run_state (eng_decider_for e (subject_ns obit) p) w = (decide, w1)"
      using fd by (auto simp: s split: prod.splits)
    then have "state_io_rel R (decide obit (allowed_actions p))" by (rule decider_frame)
    then show ?thesis
      unfolding heal_with_decider_def
      by (intro frame_intros world_frame_world_part frame now_frame assms)
  qed
  then have act: "state_io_rel (world_part R) (do {
      decide \<leftarrow> in_world (eng_decider_for e (subject_ns obit) p);
      heal_with_decider L K obit p decide
    })"
    by (rule frame_bind_result[OF world_frame_world_part[OF frame] frame_in_world[OF factory_frame]])
  have skip: "state_io_rel (world_part R) (in_world (stamped_record K a oc dt rs who))" for a oc dt rs who
    by (intro frame_intros frame now_frame)
  show ?thesis unfolding heal_attempt_def by (rule frame_if, rule skip, rule act)
qed

lemma heal_attempt_dry_frame:
  assumes "boolOr (hp_dry_run p) True"
  shows "state_io_rel (world_part R) (heal_attempt L K e obit p)"
proof (rule heal_attempt_frame_if)
  show "state_io_rel R (carry_out L K obit p d)" for d
    using assms frame_stamped_record[OF frame now_frame] by (simp add: carry_out_def)
qed

lemma MaybeHeal_frame_append:
  assumes "state_io_rel (world_part R) (heal_attempt L K e obit (cfg_self_heal cfg))"
    and "retry_contract (k_retry_on_conflict K)"
    and "\<And>rec. state_io_rel R (append_attempt K (eng_max_attempts e) obit rec)"
  shows "state_io_rel (world_part R) (MaybeHeal L K e obit cfg)"
proof -
  have "state_io_rel R (retried K (no_capture (append_attempt K (eng_max_attempts e) obit rec)))" for rec
    by (rule frame_retried[OF assms(2) frame frame_no_capture[OF assms(3)]])
  then have "state_io_rel R (appendRecord K (eng_max_attempts e) obit rec)" for rec
    unfolding appendRecord_def by (rule frame_bind[OF frame _ frame_return[OF frame]])
  then show ?thesis
    unfolding MaybeHeal_def Let_def
    by (intro frame_intros world_frame_world_part frame namespaceAllowed_frame assms(1))
qed

lemma MaybeHeal_frame_if:
  assumes "state_io_rel (world_part R) (heal_attempt L K e obit (cfg_self_heal cfg))"
    and "retry_contract (k_retry_on_conflict K)"
    and "\<And>key. state_io_rel R (k_get_obit K key)" "\<And>x. state_io_rel R (k_update_obit_status K x)"
  shows "state_io_rel (world_part R) (MaybeHeal L K e obit cfg)"
proof (rule MaybeHeal_frame_append[OF assms(1,2)])
  show "state_io_rel R (append_attempt K (eng_max_attempts e) obit rec)" for rec
    unfolding append_attempt_def by (intro frame_intros frame assms(3,4))
qed

end

locale act_frame = decide_frame K e R + executor_frame K R
  for K :: "('w, 'q, 'z) kube_client_scheme" and e :: "'w engine" and R :: "'w \<Rightarrow> 'w \<Rightarrow> bool"
begin

lemma heal_attempt_frame: "state_io_rel (world_part R) (heal_attempt L K e obit p)"
proof (rule heal_attempt_frame_if)
  show "state_io_rel R (carry_out L K obit p d)" for d
    unfolding carry_out_def
    by (intro frame_intros frame now_frame executors_frame)
qed

end

subsection \<open>The trail is trimmed to the newest entries\<close>

lemma trim_attempts_suffix: "\<exists>old. attempts = old @ trim_attempts m attempts"
proof (cases "0 < m \<and> m < int (length attempts)")
  case True
  then show ?thesis
    unfolding trim_attempts_def
    by (simp, intro exI[of _ "take (nat (int (length attempts) - m)) attempts"]) simp
qed (auto simp: trim_attempts_def)

lemma length_trim_attempts: "0 < m \<Longrightarrow> int (length (trim_attempts m attempts)) = min m (int (length attempts))"
  by (auto simp: trim_attempts_def)

lemma last_trim_attempts: "trim_attempts m (xs @ [r]) \<noteq> [] \<and> last (trim_attempts m (xs @ [r])) = r"
  by (auto simp: trim_attempts_def)

subsection \<open>Records\<close>

text \<open>What holds of a record, given the policy, the obituary and the limiter before\<close>
definition sound_record ::
  "self_heal_policy \<Rightarrow> obituary \<Rightarrow> rate_limiter \<Rightarrow> heal_record \<Rightarrow> bool" where
  "sound_record p obit r rec \<longleftrightarrow>
     (case hr_outcome rec of
        HealSkipped \<Rightarrow> True
      | OutcomeUnset \<Rightarrow> False
      | oc \<Rightarrow>
          hr_action rec \<in> set (allowed_actions p) \<and>
          kindSupports (subject_kind obit) (hr_action rec) \<and>
          (oc = HealDryRun \<longleftrightarrow> boolOr (hp_dry_run p) True) \<and>
          (\<exists>t. int (used_budget r t (subject_ns obit)) <
             sint (derefInt32 (hp_max_heals_per_hour p) DefaultSelfHealMaxHealsPerHour)))"

lemma stamped_record_fields:
  assumes "run_state (stamped_record K a oc dt rs who) w = (rec, w')"
  shows "hr_action rec = a \<and> hr_outcome rec = oc \<and> hr_reason rec = rs \<and> hr_detail rec = dt \<and>
    hr_decided_by rec = who \<and> hr_time rec \<noteq> None"
  using assms by (auto simp: stamped_record_def case_prod_unfold)

lemma carry_out_fields:
  assumes "run_state (carry_out L K obit p d) w = (rec, w')"
  shows "hr_action rec = d_action d \<and> hr_outcome rec \<in> {HealDryRun, HealFailed, HealApplied} \<and>
    (hr_outcome rec = HealDryRun \<longleftrightarrow> boolOr (hp_dry_run p) True)"
  using assms
  by (auto simp: carry_out_def split: if_splits option.splits prod.splits dest!: stamped_record_fields)

text \<open>The deciders of a factory keep the contract of the Decider interface.\<close>
definition sound_factory :: "'w engine \<Rightarrow> bool" where
  "sound_factory e \<longleftrightarrow> (\<forall>ns p w. decider (fst (run_state (eng_decider_for e ns p) w)))"

lemma sound_factory_NewEngine [simp]: "sound_factory NewEngine"
  by (simp add: sound_factory_def NewEngine_def rule.decider_axioms)

abbreviation heal_cap :: "self_heal_policy \<Rightarrow> int" where
  "heal_cap p \<equiv> sint (derefInt32 (hp_max_heals_per_hour p) DefaultSelfHealMaxHealsPerHour)"

text \<open>The two kinds of run: a skip, or a granted action that is carried out\<close>
lemma heal_attempt_run:
  assumes "run_state (heal_attempt L K e obit p) (w, r) = (rec, (w', r'))"
  obtains
    (skipped) a rs who w1 where "run_state (stamped_record K a HealSkipped '''' rs who) w1 = (rec, w')"
      "r' = r \<or> (\<exists>t. r' = snd (reserve r t (subject_ns obit) (heal_cap p)))"
  | (granted) decide d w1 w2 w3 t where
      "run_state (eng_decider_for e (subject_ns obit) p) w = (decide, w1)"
      "run_state (decide obit (allowed_actions p)) w1 = (d, w2)" "d_action d \<noteq> ''''"
      "fst (reserve r t (subject_ns obit) (heal_cap p))"
      "r' = snd (reserve r t (subject_ns obit) (heal_cap p))"
      "run_state (carry_out L K obit p d) w3 = (rec, w')"
proof (cases "length (applicableActions (subject_kind obit) (allowed_actions p)) = 0")
  case True
  with assms have "run_state (stamped_record K '''' HealSkipped ''''
      (''no allowlisted action is supported on kind '' @ subject_kind obit) ''engine'') w = (rec, w')" "r' = r"
    by (auto simp: heal_attempt_def heal_with_decider_def split: prod.splits)
  then show thesis by (intro skipped) auto
next
  case False
  obtain decide w1 where f: "run_state (eng_decider_for e (subject_ns obit) p) w = (decide, w1)" by force
  obtain d w2 where d: "run_state (decide obit (allowed_actions p)) w1 = (d, w2)" by force
  show thesis
  proof (cases "d_action d = ''''")
    case True
    with assms False f d have
      "run_state (stamped_record K '''' HealSkipped '''' (d_reason d) (d_decided_by d)) w2 = (rec, w')" "r' = r"
      by (auto simp: heal_attempt_def heal_with_decider_def split: prod.splits)
    then show thesis by (intro skipped) auto
  next
    case act: False
    obtain t w3 where t: "run_state (k_now K) w2 = (t, w3)" by force
    let ?g = "reserve r t (subject_ns obit) (heal_cap p)"
    show thesis
    proof (cases "fst ?g")
      case True
      with assms False f d act t have "run_state (carry_out L K obit p d) w3 = (rec, w')" "r' = snd ?g"
        by (auto simp: heal_attempt_def heal_with_decider_def run_reserve_now split: prod.splits)
      with f d act True show thesis by (intro granted)
    next
      case denied: False
      with assms False f d act t have "run_state (stamped_record K (d_action d) HealSkipped ''''
          ''rate limit exceeded for namespace'' (d_decided_by d)) w3 = (rec, w')" "r' = snd ?g"
        by (simp_all add: heal_attempt_def heal_with_decider_def run_reserve_now split: prod.splits)
      then show thesis by (intro skipped) auto
    qed
  qed
qed

lemma heal_attempt_sound:
  assumes "sound_factory e"
    and "run_state (heal_attempt L K e obit p) (w, r) = (rec, (w', r'))"
  shows "sound_record p obit r rec"
    and "r' = r \<or> (\<exists>t. r' = snd (reserve r t (subject_ns obit) (heal_cap p)))"
    and "hr_outcome rec \<noteq> HealSkipped \<Longrightarrow>
      \<exists>t. fst (reserve r t (subject_ns obit) (heal_cap p)) \<and>
        r' = snd (reserve r t (subject_ns obit) (heal_cap p))"
proof -
  have "sound_record p obit r rec \<and> (r' = r \<or> (\<exists>t. r' = snd (reserve r t (subject_ns obit) (heal_cap p)))) \<and>
      (hr_outcome rec \<noteq> HealSkipped \<longrightarrow> (\<exists>t. fst (reserve r t (subject_ns obit) (heal_cap p)) \<and>
        r' = snd (reserve r t (subject_ns obit) (heal_cap p))))"
    using assms(2)
proof (cases rule: heal_attempt_run)
  case (skipped a rs who w1)
  with stamped_record_fields[OF skipped(1)]
  show "sound_record p obit r rec \<and> (r' = r \<or> (\<exists>t. r' = snd (reserve r t (subject_ns obit) (heal_cap p)))) \<and>
      (hr_outcome rec \<noteq> HealSkipped \<longrightarrow> (\<exists>t. fst (reserve r t (subject_ns obit) (heal_cap p)) \<and>
        r' = snd (reserve r t (subject_ns obit) (heal_cap p))))"
    by (simp add: sound_record_def)
next
  case (granted decide d w1 w2 w3 t)
  have "decider decide" using assms(1) granted(1) unfolding sound_factory_def by (metis fst_conv)
  then have act: "d_action d \<in> set (allowed_actions p) \<and> kindSupports (subject_kind obit) (d_action d)"
    using granted(2,3) decider.decide_sound by (metis fst_conv)
  have used: "int (used_budget r t (subject_ns obit)) < heal_cap p"
    using granted(4) lim.granted_iff by blast
  show "sound_record p obit r rec \<and> (r' = r \<or> (\<exists>t. r' = snd (reserve r t (subject_ns obit) (heal_cap p)))) \<and>
      (hr_outcome rec \<noteq> HealSkipped \<longrightarrow> (\<exists>t. fst (reserve r t (subject_ns obit) (heal_cap p)) \<and>
        r' = snd (reserve r t (subject_ns obit) (heal_cap p))))"
    using carry_out_fields[OF granted(6)] act used granted(4,5)
    by (auto simp: sound_record_def)
qed
  then show "sound_record p obit r rec"
    and "r' = r \<or> (\<exists>t. r' = snd (reserve r t (subject_ns obit) (heal_cap p)))"
    and "hr_outcome rec \<noteq> HealSkipped \<Longrightarrow>
      \<exists>t. fst (reserve r t (subject_ns obit) (heal_cap p)) \<and>
        r' = snd (reserve r t (subject_ns obit) (heal_cap p))"
    by blast+
qed

subsection \<open>One heal against a quiet server\<close>

definition passes_gates ::
  "('l) go_lib_scheme \<Rightarrow> ('w, 'z) cluster_client_scheme \<Rightarrow> obituary \<Rightarrow> self_heal_policy \<Rightarrow> 'w \<Rightarrow> bool" where
  "passes_gates L K obit p w \<longleftrightarrow>
     silent_gates p (obit_status obit) \<and> fst (run_state (namespaceAllowed L K p (subject_ns obit)) w)"

locale quiet_heal =
  quiet_server K versions + act_frame K e "\<lambda>w w'. versions w' = versions w"
  for K :: "('w, 'q, 'z) kube_client_scheme" and versions :: "'w \<Rightarrow> object_key \<Rightarrow> history"
    and e :: "'w engine"
begin

lemma append_quiet:
  assumes "status_at versions w (obit_key obit) = Some st"
  obtains w' where "run_state (appendRecord K m obit rec) w = ((), w')"
    "status_at versions w' = (status_at versions w)(obit_key obit := Some (with_record m rec st))"
proof -
  obtain x where x: "latest (versions w (obit_key obit)) = Some x" "obit_status x = st"
    using assms by (auto simp: status_at_def)
  obtain w1 where g: "run_state (k_get_obit K (obit_key obit)) w = (Inr x, w1)" "versions w1 = versions w"
    "obit_key x = obit_key obit" using get_found[OF x(1)] .
  obtain w' where u: "run_state (k_update_obit_status K (x\<lparr>obit_status := with_record m rec st\<rparr>)) w1 = (None, w')"
    "status_at versions w' = (status_at versions w1)(obit_key obit := Some (with_record m rec st))"
    using write_quiet[of w1 "obit_key obit" x] x(1) g(2,3) by metis
  have "run_state (append_attempt K m obit rec) w = (None, w')"
    using g(1) u(1) x(2) by (simp add: append_attempt_def)
  then have "run_state (appendRecord K m obit rec) w = ((), w')"
    by (simp add: appendRecord_def retried_quiet)
  moreover have "status_at versions w1 = status_at versions w"
    using g(2) by (simp add: status_at_def fun_eq_iff)
  ultimately show thesis using that u(2) by simp
qed

lemma MaybeHeal_silent:
  assumes "\<not> passes_gates L K obit (cfg_self_heal cfg) w"
    and "run_state (MaybeHeal L K e obit cfg) (w, r) = ((), (w', r'))"
  shows "versions w' = versions w \<and> r' = r"
proof (cases "silent_gates (cfg_self_heal cfg) (obit_status obit)")
  case True
  obtain ok w1 where n: "run_state (namespaceAllowed L K (cfg_self_heal cfg) (subject_ns obit)) w = (ok, w1)"
    by force
  have "versions w1 = versions w" using namespaceAllowed_frame n by (rule state_io_relD)
  moreover have "\<not> ok" using True assms(1) n by (simp add: passes_gates_def)
  ultimately show ?thesis using assms(2) True n by (simp add: MaybeHeal_def Let_def)
qed (use assms(2) in \<open>simp add: MaybeHeal_def Let_def\<close>)

lemma MaybeHeal_recorded:
  assumes "sound_factory e"
    and "status_at versions w (obit_key obit) = Some st"
    and "passes_gates L K obit (cfg_self_heal cfg) w"
    and "run_state (MaybeHeal L K e obit cfg) (w, r) = ((), (w', r'))"
  obtains rec where "sound_record (cfg_self_heal cfg) obit r rec"
    "status_at versions w' = (status_at versions w)
       (obit_key obit := Some (with_record (eng_max_attempts e) rec st))"
    "r' = r \<or> (\<exists>t. r' = snd (reserve r t (subject_ns obit) (heal_cap (cfg_self_heal cfg))))"
    "hr_outcome rec \<noteq> HealSkipped \<Longrightarrow>
      \<exists>t. fst (reserve r t (subject_ns obit) (heal_cap (cfg_self_heal cfg))) \<and>
        r' = snd (reserve r t (subject_ns obit) (heal_cap (cfg_self_heal cfg)))"
proof -
  let ?p = "cfg_self_heal cfg"
  obtain w1 where n: "run_state (namespaceAllowed L K ?p (subject_ns obit)) w = (True, w1)"
    using assms(3) unfolding passes_gates_def by (metis (full_types) prod.collapse)
  obtain rec w2 r2 where h: "run_state (heal_attempt L K e obit ?p) (w1, r) = (rec, (w2, r2))"
    by (metis prod.collapse)
  have "versions w1 = versions w" using namespaceAllowed_frame n by (rule state_io_relD)
  moreover have "versions w2 = versions w1"
    using state_io_relD[OF heal_attempt_frame h] by (simp add: world_part_def)
  ultimately have vs: "status_at versions w2 = status_at versions w"
    by (simp add: status_at_def fun_eq_iff)
  with assms(2) have "status_at versions w2 (obit_key obit) = Some st" by simp
  then obtain w3 where a: "run_state (appendRecord K (eng_max_attempts e) obit rec) w2 = ((), w3)"
    "status_at versions w3 = (status_at versions w2)
      (obit_key obit := Some (with_record (eng_max_attempts e) rec st))" by (rule append_quiet)
  have "w' = w3" "r' = r2"
    using assms(3,4) n h a(1) by (simp_all add: MaybeHeal_def Let_def passes_gates_def)
  with that[of rec] heal_attempt_sound[OF assms(1) h] a(2) vs show thesis by auto
qed

end

subsection \<open>The contracts hold of the reference cluster\<close>

lemma mem_read_frame: "state_io_rel (=) (mem_read f)"
  by (simp add: state_io_rel_def mem_read_def)

lemma mem_reads [simp]:
  "k_now mem_client = State (\<lambda>w. (m_clock w, w))"
  "k_get_pod mem_client key = mem_read (\<lambda>w. m_pods w key)"
  "k_get_namespace_labels mem_client ns = mem_read (\<lambda>w. m_namespaces w ns)"
  "k_get_deployment mem_client key = mem_read (\<lambda>w. m_workloads w (''Deployment'', key))"
  "k_get_stateful_set mem_client key = mem_read (\<lambda>w. m_workloads w (''StatefulSet'', key))"
  "k_get_daemon_set mem_client key = mem_read (\<lambda>w. m_workloads w (''DaemonSet'', key))"
  "k_update_deployment mem_client = mem_update_workload ''Deployment''"
  "k_update_stateful_set mem_client = mem_update_workload ''StatefulSet''"
  "k_update_daemon_set mem_client = mem_update_workload ''DaemonSet''"
  by (simp_all add: mem_client_def)

lemma mem_frames:
  assumes "world_frame R"
  shows "state_io_rel R (k_now mem_client)" "state_io_rel R (mem_read f)"
    "state_io_rel R (k_list_replica_sets mem_client ns)"
  using world_frame_refl[OF assms]
  by (simp_all add: state_io_rel_def mem_read_def mem_client_def)

lemma mem_writes_log:
  "state_io_rel (\<lambda>w w'. mem_versions w' = mem_versions w) (k_delete_pod mem_client pod)"
  "state_io_rel (\<lambda>w w'. mem_versions w' = mem_versions w) (mem_update_workload kind wl)"
  by (simp_all add: state_io_rel_def mem_write_def mem_update_workload_def mem_client_def)

lemma mem_retries_strings: "retry_contract (k_retry_on_conflict mem_client)"
  by (simp add: mem_retries.retry_contract_axioms)

lemma same_versions_frame: "world_frame (\<lambda>w w'. mem_versions w' = mem_versions w)"
  by (auto simp: world_frame_def reflp_def transp_def)

lemma same_objects_frame:
  "world_frame (\<lambda>w w'. m_pods w' = m_pods w \<and> m_workloads w' = m_workloads w)"
  by (auto simp: world_frame_def reflp_def transp_def)

lemma NewEngine_decider_frames:
  assumes "world_frame R"
  shows "state_io_rel R (eng_decider_for NewEngine ns p)"
    and "run_state (eng_decider_for NewEngine ns p) w = (decide, w') \<Longrightarrow> state_io_rel R (decide obit allowed)"
  using frame_return[OF assms] by (auto simp: NewEngine_def rule_decide_def)

interpretation mem_exec: executor_frame mem_client "\<lambda>w w'. mem_versions w' = mem_versions w"
proof unfold_locales
  note keeps = same_versions_frame
  let ?R = "\<lambda>w w'. mem_versions w' = mem_versions w"
  show "world_frame ?R" by (rule keeps)
  show "state_io_rel ?R (k_now mem_client)" by (rule mem_frames(1)[OF keeps])
  show "state_io_rel ?R (k_get_pod mem_client key)" for key
    unfolding mem_reads by (rule mem_frames(2)[OF keeps])
  show "state_io_rel ?R (k_delete_pod mem_client pod)" for pod by (rule mem_writes_log)
  show "state_io_rel ?R (k_get_deployment mem_client key)" "state_io_rel ?R (k_get_stateful_set mem_client key)"
    "state_io_rel ?R (k_get_daemon_set mem_client key)" for key
    unfolding mem_reads by (rule mem_frames(2)[OF keeps])+
  show "state_io_rel ?R (k_update_deployment mem_client wl)" "state_io_rel ?R (k_update_stateful_set mem_client wl)"
    "state_io_rel ?R (k_update_daemon_set mem_client wl)" for wl
    unfolding mem_reads by (rule mem_writes_log)+
  show "state_io_rel ?R (k_list_replica_sets mem_client ns)" for ns by (rule mem_frames(3)[OF keeps])
  show "run_state (k_retry_on_conflict mem_client fn) s = (e, s') \<Longrightarrow> retry_run fn s e s'" for fn s e s'
    by (rule retry_contract.retry_allowed[OF mem_retries_strings])
qed

interpretation mem_heal: quiet_heal mem_client mem_versions NewEngine
proof unfold_locales
  note keeps = same_versions_frame
  let ?R = "\<lambda>w w'. mem_versions w' = mem_versions w"
  show "state_io_rel ?R (k_get_namespace_labels mem_client ns)" for ns
    unfolding mem_reads by (rule mem_frames(2)[OF keeps])
  show "state_io_rel ?R (eng_decider_for NewEngine ns p)" for ns p
    by (rule NewEngine_decider_frames(1)[OF keeps])
  show "state_io_rel ?R (decide obit allowed)" if "run_state (eng_decider_for NewEngine ns p) w = (decide, w')"
    for ns p w decide w' obit allowed
    using that by (rule NewEngine_decider_frames(2)[OF keeps])
qed (rule same_versions_frame, rule mem_frames(1)[OF same_versions_frame])

text \<open>The frame of a dry run: no pod and no workload changes.\<close>
interpretation mem_dry: decide_frame mem_client NewEngine
    "\<lambda>w w'. m_pods w' = m_pods w \<and> m_workloads w' = m_workloads w"
proof unfold_locales
  note keeps = same_objects_frame
  let ?R = "\<lambda>w w'. m_pods w' = m_pods w \<and> m_workloads w' = m_workloads w"
  show "world_frame ?R" by (rule keeps)
  show "state_io_rel ?R (k_now mem_client)" by (rule mem_frames(1)[OF keeps])
  show "state_io_rel ?R (k_get_namespace_labels mem_client ns)" for ns
    unfolding mem_reads by (rule mem_frames(2)[OF keeps])
  show "state_io_rel ?R (eng_decider_for NewEngine ns p)" for ns p
    by (rule NewEngine_decider_frames(1)[OF keeps])
  show "state_io_rel ?R (decide obit allowed)" if "run_state (eng_decider_for NewEngine ns p) w = (decide, w')"
    for ns p w decide w' obit allowed
    using that by (rule NewEngine_decider_frames(2)[OF keeps])
qed

end
