(* ===== verification/Json_Round_Trip.thy ===== *)
theory Json_Round_Trip
  imports Json
begin

section \<open>Reading back what was written\<close>

text \<open>
  \<open>json_roundtrip\<close>: parsing the text of a value gives the value back, with each string made
  valid UTF-8, as long as its numbers are numbers and it does not nest too deep. The steps are
  the ones of the code: \<^const>\<open>unquote\<close> undoes \<^const>\<open>json_escape\<close> rune by rune, the scanner
  takes an escaped string as one literal, and a value that a delimiter follows is delivered to
  the frame it stands in.
\<close>

subsection \<open>Runes\<close>

lemma decode_rune_prefix:
  assumes "decode_rune (b # bs) = (r, w)" "\<not> (r = 0xFFFD \<and> w = 1)"
  shows "decode_rune (take w (b # bs) @ ys) = (r, w)" "w \<le> length (b # bs)" "0 < w"
  using assms by (auto split: if_splits list.splits)

lemma digits: "b < n \<Longrightarrow> (a * n + b) div n = a" "b < n \<Longrightarrow> (a * n + b) mod n = b" for a b n :: nat
  by simp_all

lemma three_parts:
  fixes x y z :: nat
  assumes "y < 64" "z < 64"
  shows "(x * 4096 + y * 64 + z) div 4096 = x" "(x * 4096 + y * 64 + z) div 64 mod 64 = y"
    "(x * 4096 + y * 64 + z) mod 64 = z"
proof -
  have 1: "x * 4096 + y * 64 + z = x * 4096 + (y * 64 + z)" "x * 4096 + y * 64 + z = (x * 64 + y) * 64 + z"
    by simp_all
  have "y * 64 + z < 4096" using assms by linarith
  then show "(x * 4096 + y * 64 + z) div 4096 = x" unfolding 1(1) by (rule digits(1))
  show "(x * 4096 + y * 64 + z) div 64 mod 64 = y" "(x * 4096 + y * 64 + z) mod 64 = z"
    unfolding 1(2) digits[OF assms(2)] by (rule digits(2)[OF assms(1)], rule refl)
qed

lemma four_parts:
  fixes x y z t :: nat
  assumes "y < 64" "z < 64" "t < 64"
  shows "(x * 262144 + y * 4096 + z * 64 + t) div 262144 = x"
    "(x * 262144 + y * 4096 + z * 64 + t) div 4096 mod 64 = y"
    "(x * 262144 + y * 4096 + z * 64 + t) div 64 mod 64 = z"
    "(x * 262144 + y * 4096 + z * 64 + t) mod 64 = t"
proof -
  have 1: "x * 262144 + y * 4096 + z * 64 + t = (x * 64 + y) * 4096 + z * 64 + t" by simp
  have 2: "x * 262144 + y * 4096 + z * 64 + t = x * 262144 + (y * 4096 + z * 64 + t)" by simp
  have "y * 4096 + z * 64 + t < 262144" using assms by linarith
  then show "(x * 262144 + y * 4096 + z * 64 + t) div 262144 = x" unfolding 2 by (rule digits(1))
  show "(x * 262144 + y * 4096 + z * 64 + t) div 4096 mod 64 = y"
    unfolding 1 three_parts[OF assms(2,3)] by (rule digits(2)[OF assms(1)])
  show "(x * 262144 + y * 4096 + z * 64 + t) div 64 mod 64 = z"
    "(x * 262144 + y * 4096 + z * 64 + t) mod 64 = t"
    unfolding 1 by (rule three_parts[OF assms(2,3)])+
qed

lemma encode_decode:
  assumes "decode_rune (b # bs) = (r, w)" "\<not> (r = 0xFFFD \<and> w = 1)"
  shows "encode_rune r = map char_of (take w (b # bs))"
proof -
  have c: "cont x \<Longrightarrow> \<exists>y < 64. x = 128 + y" for x by (auto simp: cont_def intro!: exI[of _ "x - 128"])
  consider "b < 0x80" "r = b" "w = 1"
    | b1 bs' where "0xC2 \<le> b" "b \<le> 0xDF" "bs = b1 # bs'" "cont b1" "w = 2" "r = (b mod 32) * 64 + b1 mod 64"
    | b1 b2 bs' where "0xE0 \<le> b" "b \<le> 0xEF" "bs = b1 # b2 # bs'" "cont b1" "cont b2" "w = 3"
        "b = 0xE0 \<longrightarrow> 0xA0 \<le> b1" "b = 0xED \<longrightarrow> b1 \<le> 0x9F"
        "r = (b mod 16) * 4096 + (b1 mod 64) * 64 + b2 mod 64"
    | b1 b2 b3 bs' where "0xF0 \<le> b" "b \<le> 0xF4" "bs = b1 # b2 # b3 # bs'" "cont b1" "cont b2" "cont b3" "w = 4"
        "b = 0xF0 \<longrightarrow> 0x90 \<le> b1" "b = 0xF4 \<longrightarrow> b1 \<le> 0x8F"
        "r = (b mod 8) * 262144 + (b1 mod 64) * 4096 + (b2 mod 64) * 64 + b3 mod 64"
    using assms by (auto split: if_splits list.splits)
  then show ?thesis
  proof cases
    case 1
    then show ?thesis by (simp add: encode_rune_def)
  next
    case 2
    then obtain x y where "b = 192 + x" "2 \<le> x" "x < 32" "b1 = 128 + y" "y < 64"
      using c[of b1] by (auto dest!: le_Suc_ex)
    moreover from this have "(6 * 32 + x) mod 32 = x" "(2 * 64 + y) mod 64 = y" by (simp_all only: mod_mult_self3 mod_less)
    moreover from calculation have "r = x * 64 + y" using 2 by simp
    ultimately show ?thesis using 2 by (simp add: encode_rune_def)
  next
    case 3
    then obtain x y z where xyz: "b = 224 + x" "x < 16" "b1 = 128 + y" "y < 64" "b2 = 128 + z" "z < 64"
      using c[of b1] c[of b2] by (auto dest!: le_Suc_ex)
    moreover from this have "(14 * 16 + x) mod 16 = x" "(2 * 64 + y) mod 64 = y" "(2 * 64 + z) mod 64 = z"
      by (simp_all only: mod_mult_self3 mod_less)
    ultimately have r: "r = x * 4096 + y * 64 + z" using 3 by simp
    have "x = 0 \<longrightarrow> 32 \<le> y" "x = 13 \<longrightarrow> y < 32" using 3 xyz by auto
    then have "0x800 \<le> r" "r < 0x10000" using xyz r by auto
    moreover have "\<not> (0xD800 \<le> r \<and> r \<le> 0xDFFF)"
    proof -
      consider "x \<le> 12" | "x = 13" "y < 32" | "14 \<le> x" using \<open>x = 13 \<longrightarrow> y < 32\<close> by force
      then show ?thesis using xyz(4,6) unfolding r by cases auto
    qed
    moreover have "r div 4096 = x" "r div 64 mod 64 = y" "r mod 64 = z"
      unfolding r by (rule three_parts[OF xyz(4,6)])+
    ultimately have "encode_rune r = map char_of [224 + x, 128 + y, 128 + z]"
      by (auto simp: encode_rune_def)
    then show ?thesis by (simp add: 3(3,6) xyz(1,3,5))
  next
    case 4
    then obtain x y z t where xyz: "b = 240 + x" "x < 8" "b1 = 128 + y" "y < 64" "b2 = 128 + z" "z < 64"
      "b3 = 128 + t" "t < 64"
      using c[of b1] c[of b2] c[of b3] by (auto dest!: le_Suc_ex)
    moreover from this have "(30 * 8 + x) mod 8 = x" "(2 * 64 + y) mod 64 = y" "(2 * 64 + z) mod 64 = z"
      "(2 * 64 + t) mod 64 = t"
      by (simp_all only: mod_mult_self3 mod_less)
    ultimately have r: "r = x * 262144 + y * 4096 + z * 64 + t" using 4 by simp
    have "x = 0 \<longrightarrow> 16 \<le> y" "x \<le> 4" "x = 4 \<longrightarrow> y < 16" using 4 xyz by auto
    then have "0x10000 \<le> r" "r \<le> 0x10FFFF" using xyz r by auto
    moreover have "r div 262144 = x" "r div 4096 mod 64 = y" "r div 64 mod 64 = z" "r mod 64 = t"
      unfolding r by (rule four_parts[OF xyz(4,6,8)])+
    ultimately have "encode_rune r = map char_of [240 + x, 128 + y, 128 + z, 128 + t]"
      by (auto simp: encode_rune_def)
    then show ?thesis by (simp add: 4(3,7) xyz(1,3,5,7))
  qed
qed


text \<open>What survives a round trip: each invalid byte becomes U+FFFD.\<close>
definition to_valid :: "string \<Rightarrow> string" where
  "to_valid s = concat (map encode_rune (runes s))"

lemma hex_val_hex_digit [simp]: "d < 16 \<Longrightarrow> hex_val (hex_digit d) = Some d"
  by (simp add: hex_val_def hex_digit_def byte_of_def)

lemma hex4_value:
  assumes "(r :: nat) < 65536"
  shows "r div 4096 mod 16 * 4096 + r div 256 mod 16 * 256 + r div 16 mod 16 * 16 + r mod 16 = r"
proof -
  define a b c where "a = r div 16" and "b = a div 16" and "c = b div 16"
  then have abc: "r div 256 = b" "r div 4096 = c" by (simp_all flip: div_mult2_eq)
  have "c mod 16 = c" using assms abc by simp
  then show ?thesis
    unfolding abc a_def[symmetric]
    using mult_div_mod_eq[of 16 r] mult_div_mod_eq[of 16 a] mult_div_mod_eq[of 16 b]
    unfolding a_def[symmetric] b_def[symmetric] c_def[symmetric] by linarith
qed

lemma getu4_other [simp]: "u \<noteq> CHR ''u'' \<Longrightarrow> getu4 (b # u # s) = None"
  by (cases "b # u # s" rule: getu4.cases) auto

lemma bytes_of_chars: "\<forall>x \<in> set bs. x < 256 \<Longrightarrow> map byte_of (map char_of bs) = bs"
  by (induction bs) (auto simp: byte_of_def)

lemma getu4_hex4 [simp]: "r < 65536 \<Longrightarrow> getu4 (backslash # CHR ''u'' # hex4 r @ s) = Some r"
  using hex4_value[of r] by (simp add: hex4_def del: mod_less)

lemma length_hex4 [simp]: "length (hex4 r) = 4"
  by (simp add: hex4_def)

lemma unquote_hex4:
  assumes "r < 65536" "\<not> is_surrogate r"
  shows "unquote ([backslash, CHR ''u''] @ hex4 r @ s) = encode_rune r @ unquote s"
  using assms by (simp add: drop_Cons')

lemma short_escapes:
  "short_escape r = Some c \<Longrightarrow> c \<noteq> CHR ''u'' \<and> (\<exists>d. unescape c = Some d \<and> encode_rune r = [d])"
proof -
  have "encode_rune 34 = [quote_char]" "encode_rune 92 = [backslash]" "encode_rune 8 = [CHR 0x08]"
    "encode_rune 12 = [CHR 0x0C]" "encode_rune 10 = [CHR 0x0A]" "encode_rune 13 = [CHR 0x0D]"
    "encode_rune 9 = [CHR 0x09]" by code_simp+
  then show "short_escape r = Some c \<Longrightarrow> ?thesis"
    by (auto simp: short_escape_def unescape_def split: if_splits)
qed

lemma unquote_short:
  assumes "short_escape r = Some c"
  shows "unquote ([backslash, c] @ s) = encode_rune r @ unquote s"
  using short_escapes[OF assms] by auto

lemma unquote_rune:
  assumes "decode_rune (b # bs) = (r, w)" "\<not> (r = 0xFFFD \<and> w = 1)" "r \<noteq> 92" "\<forall>x \<in> set (b # bs). x < 256"
  shows "unquote (encode_rune r @ s) = encode_rune r @ unquote s"
proof -
  have e: "encode_rune r = map char_of (take w (b # bs))" using encode_decode[OF assms(1,2)] .
  obtain w' where w': "w = Suc w'" using decode_rune_prefix(3)[OF assms(1,2)] by (cases w) auto
  have bytes: "map byte_of (map char_of (take w (b # bs))) = take w (b # bs)"
    using assms(4) set_take_subset by (intro bytes_of_chars) fastforce
  have "char_of b \<noteq> backslash" 
  proof
    assume "char_of b = backslash"
    then have "byte_of (char_of b) = byte_of backslash" by (rule arg_cong)
    then have "b = 92" using assms(4) by (simp add: byte_of_def)
    with assms(1,3) show False by simp
  qed
  moreover obtain cs where cs: "encode_rune r = char_of b # cs" "length cs = w'"
    using decode_rune_prefix(2)[OF assms(1,2)] by (simp add: e w')
  have "decode_rune (map byte_of (map char_of (take w (b # bs)) @ s)) = (r, w)"
    using decode_rune_prefix(1)[OF assms(1,2), of "map byte_of s"] bytes by (simp only: map_append)
  then have "decode_rune (map byte_of (char_of b # (cs @ s))) = (r, Suc w')"
    unfolding e[symmetric] by (simp only: cs w' append_Cons)
  ultimately show ?thesis unfolding cs append_Cons unquote.simps by (simp add: cs del: decode_rune.simps)
qed


lemma decode_rune_invalid: "decode_rune (b # bs) = (0xFFFD, 1) \<Longrightarrow> 0x80 \<le> b"
  by (auto split: if_splits)

lemma unquote_json_escape:
  assumes "\<forall>x \<in> set bs. x < 256"
  shows "unquote (json_escape bs @ s) = concat (map encode_rune (rune_list bs)) @ unquote s"
  using assms
proof (induction bs rule: json_escape.induct)
  case (2 b bs)
  obtain r w where d: "decode_rune (b # bs) = (r, w)" by force
  let ?rest = "json_escape (drop (w - 1) bs) @ s"
  have IH: "unquote ?rest = concat (map encode_rune (rune_list (drop (w - 1) bs))) @ unquote s"
    using "2.IH"[OF d[symmetric]] "2.prems" by (auto dest: in_set_dropD)
  let ?e = "if r = 0xFFFD \<and> w = 1 then [backslash, CHR ''u''] @ hex4 r else escape_rune r"
  have head: "unquote (?e @ ?rest) = encode_rune r @ unquote ?rest"
  proof (cases "r = 0xFFFD \<and> w = 1")
    case True
    then have "?e = [backslash, CHR ''u''] @ hex4 0xFFFD" "r = 0xFFFD" by simp_all
    then show ?thesis
      using unquote_hex4[of "0xFFFD" ?rest] by (simp only: is_surrogate_def append_assoc) simp
  next
    case valid: False
    show ?thesis
    proof (cases "short_escape r")
      case (Some c)
      with valid have "?e = [backslash, c]" by (auto simp: escape_rune_def)
      then show ?thesis using unquote_short[OF Some] by (simp only:)
    next
      case None
      show ?thesis
      proof (cases "escaped r")
        case True
        with valid None have "?e = [backslash, CHR ''u''] @ hex4 r" by (auto simp: escape_rune_def)
        moreover have "r < 65536" "\<not> is_surrogate r" using True by (auto simp: escaped_def is_surrogate_def)
        ultimately show ?thesis using unquote_hex4[of r ?rest] by (simp only: append_assoc simp_thms)
      next
        case False
        with valid None have "?e = encode_rune r" by (auto simp: escape_rune_def)
        moreover from None have "r \<noteq> 92" by (auto simp: short_escape_def)
        ultimately show ?thesis using unquote_rune[OF d valid _ "2.prems"] by (simp only: not_False_eq_True)
      qed
    qed
  qed
  have "json_escape (b # bs) @ s = ?e @ ?rest" using d by (simp del: decode_rune.simps)
  moreover have "rune_list (b # bs) = r # rune_list (drop (w - 1) bs)" using d by (simp del: decode_rune.simps)
  ultimately show ?case using head IH by (simp only: list.map concat.simps append_assoc)
qed simp

lemma unquote_escaped: "unquote (json_escape (map byte_of s)) = to_valid s"
  using unquote_json_escape[of "map byte_of s" "[]"] by (simp add: to_valid_def runes_def byte_of_less)

subsection \<open>Scanning what was written\<close>

lemma scan_run_Nil [simp]: "scan_run [] = Some"
  by (rule ext) simp

lemma scan_run_append: "scan_run (s @ t) st = Option.bind (scan_run s st) (scan_run t)"
proof (induction s arbitrary: st)
  case (Cons c s)
  then show ?case by (cases "scan_step c st") simp_all
qed simp

text \<open>Characters that a literal may hold as they are\<close>
definition plain :: "char \<Rightarrow> bool" where
  "plain c \<longleftrightarrow> c \<noteq> quote_char \<and> c \<noteq> backslash \<and> 0x20 \<le> byte_of c"

lemma scan_plain:
  "list_all plain s \<Longrightarrow> scan_run s (InString key raw, fs) = Some (InString key (rev s @ raw), fs)"
  by (induction s arbitrary: raw) (auto simp: plain_def)

lemma hex_digit_val [simp]: "\<exists>v. hex_val (hex_digit (n mod 16)) = Some v"
  by simp

lemma scan_hex4: "scan_run ([backslash, CHR ''u''] @ hex4 r) (InString key raw, fs) =
    Some (InString key (rev ([backslash, CHR ''u''] @ hex4 r) @ raw), fs)"
  by (simp add: hex4_def unescape_def)

lemma scan_short: "short_escape r = Some c \<Longrightarrow> scan_run [backslash, c] (InString key raw, fs) =
    Some (InString key (c # backslash # raw), fs)"
  using short_escapes[of r c] by auto

lemma encode_rune_plain:
  assumes "decode_rune (b # bs) = (r, w)" "\<not> (r = 0xFFFD \<and> w = 1)" "\<forall>x \<in> set (b # bs). x < 256"
    and "short_escape r = None" "\<not> escaped r"
  shows "list_all plain (encode_rune r)"
proof (cases "b < 0x80")
  case True
  with assms(1) have "r = b" "w = 1" by auto
  moreover from this True have "encode_rune r = [char_of b]" by (simp add: encode_rune_def)
  moreover have "byte_of (char_of b) = b" using True by (simp add: byte_of_def)
  moreover have "b \<noteq> 34" "b \<noteq> 92" "32 \<le> b" using assms(4,5) \<open>r = b\<close> by (auto simp: short_escape_def escaped_def)
  moreover have "char_of b \<noteq> quote_char" "char_of b \<noteq> backslash"
    using calculation(4-6) by (auto dest!: arg_cong[where f = byte_of] simp: byte_of_def)
  ultimately show ?thesis by (simp add: plain_def)
next
  case False
  have "x \<ge> 0x80" if "x \<in> set (take w (b # bs))" for x
    using assms(1,2) False that by (auto simp: cont_def split: if_splits list.splits)
  then have "plain (char_of x)" if "x \<in> set (take w (b # bs))" for x
    using that assms(3) set_take_subset[of w "b # bs"]
    by (fastforce simp: plain_def byte_of_def dest!: arg_cong[where f = byte_of])
  then show ?thesis unfolding encode_decode[OF assms(1,2)] by (auto simp: list_all_iff)
qed

lemma scan_json_escape:
  assumes "\<forall>x \<in> set bs. x < 256"
  shows "scan_run (json_escape bs) (InString key raw, fs) = Some (InString key (rev (json_escape bs) @ raw), fs)"
  using assms
proof (induction bs arbitrary: raw rule: json_escape.induct)
  case (2 b bs)
  obtain r w where d: "decode_rune (b # bs) = (r, w)" by force
  let ?e = "if r = 0xFFFD \<and> w = 1 then [backslash, CHR ''u''] @ hex4 r else escape_rune r"
  have "scan_run ?e (InString key raw, fs) = Some (InString key (rev ?e @ raw), fs)"
    using scan_hex4[of r key raw fs] scan_short[of r _ key raw fs]
      scan_plain[OF encode_rune_plain[OF d _ "2.prems"], of key raw fs]
    by (auto simp: escape_rune_def split: option.split)
  moreover have "scan_run (json_escape (drop (w - 1) bs)) (InString key (rev ?e @ raw), fs) =
      Some (InString key (rev (json_escape (drop (w - 1) bs)) @ rev ?e @ raw), fs)"
    using "2.prems" by (intro "2.IH"[OF d[symmetric]]) (auto dest: in_set_dropD)
  ultimately show ?case using d by (simp add: scan_run_append del: decode_rune.simps)
qed simp

lemma scan_json_string: "scan_run (json_string s) (BeginString, fs) = Some (EndKey (to_valid s), fs)"
  and scan_json_string_value: "scan_run (json_string s) (BeginValue, fs) = deliver (JStr (to_valid s)) fs"
  using scan_json_escape[of "map byte_of s"]
  by (simp_all add: json_string_def scan_run_append end_string_def unquote_escaped byte_of_less is_json_space_def
      begin_value_def open_frame_def)

subsection \<open>Values\<close>

text \<open>What a value becomes by writing and reading it: its strings become valid UTF-8.\<close>
fun json_norm :: "json \<Rightarrow> json" where
  "json_norm (JStr s) = JStr (to_valid s)"
| "json_norm (JArr xs) = JArr (map json_norm xs)"
| "json_norm (JObj ms) = JObj (map (\<lambda>(k, v). (to_valid k, json_norm v)) ms)"
| "json_norm v = v"

fun number_run :: "number_state \<Rightarrow> string \<Rightarrow> number_state option" where
  "number_run n [] = Some n"
| "number_run n (c # s) = Option.bind (number_step n c) (\<lambda>m. number_run m s)"

text \<open>A number as the grammar has it\<close>
fun number_text :: "string \<Rightarrow> bool" where
  "number_text [] = False"
| "number_text (c # s) =
     (case Option.bind (number_start c) (\<lambda>n. number_run n s) of
        Some m \<Rightarrow> number_complete m | None \<Rightarrow> False)"

lemma number_start_other:
  "number_start CHR ''{'' = None" "number_start CHR ''['' = None" "number_start quote_char = None"
  "number_start CHR ''t'' = None" "number_start CHR ''f'' = None" "number_start CHR ''n'' = None"
  "number_start CHR '' '' = None" "number_start CHR 0x09 = None" "number_start CHR 0x0A = None"
  "number_start CHR 0x0D = None" "number_start CHR '']'' = None"
  by code_simp+

lemma number_start_begins:
  assumes "number_start d = Some k"
  shows "d \<noteq> CHR '']''" "\<not> is_json_space d" "begin_value d fs = Some (InNumber k [d], fs)"
proof -
  have ne: "d \<noteq> c" if "number_start c = None" for c
    using assms that by auto
  note other = number_start_other[THEN ne]
  show "d \<noteq> CHR '']''" by (rule other)
  show "\<not> is_json_space d" by (simp only: is_json_space_def other insert_iff empty_iff simp_thms)
  show "begin_value d fs = Some (InNumber k [d], fs)"
    unfolding begin_value_def by (simp only: other if_False assms option.map)
qed

lemma number_textE:
  assumes "number_text t"
  obtains c s k m where "t = c # s" "number_start c = Some k" "number_run k s = Some m" "number_complete m"
proof (cases t)
  case (Cons c s)
  with assms that show thesis by (cases "number_start c") (auto split: option.splits)
qed (use assms in simp)

text \<open>Values that nest at most \<open>n\<close> deep and whose numbers are numbers\<close>
fun writable :: "nat \<Rightarrow> json \<Rightarrow> bool" where
  "writable n (JNum s) = number_text s"
| "writable n (JArr xs) = (0 < n \<and> (\<forall>x \<in> set xs. writable (n - 1) x))"
| "writable n (JObj ms) = (0 < n \<and> (\<forall>(k, v) \<in> set ms. writable (n - 1) v))"
| "writable n v = True"

lemma scan_number:
  "number_run n s = Some m \<Longrightarrow> scan_run s (InNumber n raw, fs) = Some (InNumber m (rev s @ raw), fs)"
proof (induction s arbitrary: n raw)
  case (Cons c s)
  then show ?case by (cases "number_step n c") simp_all
qed simp

text \<open>What may follow a value\<close>
definition delimiter :: "char \<Rightarrow> bool" where
  "delimiter c \<longleftrightarrow> c \<in> {CHR '','', CHR '']'', CHR ''}'', CHR '' ''}"

lemma delimiter_number: "delimiter c \<Longrightarrow> number_step m c = None"
  by (cases m) (auto simp: delimiter_def is_digit19_def is_digit_def byte_of_def)

lemma deliver_cases:
  assumes "deliver v fs = Some st"
  obtains "fst st = EndValue" | u where "fst st = EndTop u"
  using assms by (cases fs; cases "hd fs") auto

lemma after_deliver: "Option.bind (deliver v fs) (after_value c) = Option.bind (deliver v fs) (scan_step c)"
proof (cases "deliver v fs")
  case (Some st)
  then show ?thesis by (cases st) (auto elim: deliver_cases)
qed simp

lemma scan_run_Cons_append:
  "scan_run (s @ c # t) st = Option.bind (scan_run (s @ [c]) st) (scan_run t)"
  by (metis append.assoc append_Cons append_Nil scan_run_append)

lemma scan_after:
  assumes "scan_run (s @ [c]) st = scan_step c st1" "scan_step c st1 = Some st2"
  shows "scan_run (s @ c # t) st = scan_run t st2"
  using scan_run_Cons_append[of s c t st] assms by simp

lemma scan_run_single [simp]: "scan_run [c] = scan_step c"
  by (rule ext) simp

definition scans :: "nat \<Rightarrow> json \<Rightarrow> bool" where
  "scans n v \<longleftrightarrow> (\<forall>fs c. n + length fs \<le> max_nesting \<longrightarrow> delimiter c \<longrightarrow>
     scan_run (json_text v @ [c]) (BeginValue, fs) = Option.bind (deliver (json_norm v) fs) (scan_step c))"

lemma scans_delivered:
  assumes "\<And>fs. n + length fs \<le> max_nesting \<Longrightarrow> scan_run (json_text v) (BeginValue, fs) = deliver (json_norm v) fs"
  shows "scans n v"
  using assms by (simp add: scans_def scan_run_append)

lemma delimiters [simp]: "delimiter (CHR '','')" "delimiter (CHR '']'')" "delimiter (CHR ''}'')" "delimiter (CHR '' '')"
  by (simp_all add: delimiter_def)

lemma scan_elements:
  assumes "xs \<noteq> []" "\<forall>x \<in> set xs. scans n x" "n + Suc (length fs) \<le> max_nesting"
  shows "scan_run (join_with '','' (map json_text xs) @ '']'') (BeginValue, ArrFrame acc # fs) =
    deliver (JArr (rev acc @ map json_norm xs)) fs"
  using assms(1,2)
proof (induction xs arbitrary: acc)
  case (Cons x xs)
  have one: "scan_run (json_text x @ [c]) (BeginValue, ArrFrame acc # fs) =
      scan_step c (EndValue, ArrFrame (json_norm x # acc) # fs)" if "delimiter c" for c
    using Cons.prems(2) assms(3) that by (simp add: scans_def)
  show ?case
  proof (cases xs)
    case Nil
    then show ?thesis
      by (simp add: one after_value_def is_json_space_def end_value_def)
  next
    case (Cons y ys)
    then have "scan_run (join_with '','' (map json_text xs) @ '']'') (BeginValue, ArrFrame (json_norm x # acc) # fs) =
        deliver (JArr (rev (json_norm x # acc) @ map json_norm xs)) fs"
      using Cons.prems by (intro Cons.IH) simp_all
    moreover have "join_with '','' (map json_text (x # xs)) @ '']'' =
        json_text x @ CHR '','' # (join_with '','' (map json_text xs) @ '']'')"
      using Cons by simp
    moreover have "scan_step CHR '','' (EndValue, ArrFrame (json_norm x # acc) # fs) =
        Some (BeginValue, ArrFrame (json_norm x # acc) # fs)"
      by (simp add: after_value_def is_json_space_def end_value_def)
    ultimately show ?thesis
      using scan_after[OF one[OF delimiters(1)]] by (simp only:) simp
  qed
qed simp

lemma scan_members:
  assumes "ms \<noteq> []" "\<forall>(k, v) \<in> set ms. scans n v" "n + Suc (length fs) \<le> max_nesting"
  shows "scan_run (join_with '','' (map (\<lambda>(k, v). json_string k @ '':'' @ json_text v) ms) @ ''}'')
      (BeginString, ObjFrame acc # fs) =
    deliver (JObj (rev acc @ map (\<lambda>(k, v). (to_valid k, json_norm v)) ms)) fs"
  using assms(1,2)
proof (induction ms arbitrary: acc)
  case (Cons m ms)
  obtain k v where m: "m = (k, v)" by force
  have one: "scan_run ((json_string k @ '':'' @ json_text v) @ [c]) (BeginString, ObjFrame acc # fs) =
      scan_step c (EndValue, ObjFrame ((to_valid k, json_norm v) # acc) # fs)" if "delimiter c" for c
    using Cons.prems(2) assms(3) that
    by (simp add: m scans_def scan_run_append scan_json_string is_json_space_def)
  show ?case
  proof (cases ms)
    case Nil
    then show ?thesis
      using one[of "CHR ''}''"] by (simp add: m after_value_def is_json_space_def end_value_def)
  next
    case (Cons y ys)
    let ?text = "\<lambda>ms. join_with '','' (map (\<lambda>(k, v). json_string k @ '':'' @ json_text v) ms) @ ''}''"
    have "scan_run (?text ms) (BeginString, ObjFrame ((to_valid k, json_norm v) # acc) # fs) =
        deliver (JObj (rev ((to_valid k, json_norm v) # acc) @ map (\<lambda>(k, v). (to_valid k, json_norm v)) ms)) fs"
      using Cons Cons.prems by (intro Cons.IH) simp_all
    moreover have "?text (m # ms) = (json_string k @ '':'' @ json_text v) @ CHR '','' # ?text ms"
      using Cons by (simp add: m)
    moreover have "scan_step CHR '','' (EndValue, ObjFrame ((to_valid k, json_norm v) # acc) # fs) =
        Some (BeginString, ObjFrame ((to_valid k, json_norm v) # acc) # fs)"
      by (simp add: after_value_def is_json_space_def end_value_def)
    ultimately show ?thesis
      using scan_after[OF one[OF delimiters(1)]] by (simp only:) (simp add: m)
  qed
qed simp

text \<open>The text of a value starts neither with a space nor with a closing bracket.\<close>
lemma json_text_start:
  assumes "writable n v"
  obtains c s where "json_text v = c # s" "c \<noteq> CHR '']''" "\<not> is_json_space c"
proof (cases v)
  case (JNum t)
  with assms obtain c s where "t = c # s" "number_start c \<noteq> None" by (auto elim: number_textE)
  moreover from this have "c \<noteq> CHR '']''" "\<not> is_json_space c"
    using number_start_begins by auto
  ultimately show thesis using JNum that by simp
next
  case (JBool b)
  then show thesis by (cases b) (simp_all add: is_json_space_def that)
qed (simp_all add: json_string_def is_json_space_def that)

lemma begin_or_empty:
  assumes "writable n v"
  shows "scan_run (json_text v @ s) (BeginValueOrEmpty, fs) = scan_run (json_text v @ s) (BeginValue, fs)"
proof -
  obtain c t where "json_text v = c # t" "c \<noteq> CHR '']''" "\<not> is_json_space c" using json_text_start[OF assms] .
  then show ?thesis by simp
qed

lemma scan_json_array:
  assumes "\<forall>x \<in> set xs. writable n x \<and> scans n x" "n + Suc (length fs) \<le> max_nesting"
  shows "scan_run (json_text (JArr xs)) (BeginValue, fs) = deliver (json_norm (JArr xs)) fs"
proof -
  have start: "scan_step CHR ''['' (BeginValue, fs) = Some (BeginValueOrEmpty, ArrFrame [] # fs)"
    using assms(2) by (simp add: is_json_space_def begin_value_def open_frame_def)
  have "scan_run (join_with '','' (map json_text xs) @ '']'') (BeginValueOrEmpty, ArrFrame [] # fs) =
      deliver (JArr (map json_norm xs)) fs"
  proof (cases xs)
    case Nil
    then show ?thesis by (simp add: end_value_def is_json_space_def)
  next
    case (Cons y ys)
    then obtain s where s: "join_with '','' (map json_text xs) @ '']'' = json_text y @ s"
      by (cases ys) auto
    moreover have "writable n y" using assms(1) Cons by simp
    ultimately show ?thesis
      using scan_elements[of xs n fs "[]"] assms Cons begin_or_empty[of n y s] by simp
  qed
  with start show ?thesis by simp
qed

lemma scan_json_object:
  assumes "\<forall>(k, v) \<in> set ms. scans n v" "n + Suc (length fs) \<le> max_nesting"
  shows "scan_run (json_text (JObj ms)) (BeginValue, fs) = deliver (json_norm (JObj ms)) fs"
proof -
  let ?text = "join_with '','' (map (\<lambda>(k, v). json_string k @ '':'' @ json_text v) ms) @ ''}''"
  have start: "scan_step CHR ''{'' (BeginValue, fs) = Some (BeginStringOrEmpty, ObjFrame [] # fs)"
    using assms(2) by (simp add: is_json_space_def begin_value_def open_frame_def)
  have "scan_run ?text (BeginStringOrEmpty, ObjFrame [] # fs) =
      deliver (JObj (map (\<lambda>(k, v). (to_valid k, json_norm v)) ms)) fs"
  proof (cases ms)
    case Nil
    then show ?thesis by (simp add: end_value_def is_json_space_def)
  next
    case (Cons y ys)
    then obtain s where s: "?text = quote_char # s"
      by (cases y; cases ys) (simp_all add: json_string_def)
    have "scan_run ?text (BeginString, ObjFrame [] # fs) =
        deliver (JObj (map (\<lambda>(k, v). (to_valid k, json_norm v)) ms)) fs"
      using scan_members[of ms n fs "[]"] assms Cons by simp
    then show ?thesis unfolding s by (simp add: is_json_space_def)
  qed
  moreover have "json_text (JObj ms) = CHR ''{'' # ?text" by simp
  ultimately show ?thesis using start by simp
qed

lemma scan_json_text: "writable n v \<Longrightarrow> scans n v"
proof (induction v arbitrary: n rule: json_text.induct)
  case (3 s)
  then obtain d t k m where s: "s = d # t" and k: "number_start d = Some k" and m: "number_run k t = Some m"
    "number_complete m" by (auto elim: number_textE)
  have run: "scan_run s (BeginValue, fs) = Some (InNumber m (rev s), fs)" for fs
    using scan_number[OF m(1), of "[d]" fs] by (simp add: s number_start_begins[OF k])
  have "scan_run (s @ [c]) (BeginValue, fs) = Option.bind (deliver (JNum s) fs) (scan_step c)"
    if "delimiter c" for c fs
    using delimiter_number[OF that, of m] m(2) after_deliver[of "JNum s" fs c]
    by (simp add: scan_run_append run del: after_value_def)
  then show ?case by (simp add: scans_def)
next
  case (4 s)
  then show ?case by (simp add: scans_def scan_run_append scan_json_string_value scan_run_single)
next
  case (5 xs)
  then have "\<forall>x \<in> set xs. writable (n - 1) x \<and> scans (n - 1) x" by simp
  with 5 show ?case by (intro scans_delivered scan_json_array[where n = "n - 1"]) simp_all
next
  case (6 ms)
  have "\<forall>(k, v) \<in> set ms. scans (n - 1) v"
  proof (intro ballI, clarify)
    fix k v assume kv: "(k, v) \<in> set ms"
    with "6.prems" have "writable (n - 1) v" by auto
    then show "scans (n - 1) v" using "6.IH"[OF kv refl] by simp
  qed
  with "6.prems" show ?case by (intro scans_delivered scan_json_object[where n = "n - 1"]) simp_all
qed (simp_all add: scans_def scan_run_append is_json_space_def begin_value_def)

lemma json_roundtrip:
  assumes "writable max_nesting v"
  shows "json_parse (json_text v) = Some (json_norm v)"
proof -
  have "scan_run (json_text v @ '' '') (BeginValue, []) = Some (EndTop (json_norm v), [])"
    using scan_json_text[OF assms] by (simp add: scans_def after_value_def is_json_space_def)
  then obtain m fs where run: "scan_run (json_text v) (BeginValue, []) = Some (m, fs)"
    and space: "scan_step CHR '' '' (m, fs) = Some (EndTop (json_norm v), [])"
    by (auto simp: scan_run_append split: bind_splits)
  have "end_of_text (m, fs) = Some (json_norm v)"
    using space by (cases m) (simp_all add: end_of_text_def after_value_def is_json_space_def)
  with run show ?thesis by (simp add: json_parse_def)
qed

end
