(* ===== verification/LLM_Decider.thy ===== *)
theory LLM_Decider
  imports Narrator Decider Json_Round_Trip
begin

section \<open>The LLM decider\<close>

text \<open>
  \<^verbatim>\<open>internal/selfheal/llm_decider.go\<close>: the prompt with the menu of actions, the call to the
  provider, the extraction of the first balanced brace block from the reply, and the validation
  of the chosen action. Whatever the provider answers, the decider keeps the contract of the
  locale \<open>decider\<close>: it is interpreted here.
\<close>

record llm_decider_config =
  ld_provider :: narrator_provider
  ld_model :: string
  ld_api_key :: string
  ld_base_url :: string

definition decider_max_tokens :: int where "decider_max_tokens = 256"

definition NewLLMDecider ::
  "('l) go_lib_scheme \<Rightarrow> llm_decider_config \<Rightarrow> go_error + llm_decider_config" where
  "NewLLMDecider L cfg =
     (if ld_api_key cfg = '''' then Inl (errorf ''llm decider: missing API key'')
      else if ld_model cfg = '''' then Inl (errorf ''llm decider: missing model'')
      else if ld_provider cfg = NarratorProviderAnthropic then
        Inr (if ld_base_url cfg = '''' then cfg\<lparr>ld_base_url := defaultAnthropicBaseURL\<rparr> else cfg)
      else if ld_provider cfg = NarratorProviderOpenAI then
        Inr (if ld_base_url cfg = '''' then cfg\<lparr>ld_base_url := defaultOpenAIBaseURL\<rparr> else cfg)
      else Inl (errorf (''llm decider: unknown provider '' @ lib_quote L (ld_provider cfg))))"

subsection \<open>The prompt\<close>

definition actionDescription :: "self_heal_action \<Rightarrow> string" where
  "actionDescription a =
     (if a = SelfHealDeletePod then
        ''Force-delete the most recent dead pod so its controller recreates it.''
      else if a = SelfHealRestartWorkload then
        ''Trigger a rollout restart on the owning Deployment/StatefulSet.''
      else if a = SelfHealBumpMemory then
        ''Increase the container'' @ [CHR 0x27] @ ''s memory limit (only sensible when cause is OOM).''
      else if a = SelfHealRollbackDeployment then
        ''Roll back the Deployment to the previous ReplicaSet'' @ [CHR 0x27] @ ''s pod template.''
      else '''')"

definition menu_line :: "self_heal_action \<Rightarrow> string" where
  "menu_line a = ''  - '' @ a @ '': '' @ actionDescription a @ nl"

definition buildHealPrompt :: "obituary \<Rightarrow> self_heal_action list \<Rightarrow> string" where
  \<open>buildHealPrompt obit allowed =
     (let subj = sp_subject (obit_spec obit); st = obit_status obit in
      ''You are KubeCoroner'' @ [CHR 0x27] @ ''s remediation planner. Pick ONE action to remediate '' @
      ''the following Kubernetes workload death, or decline if no action is appropriate. '' @
      ''Reply with strict JSON, no prose: '' @
      ''{"action": "<one of the allowed actions or empty string>", "reason": "<one short sentence>"}'' @
      nl @ nl @ ''Allowed actions:'' @ nl @
      concat (map menu_line allowed) @
      nl @ ''Death:'' @ nl @
      ''  Subject: '' @ sub_kind subj @ ''/'' @ sub_name subj @ '' in '' @ sub_namespace subj @ nl @
      ''  Cause: '' @ st_cause_of_death st @ nl @
      ''  Confidence: '' @ confidence_text (st_confidence st) @ nl @
      ''  Occurrences: '' @ show_int32 (st_occurrences st) @ nl @
      (if st_summary st \<noteq> '''' then ''  Summary: '' @ st_summary st @ nl else '''') @
      (case st_exit_code st of None \<Rightarrow> '''' | Some c \<Rightarrow> ''  ExitCode: '' @ show_int32 c @ nl) @
      (if st_oom_killed st then ''  OOMKilled: true'' @ nl else '''') @
      (let tail = trim_space (st_log_tail st) in
       if tail \<noteq> '''' then ''  LogTail (truncated):'' @ nl @ truncate_tail tail 1500 @ nl else ''''))\<close>

subsection \<open>The first balanced block of braces\<close>

text \<open>The scan from the first opening brace; \<open>depth\<close> is the source's counter.\<close>
fun scan_object :: "int \<Rightarrow> string \<Rightarrow> string option" where
  "scan_object depth [] = None"
| "scan_object depth (c # s) =
     (if c = CHR ''{'' then map_option ((#) c) (scan_object (depth + 1) s)
      else if c = CHR ''}'' then
        (if depth - 1 = 0 then Some [c] else map_option ((#) c) (scan_object (depth - 1) s))
      else map_option ((#) c) (scan_object depth s))"

definition extractJSONObject :: "string \<Rightarrow> string" where
  "extractJSONObject s =
     (let rest = dropWhile (\<lambda>c. c \<noteq> CHR ''{'') s in
      if rest = [] then '''' else or_default (scan_object 0 rest) '''')"

text \<open>Opening minus closing braces\<close>
definition brace_weight :: "char \<Rightarrow> int" where
  "brace_weight c = (if c = CHR ''{'' then 1 else if c = CHR ''}'' then -1 else 0)"

fun brace_depth :: "string \<Rightarrow> int" where
  "brace_depth [] = 0"
| "brace_depth (c # s) = brace_weight c + brace_depth s"

definition first_balanced :: "string \<Rightarrow> bool" where
  "first_balanced r \<longleftrightarrow> r \<noteq> [] \<and> hd r = CHR ''{'' \<and> brace_depth r = 0 \<and>
     (\<forall>n. 0 < n \<longrightarrow> n < length r \<longrightarrow> 0 < brace_depth (take n r))"

lemma scan_object_Cons:
  assumes "0 < d"
  shows "scan_object d (c # s) =
    (if d + brace_weight c = 0 then Some [c] else map_option ((#) c) (scan_object (d + brace_weight c) s))"
  using assms by (auto simp: brace_weight_def)

lemma brace_weight_pos: "0 < d \<Longrightarrow> d + brace_weight c \<noteq> 0 \<Longrightarrow> 0 < d + brace_weight c"
  by (auto simp: brace_weight_def split: if_splits)

lemma positive_prefixes_Cons:
  "0 < d \<Longrightarrow> (\<forall>n < length (c # r). 0 < d + brace_depth (take n (c # r))) \<longleftrightarrow>
     (\<forall>n < length r. 0 < d + brace_weight c + brace_depth (take n r))"
  by (simp add: All_less_Suc2 add.assoc)

lemma scan_object_Some:
  "0 < d \<Longrightarrow> scan_object d s = Some r \<longleftrightarrow>
     (\<exists>v. s = r @ v) \<and> d + brace_depth r = 0 \<and> (\<forall>n < length r. 0 < d + brace_depth (take n r))"
proof (induction s arbitrary: d r)
  case Nil
  then show ?case by (cases r) simp_all
next
  case (Cons c s)
  note d = \<open>0 < d\<close>
  show ?case
  proof (cases r)
    case Nil
    with d show ?thesis by (simp add: scan_object_Cons del: scan_object.simps)
  next
    case r: (Cons x r')
    let ?d = "d + brace_weight c"
    note prefixes = positive_prefixes_Cons[OF d, of x r']
    show ?thesis
    proof (cases "?d = 0")
      case True
      have "\<not> (\<forall>n < length r'. 0 < ?d + brace_depth (take n r'))" if "r' \<noteq> []"
        using True that by (auto intro: exI[of _ 0])
      with True show ?thesis
        unfolding r prefixes scan_object_Cons[OF d] by auto
    next
      case False
      from brace_weight_pos[OF d False] have "0 < ?d" .
      from Cons.IH[OF this, of r'] False show ?thesis
        unfolding r prefixes scan_object_Cons[OF d] by auto
    qed
  qed
qed

lemma first_balanced_Cons:
  "first_balanced r \<longleftrightarrow> (\<exists>r'. r = CHR ''{'' # r' \<and> 1 + brace_depth r' = 0 \<and>
     (\<forall>n < length r'. 0 < 1 + brace_depth (take n r')))"
proof (cases r)
  case (Cons c r')
  have "(\<forall>n. 0 < n \<longrightarrow> n < length r \<longrightarrow> 0 < brace_depth (take n r)) \<longleftrightarrow>
      (\<forall>m < length r'. 0 < brace_depth (take (Suc m) r))"
    unfolding Cons using Suc_less_eq gr0_conv_Suc by (metis length_Cons)
  then show ?thesis unfolding first_balanced_def by (auto simp: Cons brace_weight_def)
qed (simp add: first_balanced_def)

lemma dropWhile_brace: "\<exists>u. s = u @ dropWhile (\<lambda>c. c \<noteq> b) s \<and> b \<notin> set u"
proof (intro exI conjI)
  show "s = takeWhile (\<lambda>c. c \<noteq> b) s @ dropWhile (\<lambda>c. c \<noteq> b) s" by simp
  show "b \<notin> set (takeWhile (\<lambda>c. c \<noteq> b) s)" by (auto dest: set_takeWhileD)
qed

lemma dropWhile_brace_eq: "b \<notin> set u \<Longrightarrow> dropWhile (\<lambda>c. c \<noteq> b) (u @ b # v) = b # v"
  by (induction u) auto

lemma extract_iff:
  assumes "r \<noteq> ''''"
  shows "extractJSONObject s = r \<longleftrightarrow>
    (\<exists>u v. s = u @ r @ v \<and> CHR ''{'' \<notin> set u \<and> first_balanced r)"
proof
  assume e: "extractJSONObject s = r"
  let ?rest = "dropWhile (\<lambda>c. c \<noteq> CHR ''{'') s"
  have ne: "?rest \<noteq> []" and sc: "scan_object 0 ?rest = Some r"
    using e assms by (auto simp: extractJSONObject_def Let_def or_default_def split: if_splits option.splits)
  obtain t where t: "?rest = CHR ''{'' # t" using ne hd_dropWhile[OF ne] by (cases ?rest) auto
  with sc obtain r' where r': "r = CHR ''{'' # r'" "scan_object 1 t = Some r'" by auto
  obtain u where u: "s = u @ ?rest" "CHR ''{'' \<notin> set u"
    using dropWhile_brace[of s "CHR ''{''"] by blast
  from r'(2) obtain v where v: "t = r' @ v" "1 + brace_depth r' = 0"
    "\<forall>n < length r'. 0 < 1 + brace_depth (take n r')"
    by (subst (asm) scan_object_Some) auto
  have "s = u @ r @ v" using u(1) t v(1) r'(1) by simp
  moreover have "first_balanced r" using r'(1) v by (auto simp: first_balanced_Cons)
  ultimately show "\<exists>u v. s = u @ r @ v \<and> CHR ''{'' \<notin> set u \<and> first_balanced r" using u(2) by blast
next
  assume "\<exists>u v. s = u @ r @ v \<and> CHR ''{'' \<notin> set u \<and> first_balanced r"
  then obtain u v r' where s: "s = u @ r @ v" "CHR ''{'' \<notin> set u" and
    r: "r = CHR ''{'' # r'" "1 + brace_depth r' = 0" "\<forall>n < length r'. 0 < 1 + brace_depth (take n r')"
    unfolding first_balanced_Cons by blast
  have "scan_object 1 (r' @ v) = Some r'"
    using r(2,3) scan_object_Some[of 1 "r' @ v" r'] by auto
  moreover have "dropWhile (\<lambda>c. c \<noteq> CHR ''{'') s = CHR ''{'' # r' @ v"
    using s r(1) dropWhile_brace_eq by simp
  ultimately show "extractJSONObject s = r"
    using r(1) by (simp add: extractJSONObject_def Let_def)
qed

subsection \<open>Deciding\<close>

record decision_envelope =
  de_action :: string
  de_reason :: string

definition decision_envelope_field :: "string \<Rightarrow> decision_envelope decoder" where
  "decision_envelope_field k =
     (if same_name k ''action'' then in_field de_action de_action_update decode_string
      else if same_name k ''reason'' then in_field de_reason de_reason_update decode_string
      else skip_value)"

definition decisionEnvelope :: "decision_envelope decoder" where
  "decisionEnvelope = decode_struct decision_envelope_field"

definition parseDecisionJSON ::
  "('l) go_lib_scheme \<Rightarrow> string \<Rightarrow> go_error + (self_heal_action \<times> string)" where
  "parseDecisionJSON L text =
     (let body = extractJSONObject text in
      if body = '''' then Inl (errorf ''no JSON object found in response'')
      else (case unmarshal decisionEnvelope \<lparr>de_action = '''', de_reason = ''''\<rparr> body of
        None \<Rightarrow> Inl (lib_json_error L ''decisionEnvelope'' body)
      | Some env \<Rightarrow> Inr (trim_space (de_action env), trim_space (de_reason env))))"

text \<open>The requests and replies of the decider; the error of a reply is a struct of its message.\<close>
definition anthropicReq :: "string \<Rightarrow> string \<Rightarrow> json" where
  "anthropicReq model prompt =
     JObj [(''model'', JStr model), (''max_tokens'', JNum (show_int decider_max_tokens)),
       (''messages'', JArr [JObj [(''role'', JStr ''user''), (''content'', JStr prompt)]])]"

definition openAIReq :: "string \<Rightarrow> string \<Rightarrow> json" where
  "openAIReq model prompt =
     JObj [(''model'', JStr model),
       (''messages'', JArr [
          JObj [(''role'', JStr ''system''),
            (''content'', JStr ''Reply ONLY with the requested JSON object. Do not include prose.'')],
          JObj [(''role'', JStr ''user''), (''content'', JStr prompt)]])]"

definition error_message :: "string decoder" where
  "error_message = decode_struct (\<lambda>k. if same_name k ''message'' then decode_string else skip_value)"

definition anthropicResp :: "string anthropic_reply decoder" where
  "anthropicResp = decode_struct (anthropic_reply_field error_message '''')"

definition openAIResp :: "string openai_reply decoder" where
  "openAIResp = decode_struct (openai_reply_field error_message '''')"

definition anthropic_decision :: "('l) go_lib_scheme \<Rightarrow> http_response \<Rightarrow> go_error + string" where
  "anthropic_decision L resp =
     (if 300 \<le> rsp_status_code resp then
        Inl (errorf (''anthropic '' @ show_int (rsp_status_code resp) @ '': '' @
          truncate_tail (rsp_body resp) 200))
      else (case unmarshal anthropicResp zero_anthropic (rsp_body resp) of
        None \<Rightarrow> Inl (lib_json_error L ''anthropicResp'' (rsp_body resp))
      | Some out \<Rightarrow>
          (case ar_error out of
             Some message \<Rightarrow> Inl (errorf (''anthropic: '' @ message))
           | None \<Rightarrow> Inr (text_blocks (fst (ar_content out))))))"

definition openai_decision :: "('l) go_lib_scheme \<Rightarrow> http_response \<Rightarrow> go_error + string" where
  "openai_decision L resp =
     (if 300 \<le> rsp_status_code resp then
        Inl (errorf (''openai '' @ show_int (rsp_status_code resp) @ '': '' @
          truncate_tail (rsp_body resp) 200))
      else (case unmarshal openAIResp zero_openai (rsp_body resp) of
        None \<Rightarrow> Inl (lib_json_error L ''openAIResp'' (rsp_body resp))
      | Some out \<Rightarrow>
          (case oa_error out of
             Some message \<Rightarrow> Inl (errorf (''openai: '' @ message))
           | None \<Rightarrow>
               let choices = fst (oa_choices out) in
               if length choices = 0 then Inr '''' else Inr (cm_content (choices ! 0)))))"

definition callAnthropic ::
  "('l) go_lib_scheme \<Rightarrow> ('w, 'z) cluster_client_scheme \<Rightarrow> llm_decider_config \<Rightarrow> string \<Rightarrow>
   ('w, go_error + string) state" where
  "callAnthropic L K cfg prompt = do {
     r \<leftarrow> http_post L K (ld_base_url cfg @ ''/v1/messages'') (anthropic_headers (ld_api_key cfg))
       (json_text (anthropicReq (ld_model cfg) prompt));
     case r of Inl err \<Rightarrow> ret (Inl err) | Inr resp \<Rightarrow> ret (anthropic_decision L resp)
   }"

definition callOpenAI ::
  "('l) go_lib_scheme \<Rightarrow> ('w, 'z) cluster_client_scheme \<Rightarrow> llm_decider_config \<Rightarrow> string \<Rightarrow>
   ('w, go_error + string) state" where
  "callOpenAI L K cfg prompt = do {
     r \<leftarrow> http_post L K (ld_base_url cfg @ ''/v1/chat/completions'') (openai_headers (ld_api_key cfg))
       (json_text (openAIReq (ld_model cfg) prompt));
     case r of Inl err \<Rightarrow> ret (Inl err) | Inr resp \<Rightarrow> ret (openai_decision L resp)
   }"

definition callProvider ::
  "('l) go_lib_scheme \<Rightarrow> ('w, 'z) cluster_client_scheme \<Rightarrow> llm_decider_config \<Rightarrow> string \<Rightarrow>
   ('w, go_error + string) state" where
  "callProvider L K cfg prompt =
     (if ld_provider cfg = NarratorProviderAnthropic then callAnthropic L K cfg prompt
      else if ld_provider cfg = NarratorProviderOpenAI then callOpenAI L K cfg prompt
      else ret (Inl (errorf (''unknown provider '' @ lib_quote L (ld_provider cfg)))))"

text \<open>What \<^verbatim>\<open>Decide\<close> makes of the provider's answer\<close>
definition llm_verdict ::
  "('l) go_lib_scheme \<Rightarrow> self_heal_action list \<Rightarrow> go_error + string \<Rightarrow> decision" where
  "llm_verdict L menu r =
     (case r of
        Inl err \<Rightarrow> Skip (''llm error: '' @ emsg err) ''llm''
      | Inr raw \<Rightarrow>
          (case parseDecisionJSON L raw of
             Inl perr \<Rightarrow> Skip (''llm parse: '' @ emsg perr) ''llm''
           | Inr (action, reason) \<Rightarrow>
               if action = '''' then Skip (''llm declined to act: '' @ reason) ''llm''
               else if \<not> actionAllowed action menu then
                 Skip (''llm picked unsupported/disallowed action '' @ action) ''llm''
               else \<lparr>d_action = action, d_reason = ''llm: '' @ reason, d_decided_by = ''llm''\<rparr>))"

definition llm_decide ::
  "('l) go_lib_scheme \<Rightarrow> ('w, 'z) cluster_client_scheme \<Rightarrow> llm_decider_config \<Rightarrow> 'w decider_method" where
  "llm_decide L K cfg obit allowed =
     (let menu = applicableActions (subject_kind obit) allowed in
      if length menu = 0 then
        ret (Skip (''no allowlisted action is supported on kind '' @ subject_kind obit) ''llm'')
      else do {
        r \<leftarrow> callProvider L K cfg (buildHealPrompt obit menu);
        ret (llm_verdict L menu r)
      })"

lemma llm_verdict_sound: "d_action (llm_verdict L menu r) \<noteq> '''' \<Longrightarrow> d_action (llm_verdict L menu r) \<in> set menu"
proof (cases r)
  case (Inr raw)
  then show "d_action (llm_verdict L menu r) \<noteq> '''' \<Longrightarrow> d_action (llm_verdict L menu r) \<in> set menu"
    by (cases "parseDecisionJSON L raw") (simp_all add: llm_verdict_def split: prod.splits if_splits)
qed (simp add: llm_verdict_def)

interpretation llm: decider "llm_decide L K cfg" for L K cfg
proof unfold_locales
  fix obit allowed w d
  assume d: "fst (run_state (llm_decide L K cfg obit allowed) w) = d" "d_action d \<noteq> ''''"
  then obtain r where "d = llm_verdict L (applicableActions (subject_kind obit) allowed) r"
    by (auto simp: llm_decide_def Let_def case_prod_unfold split: if_splits)
  with d(2) show "d_action d \<in> set allowed \<and> kindSupports (subject_kind obit) (d_action d)"
    using llm_verdict_sound[of L "applicableActions (subject_kind obit) allowed" r]
    by (simp add: set_applicableActions)
qed

lemma llm_decide_frame:
  assumes "world_frame R" "\<And>rq. state_io_rel R (k_http_do K rq)"
  shows "state_io_rel R (llm_decide L K cfg obit allowed)"
  unfolding llm_decide_def callProvider_def callAnthropic_def callOpenAI_def Let_def
  by (intro frame_intros http_post_frame assms)

lemma NewLLMDecider_complete:
  assumes "NewLLMDecider L cfg = Inr c"
  shows "ld_api_key c = ld_api_key cfg \<and> ld_api_key c \<noteq> '''' \<and> ld_model c \<noteq> '''' \<and>
    ld_provider c = ld_provider cfg \<and> ld_base_url c \<noteq> ''''"
  using assms
  by (auto simp: NewLLMDecider_def defaultAnthropicBaseURL_def defaultOpenAIBaseURL_def split: if_splits)

end
