(* ===== verification/Config_Resolve.thy ===== *)
theory Config_Resolve
  imports Engine LLM_Decider
begin

section \<open>Resolving the policy, the narrator and the decider\<close>

text \<open>
  The rest of \<^verbatim>\<open>internal/controller/koroner.go\<close> and
  \<^verbatim>\<open>internal/bootstrap/defaultconfig.go\<close>: which KoronerConfig applies to a namespace,
  whether the namespace is watched, the narrator and heal decider a policy stands for, with
  their fall backs, and the seeding of the default config. The decider factory is shown to
  produce deciders that keep the contract of \<open>decider\<close> whatever the secrets and the provider
  answer, which is what the engine's safety asks of its factory.
\<close>

definition resolveConfig ::
  "('w, 'z) cluster_client_scheme \<Rightarrow> string \<Rightarrow> string \<Rightarrow> ('w, koroner_config_spec) state" where
  "resolveConfig K subjectNamespace operatorNamespace = do {
     r \<leftarrow> k_list_configs K subjectNamespace;
     case r of
       Inr (c # _) \<Rightarrow> ret (with_defaults (kc_spec c))
     | _ \<Rightarrow>
         if operatorNamespace \<noteq> '''' \<and> operatorNamespace \<noteq> subjectNamespace then do {
           g \<leftarrow> k_get_config K (operatorNamespace, ''default'');
           case g of
             Inr c \<Rightarrow> ret (with_defaults (kc_spec c))
           | Inl err \<Rightarrow> ret DefaultKoronerConfigSpec
         }
         else ret DefaultKoronerConfigSpec
   }"

definition namespaceWatched ::
  "('l) go_lib_scheme \<Rightarrow> ('w, 'z) cluster_client_scheme \<Rightarrow> koroner_config_spec \<Rightarrow> string \<Rightarrow>
   ('w, bool) state" where
  "namespaceWatched L K spec ns =
     (case cfg_namespace_selector spec of
        None \<Rightarrow> ret True
      | Some ls \<Rightarrow>
          (case lib_selector L ls of
             Inl err \<Rightarrow> ret True
           | Inr sel \<Rightarrow>
               if sel_empty sel then ret True
               else do {
                 r \<leftarrow> k_get_namespace_labels K ns;
                 case r of
                   Inl err \<Rightarrow> ret False
                 | Inr lbls \<Rightarrow> ret (sel_matches sel lbls)
               }))"

subsection \<open>API keys\<close>

text \<open>
  The lookup that \<^verbatim>\<open>resolveNarrator\<close> and \<^verbatim>\<open>resolveSelfHealLLM\<close> both do once the
  provider and the reference are present: \<^const>\<open>None\<close> stands for their early returns.
\<close>
definition read_api_key ::
  "('w, 'z) cluster_client_scheme \<Rightarrow> narrator_provider \<Rightarrow> secret_key_ref \<Rightarrow> string \<Rightarrow>
   ('w, string option) state" where
  "read_api_key K provider ref subjectNamespace =
     (let ns = (if skr_namespace ref = '''' then subjectNamespace else skr_namespace ref);
          k = (if skr_key ref = '''' then DefaultSecretKey provider else skr_key ref)
      in if k = '''' then ret None
         else do {
           r \<leftarrow> k_get_secret_data K (ns, skr_name ref);
           case r of
             Inl err \<Rightarrow> ret None
           | Inr data \<Rightarrow>
               let apiKey = trim_space (or_default (data k) '''')
               in if apiKey = '''' then ret None else ret (Some apiKey)
         })"

subsection \<open>The narrator\<close>

definition resolveNarrator ::
  "('l) go_lib_scheme \<Rightarrow> ('w, 'z) cluster_client_scheme \<Rightarrow> narrator_policy \<Rightarrow> string \<Rightarrow>
   narrator option \<Rightarrow> ('w, narrator option) state" where
  "resolveNarrator L K policy subjectNamespace fallback =
     (if \<not> np_enabled policy then ret fallback
      else if np_provider policy = '''' then ret fallback
      else (case np_api_key_secret_ref policy of
        None \<Rightarrow> ret fallback
      | Some ref \<Rightarrow>
          if skr_name ref = '''' then ret fallback
          else do {
            a \<leftarrow> read_api_key K (np_provider policy) ref subjectNamespace;
            case a of
              None \<Rightarrow> ret fallback
            | Some apiKey \<Rightarrow>
                (case NewLLMNarrator L
                   \<lparr>lc_provider = np_provider policy, lc_model = np_model policy,
                    lc_api_key = apiKey, lc_base_url = np_base_url policy\<rparr> of
                   Inl err \<Rightarrow> ret fallback
                 | Inr n \<Rightarrow> ret (Some n))
          }))"

definition runNarrator ::
  "('l) go_lib_scheme \<Rightarrow> ('w, 'z) cluster_client_scheme \<Rightarrow> narrator option \<Rightarrow> verdict \<Rightarrow>
   obituary_status \<Rightarrow> ('w, obituary_status) state" where
  "runNarrator L K n v status =
     (case n of
        None \<Rightarrow> ret status
      | Some nar \<Rightarrow> do {
          r \<leftarrow> Narrate L K nar v (Some status);
          case r of
            Inr text \<Rightarrow> ret (status\<lparr>st_narrative := text\<rparr>)
          | Inl err \<Rightarrow> ret status
        })"

subsection \<open>The decider\<close>

definition resolveSelfHealLLM ::
  "('l) go_lib_scheme \<Rightarrow> ('w, 'z) cluster_client_scheme \<Rightarrow> self_heal_llm_policy \<Rightarrow> string \<Rightarrow>
   ('w, 'w decider_method option) state" where
  "resolveSelfHealLLM L K policy subjectNamespace =
     (if \<not> hl_enabled policy then ret None
      else (case hl_api_key_secret_ref policy of
        None \<Rightarrow> ret None
      | Some ref \<Rightarrow>
          if hl_provider policy = '''' \<or> skr_name ref = '''' then ret None
          else do {
            a \<leftarrow> read_api_key K (hl_provider policy) ref subjectNamespace;
            case a of
              None \<Rightarrow> ret None
            | Some apiKey \<Rightarrow>
                (case NewLLMDecider L
                   \<lparr>ld_provider = hl_provider policy, ld_model = hl_model policy,
                    ld_api_key = apiKey, ld_base_url = hl_base_url policy\<rparr> of
                   Inl err \<Rightarrow> ret None
                 | Inr cfg \<Rightarrow> ret (Some (llm_decide L K cfg)))
          }))"

definition HealDeciderFactory ::
  "('l) go_lib_scheme \<Rightarrow> ('w, 'z) cluster_client_scheme \<Rightarrow> string \<Rightarrow> self_heal_policy \<Rightarrow>
   ('w, 'w decider_method) state" where
  "HealDeciderFactory L K subjectNamespace p = do {
     llm \<leftarrow> resolveSelfHealLLM L K (hp_llm p) subjectNamespace;
     case llm of
       None \<Rightarrow> ret rule_decide
     | Some l \<Rightarrow> ret (composite_decide (Some rule_decide) (Some l))
   }"

lemma resolveSelfHealLLM_cases:
  assumes "run_state (resolveSelfHealLLM L K policy ns) w = (Some l, w')"
  shows "\<exists>cfg. l = llm_decide L K cfg"
  using assms
  by (auto simp: resolveSelfHealLLM_def split: if_splits option.splits prod.splits sum.splits)

text \<open>Every decider the factory hands out, and how its decision comes about\<close>
lemma HealDeciderFactory_cases:
  assumes "run_state (HealDeciderFactory L K ns p) w = (decide, w')"
  obtains "decide = rule_decide"
  | cfg where "decide = composite_decide (Some rule_decide) (Some (llm_decide L K cfg))"
proof -
  obtain llm w1 where r: "run_state (resolveSelfHealLLM L K (hp_llm p) ns) w = (llm, w1)" by force
  show thesis
  proof (cases llm)
    case None
    with assms r that(1) show thesis by (simp add: HealDeciderFactory_def)
  next
    case (Some l)
    with r have "run_state (resolveSelfHealLLM L K (hp_llm p) ns) w = (Some l, w1)" by simp
    from resolveSelfHealLLM_cases[OF this] obtain cfg where "l = llm_decide L K cfg" by blast
    with assms r Some that(2) show thesis by (auto simp: HealDeciderFactory_def)
  qed
qed

lemma HealDeciderFactory_sound: "decider (fst (run_state (HealDeciderFactory L K ns p) w))"
proof -
  obtain decide w' where "run_state (HealDeciderFactory L K ns p) w = (decide, w')" by force
  moreover from this have "decider decide"
  proof (cases rule: HealDeciderFactory_cases)
    case 1
    then show ?thesis by (simp add: rule.decider_axioms)
  next
    case (2 cfg)
    then show ?thesis
      by (auto intro!: decider_composite simp: rule.decider_axioms llm.decider_axioms)
  qed
  ultimately show ?thesis by simp
qed

definition heal_engine :: "('l) go_lib_scheme \<Rightarrow> ('w, 'z) cluster_client_scheme \<Rightarrow> 'w engine" where
  "heal_engine L K = WithDeciderFactory (HealDeciderFactory L K) NewEngine"

lemma sound_factory_heal_engine [simp]: "sound_factory (heal_engine L K)"
  by (simp add: sound_factory_def heal_engine_def WithDeciderFactory_def HealDeciderFactory_sound)

text \<open>A rule that applies decides, LLM or not, and no provider is called.\<close>
lemma factory_rule_first:
  assumes "run_state (HealDeciderFactory L K ns p) w = (decide, w')"
    and "d_action (rule_decision (subject_kind obit) (st_cause_of_death (obit_status obit)) allowed) \<noteq> ''''"
  shows "run_state (decide obit allowed) u =
    (rule_decision (subject_kind obit) (st_cause_of_death (obit_status obit)) allowed, u)"
  using assms(1)
proof (cases rule: HealDeciderFactory_cases)
  case 1
  then show ?thesis by simp
next
  case (2 cfg)
  then show ?thesis using assms(2) by (simp add: composite_primary_acts)
qed

subsection \<open>The resolved policy\<close>

lemma resolveConfig_populated: "populated (fst (run_state (resolveConfig K ns op) w))"
  by (auto simp: resolveConfig_def DefaultKoronerConfigSpec_def with_defaults_populates
      split: sum.splits list.splits prod.splits)

lemma runNarrator_keeps:
  assumes "run_state (runNarrator L K n v status) w = (status', w')"
  shows "\<exists>text. status' = status\<lparr>st_narrative := text\<rparr>"
proof -
  have "status' = status \<or> (\<exists>text. status' = status\<lparr>st_narrative := text\<rparr>)"
    using assms by (auto simp: runNarrator_def split: option.splits prod.splits sum.splits)
  then show ?thesis
  proof
    assume "status' = status"
    then have "status' = status\<lparr>st_narrative := st_narrative status\<rparr>" by simp
    then show ?thesis by blast
  qed
qed

lemma resolveNarrator_cases:
  assumes "run_state (resolveNarrator L K policy ns fallback) w = (n, w')"
  shows "n = fallback \<or> (np_enabled policy \<and> (\<exists>nar. n = Some nar \<and> nar_api_key nar \<noteq> ''''))"
proof (cases "n = fallback")
  case False
  with assms obtain cfg nar where "np_enabled policy" "NewLLMNarrator L cfg = Inr nar" "n = Some nar"
    by (auto simp: resolveNarrator_def split: if_splits option.splits prod.splits sum.splits)
  with NewLLMNarrator_complete show ?thesis by blast
qed simp

lemma read_api_key_frame:
  "world_frame R \<Longrightarrow> (\<And>k. state_io_rel R (k_get_secret_data K k)) \<Longrightarrow>
   state_io_rel R (read_api_key K provider ref ns)"
  unfolding read_api_key_def Let_def by (intro frame_intros)

lemma resolveNarrator_frame:
  assumes "world_frame R" "\<And>k. state_io_rel R (k_get_secret_data K k)"
  shows "state_io_rel R (resolveNarrator L K policy ns fallback)"
  unfolding resolveNarrator_def
  by (intro frame_intros assms(1) read_api_key_frame assms)

lemma HealDeciderFactory_frame:
  assumes "world_frame R" "\<And>k. state_io_rel R (k_get_secret_data K k)"
  shows "state_io_rel R (HealDeciderFactory L K ns p)"
  unfolding HealDeciderFactory_def resolveSelfHealLLM_def
  by (intro frame_intros assms(1) read_api_key_frame assms)

lemma resolveConfig_frame:
  assumes "world_frame R" "\<And>ns. state_io_rel R (k_list_configs K ns)" "\<And>k. state_io_rel R (k_get_config K k)"
  shows "state_io_rel R (resolveConfig K ns op)"
proof -
  have "state_io_rel R (if op \<noteq> '''' \<and> op \<noteq> ns then do {
      g \<leftarrow> k_get_config K (op, ''default'');
      case g of Inr c \<Rightarrow> ret (with_defaults (kc_spec c)) | Inl err \<Rightarrow> ret DefaultKoronerConfigSpec }
      else ret DefaultKoronerConfigSpec)"
    by (intro frame_intros assms)
  then show ?thesis
    unfolding resolveConfig_def
    by (intro frame_bind[OF assms(1,2)]) (auto intro: frame_return[OF assms(1)] split: sum.splits list.splits)
qed

lemma namespaceWatched_frame:
  "world_frame R \<Longrightarrow> (\<And>ns. state_io_rel R (k_get_namespace_labels K ns)) \<Longrightarrow>
   state_io_rel R (namespaceWatched L K spec ns)"
  unfolding namespaceWatched_def by (intro frame_intros)

lemma runNarrator_frame:
  assumes "world_frame R" "\<And>rq. state_io_rel R (k_http_do K rq)"
  shows "state_io_rel R (runNarrator L K n v status)"
  unfolding runNarrator_def by (intro frame_intros Narrate_frame assms)

subsection \<open>Seeding the default config\<close>

definition DefaultConfigName :: string where "DefaultConfigName = ''default''"

definition default_config :: "string \<Rightarrow> koroner_config" where
  "default_config ns =
     \<lparr>kc_meta = zero_meta\<lparr>om_name := DefaultConfigName, om_namespace := ns,
        om_annotations := Some [''koroner.pez.sh/auto-generated'' \<mapsto> ''true'']\<rparr>,
      kc_spec = DefaultKoronerConfigSpec, kc_conditions = []\<rparr>"

text \<open>\<open>ctx_err\<close> is what \<^verbatim>\<open>ctx.Err()\<close> returns when the cache does not sync.\<close>
definition seeder_Start ::
  "('w, 'z) cluster_client_scheme \<Rightarrow> go_error option \<Rightarrow> string \<Rightarrow> ('w, go_error option) state" where
  "seeder_Start K ctx_err ns =
     (if ns = '''' then ret None
      else do {
        synced \<leftarrow> k_wait_for_cache_sync K;
        if \<not> synced then ret ctx_err
        else do {
          r \<leftarrow> k_get_config K (ns, DefaultConfigName);
          case r of
            Inr existing \<Rightarrow> ret None
          | Inl err \<Rightarrow>
              if \<not> is_not_found err then ret (Some err)
              else do {
                e \<leftarrow> k_create_config K (default_config ns);
                case e of
                  None \<Rightarrow> ret None
                | Some cerr \<Rightarrow> if is_already_exists cerr then ret None else ret (Some cerr)
              }
        }
      })"

lemma default_config_populated: "populated (kc_spec (default_config ns))"
  by (simp add: default_config_def DefaultKoronerConfigSpec_def with_defaults_populates)

text \<open>An existing config is never written: only a read that says "not found" leads to a create.\<close>
lemma seeder_no_overwrite:
  assumes "run_state (k_wait_for_cache_sync K) w = (True, w1)"
    and "run_state (k_get_config K (ns, DefaultConfigName)) w1 = (Inr c, w2)"
  shows "ns = '''' \<or> run_state (seeder_Start K ctx_err ns) w = (None, w2)"
  using assms by (simp add: seeder_Start_def)

end
