(* ===== verification/Topology.thy ===== *)
theory Topology
  imports Mem_Server
begin

section \<open>Owner topology\<close>

text \<open>
  \<^verbatim>\<open>internal/forensics/topology.go\<close>: the walk from the deceased up its controller
  references, at most \<^verbatim>\<open>maxOwnerDepth\<close> hops, which ends at the first hop that cannot be
  fetched. Where reads of owner references are a function of the object (\<open>steady_owners\<close>), the
  walk is the pure path \<open>owner_path\<close>, a prefix of the controller chain: the last record is the
  root unless the walk ran out of depth or could not read a hop.
\<close>

definition maxOwnerDepth :: nat where "maxOwnerDepth = 6"

definition is_controller :: "owner_reference \<Rightarrow> bool" where
  "is_controller r \<longleftrightarrow> (case or_controller r of None \<Rightarrow> False | Some b \<Rightarrow> b)"

definition controllerRef :: "owner_reference list \<Rightarrow> owner_reference option" where
  "controllerRef owners =
     (case find_first is_controller owners of
        Some r \<Rightarrow> Some r
      | None \<Rightarrow> if 0 < length owners then Some (owners ! 0) else None)"

definition owner_record_of :: "owner_reference \<Rightarrow> owner_record" where
  "owner_record_of ref =
     \<lparr>ow_api_version = or_api_version ref, ow_kind = or_kind ref, ow_name = or_name ref\<rparr>"

text \<open>The loop, with the hops left and the chain so far\<close>
fun owner_walk ::
  "('l) go_lib_scheme \<Rightarrow> ('w, 'z) cluster_client_scheme \<Rightarrow> string \<Rightarrow> nat \<Rightarrow>
   owner_reference list \<Rightarrow> owner_record list \<Rightarrow> ('w, owner_record list) state" where
  "owner_walk L K ns 0 owners chain = ret chain"
| "owner_walk L K ns (Suc left) owners chain =
     (case controllerRef owners of
        None \<Rightarrow> ret chain
      | Some ref \<Rightarrow>
          let chain = chain @ [owner_record_of ref] in
          (case lib_parse_group_version L (or_api_version ref) of
             Inl _ \<Rightarrow> ret chain
           | Inr gv \<Rightarrow> do {
               r \<leftarrow> k_get_owner_references K gv (or_kind ref) (ns, or_name ref);
               case r of
                 Inl _ \<Rightarrow> ret chain
               | Inr owners' \<Rightarrow> owner_walk L K ns left owners' chain
             }))"

definition OwnerChain ::
  "('l) go_lib_scheme \<Rightarrow> ('w, 'z) cluster_client_scheme \<Rightarrow> string \<Rightarrow> owner_reference list \<Rightarrow>
   ('w, owner_record list) state" where
  "OwnerChain L K ns owners = owner_walk L K ns maxOwnerDepth owners []"

definition zero_owner :: owner_record where
  "zero_owner = \<lparr>ow_api_version = '''', ow_kind = '''', ow_name = ''''\<rparr>"

definition TopOwner :: "owner_record list \<Rightarrow> owner_record" where
  "TopOwner chain = (if length chain = 0 then zero_owner else chain ! (length chain - 1))"

subsection \<open>Controller references\<close>

lemma controllerRef_None [simp]: "controllerRef owners = None \<longleftrightarrow> owners = []"
  by (cases owners) (auto simp: controllerRef_def split: option.splits simp del: find_first_None)

lemma controllerRef_Nil [simp]: "controllerRef [] = None"
  by simp

lemma controllerRef_in: "controllerRef owners = Some r \<Longrightarrow> r \<in> set owners"
  by (auto simp: controllerRef_def dest: find_first_SomeD split: option.splits if_splits
      simp del: find_first_None)

lemma controllerRef_marked:
  assumes "controllerRef owners = Some r" "x \<in> set owners" "is_controller x"
  shows "is_controller r"
proof -
  have "find_first is_controller owners \<noteq> None" using assms(2,3) by auto
  with assms(1) show ?thesis
    by (auto simp: controllerRef_def dest: find_first_SomeD split: option.splits
        simp del: find_first_None)
qed

subsection \<open>The walk\<close>

lemma owner_walk_extends:
  "\<exists>ext. fst (run_state (owner_walk L K ns n owners chain) w) = chain @ ext \<and> length ext \<le> n \<and>
     (0 < n \<longrightarrow> (ext = [] \<longleftrightarrow> owners = []))"
proof (induction n arbitrary: owners chain w)
  case 0
  then show ?case by simp
next
  case (Suc n)
  show ?case
  proof (cases "controllerRef owners")
    case None
    then show ?thesis by (simp add: None del: controllerRef_None) (simp add: None[simplified])
  next
    case (Some ref)
    then have ne: "owners \<noteq> []" by (cases owners) auto
    let ?c = "chain @ [owner_record_of ref]"
    show ?thesis
    proof (cases "lib_parse_group_version L (or_api_version ref)")
      case (Inl e)
      with Some ne show ?thesis by (simp add: Let_def)
    next
      case (Inr gv)
      obtain r w1 where r: "run_state (k_get_owner_references K gv (or_kind ref) (ns, or_name ref)) w = (r, w1)"
        by force
      show ?thesis
      proof (cases r)
        case (Inl e)
        with Some Inr r ne show ?thesis by (simp add: Let_def)
      next
        case own: (Inr owners')
        obtain ext where "fst (run_state (owner_walk L K ns n owners' ?c) w1) = ?c @ ext" "length ext \<le> n"
          using Suc.IH by blast
        with Some Inr r own ne show ?thesis by (simp add: Let_def)
      qed
    qed
  qed
qed

lemma OwnerChain_bounds:
  "length (fst (run_state (OwnerChain L K ns owners) w)) \<le> maxOwnerDepth"
  "fst (run_state (OwnerChain L K ns owners) w) = [] \<longleftrightarrow> owners = []"
  using owner_walk_extends[of L K ns maxOwnerDepth owners "[]" w]
  by (auto simp: OwnerChain_def maxOwnerDepth_def)

lemma owner_walk_frame:
  assumes "world_frame R" "\<And>gv kind key. state_io_rel R (k_get_owner_references K gv kind key)"
  shows "state_io_rel R (owner_walk L K ns n owners chain)"
proof (induction n arbitrary: owners chain)
  case 0
  then show ?case using assms(1) by (simp add: frame_return)
next
  case (Suc n)
  then show ?case
    unfolding owner_walk.simps Let_def by (intro frame_intros assms)
qed

subsection \<open>The walk is the path\<close>

text \<open>Reads of owner references that change nothing and answer from a fixed table\<close>
locale steady_owners =
  fixes K :: "('w, 'z) cluster_client_scheme"
    and table :: "(string \<times> string) \<times> string \<times> object_key \<rightharpoonup> owner_reference list"
    and okw :: "'w \<Rightarrow> bool"
  assumes owners_read: "okw w \<Longrightarrow>
    \<exists>r. run_state (k_get_owner_references K gv kind key) w = (r, w) \<and>
      (case table (gv, kind, key) of Some os \<Rightarrow> r = Inr os | None \<Rightarrow> (\<exists>e. r = Inl e))"

text \<open>The next hop: the references of the object a reference points to\<close>
definition next_owners ::
  "('l) go_lib_scheme \<Rightarrow> ((string \<times> string) \<times> string \<times> object_key \<rightharpoonup> owner_reference list) \<Rightarrow>
   string \<Rightarrow> owner_reference \<Rightarrow> owner_reference list" where
  "next_owners L table ns ref =
     (case lib_parse_group_version L (or_api_version ref) of
        Inl _ \<Rightarrow> []
      | Inr gv \<Rightarrow> or_default (table (gv, or_kind ref, (ns, or_name ref))) [])"

fun owner_path ::
  "(owner_reference \<Rightarrow> owner_reference list) \<Rightarrow> nat \<Rightarrow> owner_reference list \<Rightarrow> owner_reference list" where
  "owner_path next 0 owners = []"
| "owner_path next (Suc n) owners =
     (case controllerRef owners of None \<Rightarrow> [] | Some ref \<Rightarrow> ref # owner_path next n (next ref))"

lemma owner_path_Nil [simp]: "owner_path next n [] = []"
  by (cases n) (auto simp: controllerRef_def)

context steady_owners
begin

lemma owner_walk_path:
  "okw w \<Longrightarrow> run_state (owner_walk L K ns n owners chain) w =
     (chain @ map owner_record_of (owner_path (next_owners L table ns) n owners), w)"
proof (induction n arbitrary: owners chain)
  case 0
  then show ?case by simp
next
  case (Suc n)
  show ?case
  proof (cases "controllerRef owners")
    case None
    then show ?thesis by (simp add: None del: controllerRef_None)
  next
    case (Some ref)
    show ?thesis
    proof (cases "lib_parse_group_version L (or_api_version ref)")
      case (Inl e)
      with Some show ?thesis by (simp add: Let_def next_owners_def)
    next
      case (Inr gv)
      obtain r where "run_state (k_get_owner_references K gv (or_kind ref) (ns, or_name ref)) w = (r, w)"
        "case table (gv, or_kind ref, (ns, or_name ref)) of Some os \<Rightarrow> r = Inr os | None \<Rightarrow> (\<exists>e. r = Inl e)"
        using owners_read[OF Suc.prems] by blast
      with Some Inr Suc show ?thesis
        by (cases "table (gv, or_kind ref, (ns, or_name ref))") (auto simp: Let_def next_owners_def)
    qed
  qed
qed

lemma OwnerChain_path:
  "okw w \<Longrightarrow> run_state (OwnerChain L K ns owners) w =
     (map owner_record_of (owner_path (next_owners L table ns) maxOwnerDepth owners), w)"
  by (simp add: OwnerChain_def owner_walk_path)

end

text \<open>A path shorter than the depth ends at a root: an object whose own references give no hop.\<close>
lemma owner_path_root:
  "length (owner_path next n owners) < n \<Longrightarrow> owners \<noteq> [] \<Longrightarrow>
   next (last (owner_path next n owners)) = []"
proof (induction n arbitrary: owners)
  case 0
  then show ?case by simp
next
  case (Suc n)
  then obtain ref where ref: "controllerRef owners = Some ref"
    by (cases "controllerRef owners") auto
  show ?case
  proof (cases "next ref = []")
    case True
    with ref show ?thesis by simp
  next
    case False
    have len: "length (owner_path next n (next ref)) < n" using Suc.prems(1) ref by simp
    then obtain m where "n = Suc m" by (cases n) auto
    with False have "owner_path next n (next ref) \<noteq> []"
      by (cases "controllerRef (next ref)") auto
    with Suc.IH[OF len False] ref show ?thesis by simp
  qed
qed

lemma TopOwner_last: "chain \<noteq> [] \<Longrightarrow> TopOwner chain = last chain"
  by (simp add: TopOwner_def last_conv_nth)

interpretation mem_owners: steady_owners mem_client table "\<lambda>w. m_owner_refs w = table" for table
  by unfold_locales (auto simp: mem_client_def mem_read_def split: option.splits)

end
