(* ===== verification/Reconciler.thy ===== *)
theory Reconciler
  imports Config_Resolve Topology
begin

section \<open>What the two reconcilers share\<close>

text \<open>
  The fields of \<^verbatim>\<open>PodReconciler\<close> and \<^verbatim>\<open>JobReconciler\<close> that the handlers read, the
  check that stops a reconcile whose episode the obituary has counted, and the heal that
  follows a recorded death. \<^verbatim>\<open>Reconcile\<close> returns \<^verbatim>\<open>(ctrl.Result{}, err)\<close> with an empty
  result on every path, so its value here is the error.
\<close>

record 'w reconciler =
  rc_narrator :: "narrator option"
  rc_self_heal :: "'w engine option"
  rc_operator_namespace :: string

definition IgnoreNotFound :: "go_error \<Rightarrow> go_error option" where
  "IgnoreNotFound err = (if is_not_found err then None else Some err)"

text \<open>The key under which the obituary of an issue is stored\<close>
definition obituary_object_key :: "('l) go_lib_scheme \<Rightarrow> subject \<Rightarrow> string \<Rightarrow> object_key" where
  "obituary_object_key L subject k =
     (sub_namespace subject, obituaryName (lib_uni_lower L) (sub_name subject) k)"

text \<open>
  The gate in front of the expensive evidence: \<^term>\<open>Some e\<close> makes \<^verbatim>\<open>Reconcile\<close> return
  \<open>e\<close>, \<^const>\<open>None\<close> lets it go on.
\<close>
definition episode_gate ::
  "('w, 'z) obit_client_scheme \<Rightarrow> object_key \<Rightarrow> string \<Rightarrow> ('w, go_error option option) state" where
  "episode_gate K k episode = do {
     r \<leftarrow> k_get_obit K k;
     case r of
       Inr existing \<Rightarrow>
         if st_last_episode (obit_status existing) = episode then ret (Some None) else ret None
     | Inl gerr \<Rightarrow> if \<not> is_not_found gerr then ret (Some (Some gerr)) else ret None
   }"

text \<open>An investigation ends the reconcile with an error or nil, or names what was recorded.\<close>
type_synonym investigation = "go_error option + (subject \<times> string \<times> koroner_config_spec)"

lemma death_key_object_key:
  "death_key L d = obituary_object_key L (rd_subject d) (rd_issue_key d)"
  by (simp add: death_key_def death_name_def obituary_object_key_def)

context quiet_server
begin

lemma gate_counted:
  assumes "status_at versions w k = Some st" "st_last_episode st = episode"
  obtains w' where "run_state (episode_gate K k episode) w = (Some None, w')" "versions w' = versions w"
proof -
  obtain x where x: "latest (versions w k) = Some x" "obit_status x = st"
    using assms(1) by (auto simp: status_at_def)
  obtain w' where "run_state (k_get_obit K k) w = (Inr x, w')" "versions w' = versions w"
    using get_found[OF x(1)] .
  with x(2) assms(2) that show thesis by (simp add: episode_gate_def)
qed

lemma gate_open:
  assumes "\<And>st. status_at versions w k = Some st \<Longrightarrow> st_last_episode st \<noteq> episode"
  obtains w' where "run_state (episode_gate K k episode) w = (None, w')" "versions w' = versions w"
proof (cases "latest (versions w k)")
  case None
  obtain e w' where "run_state (k_get_obit K k) w = (Inl e, w')" "versions w' = versions w" "is_not_found e"
    using get_absent[OF None] .
  with that show thesis by (simp add: episode_gate_def)
next
  case (Some x)
  obtain w' where "run_state (k_get_obit K k) w = (Inr x, w')" "versions w' = versions w"
    using get_found[OF Some] .
  moreover have "st_last_episode (obit_status x) \<noteq> episode"
    using assms Some by (simp add: status_at_def)
  ultimately show thesis using that by (simp add: episode_gate_def)
qed

end

lemma episode_gate_frame:
  "world_frame R \<Longrightarrow> state_io_rel R (k_get_obit K k) \<Longrightarrow> state_io_rel R (episode_gate K k episode)"
  unfolding episode_gate_def by (intro frame_intros)

end
