(* ===== verification/Pod_Reconciler.thy ===== *)
theory Pod_Reconciler
  imports Reconciler
begin

section \<open>The pod reconciler\<close>

text \<open>
  \<^verbatim>\<open>internal/controller/pod_controller.go\<close>: detecting a death in the container statuses,
  translating it to evidence, identifying the workload it is filed under, gathering the rest of
  the evidence, and the handler itself. Its steps up to the upsert are one computation over the
  world (\<open>investigate_pod\<close>); the heal that may follow also moves the rate limiter.
\<close>

subsection \<open>Detecting a death\<close>

record pod_death =
  pd_container :: string
  pd_restart_count :: int32
  pd_exit_code :: "int32 option"
  pd_signal :: "int32 option"
  pd_oom_killed :: bool
  pd_termination_msg :: string
  pd_terminated_rsn :: string
  pd_waiting_reason :: string
  pd_evicted :: bool

definition zero_death :: pod_death where
  "zero_death = \<lparr>pd_container = '''', pd_restart_count = 0, pd_exit_code = None, pd_signal = None,
     pd_oom_killed = False, pd_termination_msg = '''', pd_terminated_rsn = '''',
     pd_waiting_reason = '''', pd_evicted = False\<rparr>"

definition fillTermination :: "pod_death \<Rightarrow> terminated_state \<Rightarrow> pod_death" where
  "fillTermination d t = d\<lparr>
     pd_exit_code := Some (t_exit_code t),
     pd_signal := (if t_signal t \<noteq> 0 then Some (t_signal t) else pd_signal d),
     pd_terminated_rsn := t_reason t,
     pd_termination_msg := t_message t,
     pd_oom_killed := (if t_reason t = ''OOMKilled'' then True else pd_oom_killed d)\<rparr>"

definition fill_last :: "pod_death \<Rightarrow> container_status \<Rightarrow> pod_death" where
  "fill_last d cs = (case cs_last_terminated cs of None \<Rightarrow> d | Some lt \<Rightarrow> fillTermination d lt)"

text \<open>One iteration of the loop: the death this container shows, if any\<close>
definition container_death :: "int32 \<Rightarrow> container_status \<Rightarrow> pod_death option" where
  "container_death threshold cs =
     (let d = zero_death\<lparr>pd_container := cs_name cs, pd_restart_count := cs_restart_count cs\<rparr>;
          restarted = (if threshold \<le>s cs_restart_count cs then Some (fill_last d cs) else None);
          after_terminated =
            (case cs_waiting_reason cs of
               Some w \<Rightarrow>
                 if w = ''CrashLoopBackOff'' then Some (fill_last (d\<lparr>pd_waiting_reason := w\<rparr>) cs)
                 else if w = ''ImagePullBackOff'' \<or> w = ''ErrImagePull'' then
                   Some (d\<lparr>pd_waiting_reason := w\<rparr>)
                 else restarted
             | None \<Rightarrow> restarted)
      in case cs_terminated cs of
           Some t \<Rightarrow>
             if t_exit_code t \<noteq> 0 \<or> t_reason t = ''OOMKilled'' then Some (fillTermination d t)
             else after_terminated
         | None \<Rightarrow> after_terminated)"

fun scan_containers :: "int32 \<Rightarrow> container_status list \<Rightarrow> pod_death option" where
  "scan_containers threshold [] = None"
| "scan_containers threshold (cs # css) =
     (case container_death threshold cs of
        Some d \<Rightarrow> Some d
      | None \<Rightarrow> scan_containers threshold css)"

definition detectPodDeath :: "pod \<Rightarrow> koroner_config_spec \<Rightarrow> pod_death option" where
  "detectPodDeath pod cfg =
     (if pod_reason pod = ''Evicted'' \<and> wp_evictions (cfg_watch cfg) = Some True
      then Some (zero_death\<lparr>pd_evicted := True\<rparr>)
      else
        let threshold = (case cfg_restart_threshold cfg of
              None \<Rightarrow> DefaultRestartThreshold | Some n \<Rightarrow> n)
        in scan_containers threshold (pod_container_statuses pod))"

definition death_evidence :: "pod_death \<Rightarrow> event_record list \<Rightarrow> evidence" where
  "death_evidence d events = zero_evidence\<lparr>
     e_oom_killed := pd_oom_killed d,
     e_exit_code := pd_exit_code d,
     e_signal := pd_signal d,
     e_termination_reason := pd_terminated_rsn d,
     e_waiting_reason := pd_waiting_reason d,
     e_restart_count := pd_restart_count d,
     e_events := events,
     e_pod_phase_reason := (if pd_evicted d then ''Evicted'' else '''')\<rparr>"

definition workloadSubject :: "pod \<Rightarrow> owner_record list \<Rightarrow> subject" where
  "workloadSubject pod owners =
     (let top = TopOwner owners in
      if ow_name top \<noteq> '''' then
        \<lparr>sub_api_version = ow_api_version top, sub_kind = ow_kind top, sub_name = ow_name top,
         sub_namespace = om_namespace (pod_meta pod), sub_uid = ''''\<rparr>
      else
        \<lparr>sub_api_version = ''v1'', sub_kind = ''Pod'', sub_name = om_name (pod_meta pod),
         sub_namespace = om_namespace (pod_meta pod), sub_uid = om_uid (pod_meta pod)\<rparr>)"

subsection \<open>The handler\<close>

definition base_status ::
  "pod_death \<Rightarrow> verdict \<Rightarrow> event_record list \<Rightarrow> owner_record list \<Rightarrow> string \<Rightarrow> obituary_status" where
  "base_status death verdict events owners logTail = zero_status\<lparr>
     st_phase := PhaseComplete,
     st_cause_of_death := v_cause verdict,
     st_confidence := v_confidence verdict,
     st_summary := v_summary verdict,
     st_exit_code := pd_exit_code death,
     st_signal := pd_signal death,
     st_oom_killed := pd_oom_killed death,
     st_restart_count := pd_restart_count death,
     st_log_tail := logTail,
     st_event_timeline := events,
     st_owners := owners\<rparr>"

text \<open>\<^verbatim>\<open>int64(int32)\<close>\<close>
definition int64_of_int32 :: "int32 \<Rightarrow> int64" where
  "int64_of_int32 w = word_of_int (sint w)"

definition collect_log_tail ::
  "('w, 'z) cluster_client_scheme \<Rightarrow> pod \<Rightarrow> pod_death \<Rightarrow> koroner_config_spec \<Rightarrow> ('w, string) state" where
  "collect_log_tail K pod death cfg =
     (if pd_container death \<noteq> '''' then do {
        r \<leftarrow> PreviousLogs K (om_namespace (pod_meta pod)) (om_name (pod_meta pod)) (pd_container death)
          (int64_of_int32 (or_default (cfg_log_tail_lines cfg) DefaultLogTailLines));
        case r of Inl err \<Rightarrow> ret '''' | Inr logs \<Rightarrow> ret logs
      }
      else ret '''')"

definition add_metrics ::
  "('l) go_lib_scheme \<Rightarrow> ('w, 'z) cluster_client_scheme \<Rightarrow> pod \<Rightarrow> koroner_config_spec \<Rightarrow>
   obituary_status \<Rightarrow> ('w, obituary_status) state" where
  "add_metrics L K pod cfg status =
     (let prom = cfg_prometheus cfg in
      if prom_enabled prom \<and> prom_url prom \<noteq> '''' then do {
        t \<leftarrow> k_now K;
        r \<leftarrow> CollectMetrics L K \<lparr>mt_url = prom_url prom, mt_queries = prom_queries prom\<rparr>
          (om_namespace (pod_meta pod)) (om_name (pod_meta pod)) t;
        case r of Inl err \<Rightarrow> ret status | Inr snap \<Rightarrow> ret (status\<lparr>st_metrics := snap\<rparr>)
      }
      else ret status)"

definition buildStatus ::
  "('l) go_lib_scheme \<Rightarrow> ('w, 'z) cluster_client_scheme \<Rightarrow> narrator option \<Rightarrow> pod \<Rightarrow> pod_death \<Rightarrow>
   verdict \<Rightarrow> event_record list \<Rightarrow> owner_record list \<Rightarrow> koroner_config_spec \<Rightarrow>
   ('w, obituary_status) state" where
  "buildStatus L K narrator pod death verdict events owners cfg = do {
     logTail \<leftarrow> collect_log_tail K pod death cfg;
     status \<leftarrow> add_metrics L K pod cfg (base_status death verdict events owners logTail);
     n \<leftarrow> resolveNarrator L K (cfg_narrator cfg) (om_namespace (pod_meta pod)) narrator;
     runNarrator L K n verdict status
   }"

text \<open>From the death on: topology, events, diagnosis, the episode gate, evidence, upsert\<close>
definition record_pod_death ::
  "('l) go_lib_scheme \<Rightarrow> ('w, 'z) cluster_client_scheme \<Rightarrow> narrator option \<Rightarrow> pod \<Rightarrow> pod_death \<Rightarrow>
   koroner_config_spec \<Rightarrow> ('w, investigation) state" where
  "record_pod_death L K narrator pod death cfg = do {
     owners \<leftarrow> OwnerChain L K (om_namespace (pod_meta pod)) (om_owner_references (pod_meta pod));
     evr \<leftarrow> Events K (om_namespace (pod_meta pod)) (om_uid (pod_meta pod));
     let events = (case evr of Inl err \<Rightarrow> [] | Inr evs \<Rightarrow> evs);
         verdict = diagnose (lib_uni_lower L) (death_evidence death events);
         subject = workloadSubject pod owners;
         k = issueKey subject (pd_container death) (v_cause verdict);
         episode = pod_episode (om_uid (pod_meta pod)) (pd_restart_count death)
     in do {
       stop \<leftarrow> episode_gate K (obituary_object_key L subject k) episode;
       case stop of
         Some e \<Rightarrow> ret (Inl e)
       | None \<Rightarrow> do {
           status \<leftarrow> buildStatus L K narrator pod death verdict events owners cfg;
           now \<leftarrow> k_now K;
           (_, _, err) \<leftarrow> upsertObituary L K
             \<lparr>rd_subject = subject, rd_issue_key = k, rd_episode = episode,
              rd_last_pod = om_name (pod_meta pod), rd_now = now, rd_status = status\<rparr>;
           case err of
             Some e \<Rightarrow> ret (Inl (Some e))
           | None \<Rightarrow> ret (Inr (subject, k, cfg))
         }
     }
   }"

definition investigate_pod ::
  "('l) go_lib_scheme \<Rightarrow> ('w, 'z) cluster_client_scheme \<Rightarrow> 'w reconciler \<Rightarrow> object_key \<Rightarrow>
   ('w, investigation) state" where
  "investigate_pod L K rc req = do {
     r \<leftarrow> k_get_pod K req;
     case r of
       Inl err \<Rightarrow> ret (Inl (IgnoreNotFound err))
     | Inr pod \<Rightarrow> do {
         cfg \<leftarrow> resolveConfig K (om_namespace (pod_meta pod)) (rc_operator_namespace rc);
         if wp_pod_crashes (cfg_watch cfg) \<noteq> Some True then ret (Inl None)
         else do {
           watched \<leftarrow> namespaceWatched L K cfg (om_namespace (pod_meta pod));
           if \<not> watched then ret (Inl None)
           else (case detectPodDeath pod cfg of
             None \<Rightarrow> ret (Inl None)
           | Some death \<Rightarrow> record_pod_death L K (rc_narrator rc) pod death cfg)
         }
       }
   }"

definition tryHeal ::
  "('q, 'l) koroner_lib_scheme \<Rightarrow> ('w, 'q, 'z) kube_client_scheme \<Rightarrow> 'w reconciler \<Rightarrow> subject \<Rightarrow>
   string \<Rightarrow> ('w \<times> rate_limiter, unit) state" where
  "tryHeal L K rc subject k =
     (case rc_self_heal rc of
        None \<Rightarrow> ret ()
      | Some e \<Rightarrow> do {
          r \<leftarrow> in_world (k_get_obit K (obituary_object_key L subject k));
          case r of
            Inl err \<Rightarrow> ret ()
          | Inr obit \<Rightarrow> do {
              cfg \<leftarrow> in_world (resolveConfig K (sub_namespace subject) (rc_operator_namespace rc));
              MaybeHeal L K e obit cfg
            }
        })"

definition PodReconcile ::
  "('q, 'l) koroner_lib_scheme \<Rightarrow> ('w, 'q, 'z) kube_client_scheme \<Rightarrow> 'w reconciler \<Rightarrow> object_key \<Rightarrow>
   ('w \<times> rate_limiter, go_error option) state" where
  "PodReconcile L K rc req = do {
     r \<leftarrow> in_world (investigate_pod L K rc req);
     case r of
       Inl e \<Rightarrow> ret e
     | Inr (subject, k, _) \<Rightarrow> do {
         _ \<leftarrow> tryHeal L K rc subject k;
         ret None
       }
   }"

subsection \<open>What counts as a death\<close>

definition terminated_badly :: "container_status \<Rightarrow> bool" where
  "terminated_badly cs \<longleftrightarrow>
     (\<exists>t. cs_terminated cs = Some t \<and> (t_exit_code t \<noteq> 0 \<or> t_reason t = ''OOMKilled''))"

definition stuck_waiting :: "container_status \<Rightarrow> bool" where
  "stuck_waiting cs \<longleftrightarrow>
     cs_waiting_reason cs \<in> {Some ''CrashLoopBackOff'', Some ''ImagePullBackOff'', Some ''ErrImagePull''}"

definition shows_death :: "int32 \<Rightarrow> container_status \<Rightarrow> bool" where
  "shows_death threshold cs \<longleftrightarrow>
     terminated_badly cs \<or> stuck_waiting cs \<or> threshold \<le>s cs_restart_count cs"

lemma fill_fields [simp]:
  "pd_container (fillTermination d t) = pd_container d"
  "pd_restart_count (fillTermination d t) = pd_restart_count d"
  "pd_waiting_reason (fillTermination d t) = pd_waiting_reason d"
  "pd_evicted (fillTermination d t) = pd_evicted d"
  "pd_container (fill_last d cs) = pd_container d"
  "pd_restart_count (fill_last d cs) = pd_restart_count d"
  "pd_waiting_reason (fill_last d cs) = pd_waiting_reason d"
  "pd_evicted (fill_last d cs) = pd_evicted d"
  by (simp_all add: fillTermination_def fill_last_def split: option.splits)

lemma container_death_iff: "container_death n cs \<noteq> None \<longleftrightarrow> shows_death n cs"
  by (cases "cs_terminated cs"; cases "cs_waiting_reason cs")
    (simp_all add: container_death_def shows_death_def terminated_badly_def stuck_waiting_def Let_def)

lemma container_death_names:
  assumes "container_death n cs = Some d"
  shows "pd_container d = cs_name cs \<and> pd_restart_count d = cs_restart_count cs \<and> \<not> pd_evicted d"
proof -
  let ?ok = "\<lambda>d. pd_container d = cs_name cs \<and> pd_restart_count d = cs_restart_count cs \<and> \<not> pd_evicted d"
  let ?d = "zero_death\<lparr>pd_container := cs_name cs, pd_restart_count := cs_restart_count cs\<rparr>"
  have ok: "?ok ?d" "?ok (?d\<lparr>pd_waiting_reason := x\<rparr>)" "?ok (fillTermination ?d t)" "?ok (fill_last ?d cs)"
    "?ok (fill_last (?d\<lparr>pd_waiting_reason := x\<rparr>) cs)" for x t
    by (simp_all add: zero_death_def)
  have "pred_option ?ok (container_death n cs)"
    unfolding container_death_def Let_def
    by (simp only: ok option.pred_inject simp_thms split: option.split if_split)
  with assms show ?thesis by simp
qed

lemma scan_containers_first:
  "scan_containers n css = Option.bind (find_first (shows_death n) css) (container_death n)"
proof (induction css)
  case (Cons cs css)
  then show ?case using container_death_iff[of n cs] by (auto split: option.splits)
qed simp

lemma detectPodDeath_cases:
  assumes "detectPodDeath pod cfg = Some d"
  shows "(pd_evicted d \<and> pod_reason pod = ''Evicted'' \<and> pd_container d = '''') \<or>
    (\<not> pd_evicted d \<and> (\<exists>us cs vs. pod_container_statuses pod = us @ cs # vs \<and>
      (\<forall>u \<in> set us. \<not> shows_death (or_default (cfg_restart_threshold cfg) DefaultRestartThreshold) u) \<and>
      shows_death (or_default (cfg_restart_threshold cfg) DefaultRestartThreshold) cs \<and>
      pd_container d = cs_name cs \<and> pd_restart_count d = cs_restart_count cs))"
proof (cases "pod_reason pod = ''Evicted'' \<and> wp_evictions (cfg_watch cfg) = Some True")
  case True
  with assms show ?thesis by (auto simp: detectPodDeath_def zero_death_def)
next
  case False
  let ?n = "or_default (cfg_restart_threshold cfg) DefaultRestartThreshold"
  have "scan_containers ?n (pod_container_statuses pod) = Some d"
    using assms False by (auto simp: detectPodDeath_def or_default_def split: if_splits)
  then obtain cs where f: "find_first (shows_death ?n) (pod_container_statuses pod) = Some cs"
    "container_death ?n cs = Some d"
    by (auto simp: scan_containers_first bind_eq_Some_conv)
  from find_first_splitD[OF f(1)] find_first_SomeD[OF f(1)] container_death_names[OF f(2)]
  show ?thesis by blast
qed

lemma detectPodDeath_iff:
  "detectPodDeath pod cfg \<noteq> None \<longleftrightarrow>
     (pod_reason pod = ''Evicted'' \<and> wp_evictions (cfg_watch cfg) = Some True) \<or>
     (\<exists>cs \<in> set (pod_container_statuses pod).
       shows_death (or_default (cfg_restart_threshold cfg) DefaultRestartThreshold) cs)"
proof -
  have "scan_containers n css \<noteq> None \<longleftrightarrow> (\<exists>cs \<in> set css. shows_death n cs)" for n css
  proof (induction css)
    case (Cons cs css)
    then show ?case using container_death_iff[of n cs] by (auto split: option.splits)
  qed simp
  then show ?thesis by (auto simp: detectPodDeath_def or_default_def split: option.splits)
qed

subsection \<open>The status of an occurrence\<close>

text \<open>What a new occurrence's status holds whatever the evidence: it starts no audit trail.\<close>
definition fresh_status :: "verdict \<Rightarrow> obituary_status \<Rightarrow> bool" where
  "fresh_status v st \<longleftrightarrow> st_phase st = PhaseComplete \<and> st_cause_of_death st = v_cause v \<and>
     st_confidence st = v_confidence v \<and> st_heal_attempts st = [] \<and> st_last_heal_at st = None \<and>
     st_conditions st = []"

lemma buildStatus_fresh:
  assumes "run_state (buildStatus L K n pod death v events owners cfg) w = (st, w')"
  shows "fresh_status v st"
proof -
  obtain logTail w1 where l: "run_state (collect_log_tail K pod death cfg) w = (logTail, w1)" by force
  let ?b = "base_status death v events owners logTail"
  obtain s w2 where m: "run_state (add_metrics L K pod cfg ?b) w1 = (s, w2)" by force
  obtain nar w3 where n: "run_state (resolveNarrator L K (cfg_narrator cfg) (om_namespace (pod_meta pod)) n) w2 = (nar, w3)"
    by force
  have "fresh_status v ?b" by (simp add: fresh_status_def base_status_def zero_status_def)
  moreover have "s = ?b \<or> (\<exists>x. s = ?b\<lparr>st_metrics := x\<rparr>)"
    using m by (auto simp: add_metrics_def Let_def split: if_splits prod.splits sum.splits)
  ultimately have "fresh_status v s" by (auto simp: fresh_status_def)
  moreover have run: "run_state (runNarrator L K nar v s) w3 = (st, w')"
    using assms l m n by (simp add: buildStatus_def)
  ultimately show ?thesis using runNarrator_keeps[OF run] by (auto simp: fresh_status_def)
qed

end
