(* ===== verification/Job_Reconciler.thy ===== *)
theory Job_Reconciler
  imports Pod_Reconciler
begin

section \<open>The job reconciler\<close>

text \<open>
  \<^verbatim>\<open>internal/controller/job_controller.go\<close>: a failed Job is one episode, named by its UID,
  of an issue of its top owner. The policy resolved at the start also governs the heal.
\<close>

primrec jobFailed :: "job_condition list \<Rightarrow> bool" where
  "jobFailed [] = False"
| "jobFailed (c # cs) =
     (if jc_type c = ''Failed'' \<and> jc_status c = ''True'' then True else jobFailed cs)"

primrec failureSummary :: "job_condition list \<Rightarrow> string \<Rightarrow> string" where
  "failureSummary [] fallback = fallback"
| "failureSummary (c # cs) fallback =
     (if jc_type c = ''Failed'' \<and> jc_message c \<noteq> '''' then jc_message c
      else failureSummary cs fallback)"

definition jobSubject :: "job \<Rightarrow> owner_record list \<Rightarrow> subject" where
  "jobSubject job owners =
     (let top = TopOwner owners in
      if ow_name top \<noteq> '''' then
        \<lparr>sub_api_version = ow_api_version top, sub_kind = ow_kind top, sub_name = ow_name top,
         sub_namespace = om_namespace (job_meta job), sub_uid = ''''\<rparr>
      else
        \<lparr>sub_api_version = ''batch/v1'', sub_kind = ''Job'', sub_name = om_name (job_meta job),
         sub_namespace = om_namespace (job_meta job), sub_uid = om_uid (job_meta job)\<rparr>)"

definition job_evidence :: "event_record list \<Rightarrow> evidence" where
  "job_evidence events = zero_evidence\<lparr>e_job_failed := True, e_events := events\<rparr>"

definition job_status ::
  "job \<Rightarrow> verdict \<Rightarrow> event_record list \<Rightarrow> owner_record list \<Rightarrow> obituary_status" where
  "job_status job verdict events owners = zero_status\<lparr>
     st_phase := PhaseComplete,
     st_cause_of_death := v_cause verdict,
     st_confidence := v_confidence verdict,
     st_summary := failureSummary (job_conditions job) (v_summary verdict),
     st_event_timeline := events,
     st_owners := owners\<rparr>"

definition record_job_failure ::
  "('l) go_lib_scheme \<Rightarrow> ('w, 'z) cluster_client_scheme \<Rightarrow> narrator option \<Rightarrow> job \<Rightarrow>
   koroner_config_spec \<Rightarrow> ('w, investigation) state" where
  "record_job_failure L K narrator job cfg = do {
     owners \<leftarrow> OwnerChain L K (om_namespace (job_meta job)) (om_owner_references (job_meta job));
     evr \<leftarrow> Events K (om_namespace (job_meta job)) (om_uid (job_meta job));
     let events = (case evr of Inl err \<Rightarrow> [] | Inr evs \<Rightarrow> evs);
         verdict = diagnose (lib_uni_lower L) (job_evidence events);
         subject = jobSubject job owners;
         k = issueKey subject '''' (v_cause verdict);
         episode = om_uid (job_meta job)
     in do {
       stop \<leftarrow> episode_gate K (obituary_object_key L subject k) episode;
       case stop of
         Some e \<Rightarrow> ret (Inl e)
       | None \<Rightarrow> do {
           n \<leftarrow> resolveNarrator L K (cfg_narrator cfg) (om_namespace (job_meta job)) narrator;
           status \<leftarrow> runNarrator L K n verdict (job_status job verdict events owners);
           now \<leftarrow> k_now K;
           (_, _, err) \<leftarrow> upsertObituary L K
             \<lparr>rd_subject = subject, rd_issue_key = k, rd_episode = episode,
              rd_last_pod = om_name (job_meta job), rd_now = now, rd_status = status\<rparr>;
           case err of
             Some e \<Rightarrow> ret (Inl (Some e))
           | None \<Rightarrow> ret (Inr (subject, k, cfg))
         }
     }
   }"

definition investigate_job ::
  "('l) go_lib_scheme \<Rightarrow> ('w, 'z) cluster_client_scheme \<Rightarrow> 'w reconciler \<Rightarrow> object_key \<Rightarrow>
   ('w, investigation) state" where
  "investigate_job L K rc req = do {
     r \<leftarrow> k_get_job K req;
     case r of
       Inl err \<Rightarrow> ret (Inl (IgnoreNotFound err))
     | Inr job \<Rightarrow> do {
         cfg \<leftarrow> resolveConfig K (om_namespace (job_meta job)) (rc_operator_namespace rc);
         if wp_job_failures (cfg_watch cfg) \<noteq> Some True then ret (Inl None)
         else do {
           watched \<leftarrow> namespaceWatched L K cfg (om_namespace (job_meta job));
           if \<not> watched then ret (Inl None)
           else if \<not> jobFailed (job_conditions job) then ret (Inl None)
           else record_job_failure L K (rc_narrator rc) job cfg
         }
       }
   }"

definition heal_job ::
  "('q, 'l) koroner_lib_scheme \<Rightarrow> ('w, 'q, 'z) kube_client_scheme \<Rightarrow> 'w reconciler \<Rightarrow> subject \<Rightarrow>
   string \<Rightarrow> koroner_config_spec \<Rightarrow> ('w \<times> rate_limiter, unit) state" where
  "heal_job L K rc subject k cfg =
     (case rc_self_heal rc of
        None \<Rightarrow> ret ()
      | Some e \<Rightarrow> do {
          r \<leftarrow> in_world (k_get_obit K (obituary_object_key L subject k));
          case r of
            Inl err \<Rightarrow> ret ()
          | Inr obit \<Rightarrow> MaybeHeal L K e obit cfg
        })"

definition JobReconcile ::
  "('q, 'l) koroner_lib_scheme \<Rightarrow> ('w, 'q, 'z) kube_client_scheme \<Rightarrow> 'w reconciler \<Rightarrow> object_key \<Rightarrow>
   ('w \<times> rate_limiter, go_error option) state" where
  "JobReconcile L K rc req = do {
     r \<leftarrow> in_world (investigate_job L K rc req);
     case r of
       Inl e \<Rightarrow> ret e
     | Inr (subject, k, cfg) \<Rightarrow> do {
         _ \<leftarrow> heal_job L K rc subject k cfg;
         ret None
       }
   }"

lemma jobFailed_iff: "jobFailed cs \<longleftrightarrow> (\<exists>c \<in> set cs. jc_type c = ''Failed'' \<and> jc_status c = ''True'')"
  by (induction cs) auto

lemma failureSummary_cases:
  "failureSummary cs fallback = fallback \<or>
     (\<exists>c \<in> set cs. jc_type c = ''Failed'' \<and> failureSummary cs fallback = jc_message c)"
  by (induction cs) auto

text \<open>
  A failed Job is diagnosed with high confidence: as JobFailed, unless a liveness event says
  otherwise.
\<close>
lemma job_verdict:
  "v_confidence (diagnose ul (job_evidence events)) = ConfidenceHigh"
  "v_cause (diagnose ul (job_evidence events)) =
     (if \<exists>ev \<in> set events. is_liveness_failure ul ev then CauseProbeFailure else CauseJobFailed)"
  by (simp_all add: diagnose_def job_evidence_def zero_evidence_def)

lemma runNarrator_fresh:
  "fresh_status v st \<Longrightarrow> run_state (runNarrator L K n v st) w = (st', w') \<Longrightarrow> fresh_status v st'"
  using runNarrator_keeps[of L K n v st w st' w'] by (auto simp: fresh_status_def)

lemma job_status_fresh: "fresh_status v (job_status job v events owners)"
  by (simp add: fresh_status_def job_status_def zero_status_def)

end
