(* ===== verification/Cluster.thy ===== *)
theory Cluster
  imports Job_Reconciler
begin

section \<open>The handlers against a quiet cluster\<close>

text \<open>
  \<open>quiet_cluster\<close> extends the quiet obituary store to the rest of the API: reads, the clock and
  HTTP calls do not write obituaries. \<open>quiet_koroner\<close> adds an engine whose calls do not either.
  Here the handlers are proved to record what they detect, to count an episode once while it is
  the latest, and to leave at most one entry in the audit trail of an occurrence.
\<close>

subsection \<open>What a handler detects and files\<close>

text \<open>What a handler has established when it goes on to record\<close>
definition detects_pod ::
  "('l) go_lib_scheme \<Rightarrow> ('w, 'z) cluster_client_scheme \<Rightarrow> 'w reconciler \<Rightarrow> object_key \<Rightarrow> 'w \<Rightarrow>
   pod \<Rightarrow> koroner_config_spec \<Rightarrow> pod_death \<Rightarrow> bool" where
  "detects_pod L K rc req w pod cfg death \<longleftrightarrow>
     (case run_state (k_get_pod K req) w of (p, w1) \<Rightarrow>
      case run_state (resolveConfig K (om_namespace (pod_meta pod)) (rc_operator_namespace rc)) w1 of (c, w2) \<Rightarrow>
        p = Inr pod \<and> c = cfg \<and> wp_pod_crashes (cfg_watch cfg) = Some True \<and>
        fst (run_state (namespaceWatched L K cfg (om_namespace (pod_meta pod))) w2) \<and>
        detectPodDeath pod cfg = Some death)"

definition detects_job ::
  "('l) go_lib_scheme \<Rightarrow> ('w, 'z) cluster_client_scheme \<Rightarrow> 'w reconciler \<Rightarrow> object_key \<Rightarrow> 'w \<Rightarrow>
   job \<Rightarrow> koroner_config_spec \<Rightarrow> bool" where
  "detects_job L K rc req w job cfg \<longleftrightarrow>
     (case run_state (k_get_job K req) w of (j, w1) \<Rightarrow>
      case run_state (resolveConfig K (om_namespace (job_meta job)) (rc_operator_namespace rc)) w1 of (c, w2) \<Rightarrow>
        j = Inr job \<and> c = cfg \<and> wp_job_failures (cfg_watch cfg) = Some True \<and>
        fst (run_state (namespaceWatched L K cfg (om_namespace (job_meta job))) w2) \<and>
        jobFailed (job_conditions job))"

text \<open>An episode that is new to the issue, recorded with a fresh status\<close>
definition recorded_as :: "recorded_death \<Rightarrow> obituary_status \<Rightarrow> bool" where
  "recorded_as d st \<longleftrightarrow> st_last_episode st = rd_episode d \<and> st_last_pod st = rd_last_pod d \<and>
     st_phase st = PhaseComplete \<and> st_cause_of_death st = st_cause_of_death (rd_status d) \<and>
     st_confidence st = st_confidence (rd_status d) \<and> st_first_seen st \<noteq> None \<and>
     st_heal_attempts st = [] \<and> st_last_heal_at st = None"

text \<open>What a handler records: the diagnosis of its evidence, under the key of the issue\<close>
definition filed :: "subject \<Rightarrow> string \<Rightarrow> verdict \<Rightarrow> string \<Rightarrow> string \<Rightarrow> string \<Rightarrow> obituary_status \<Rightarrow> bool" where
  "filed subject container v ep deceased k st \<longleftrightarrow>
     k = issueKey subject container (v_cause v) \<and>
     st_last_episode st = ep \<and> st_last_pod st = deceased \<and> st_phase st = PhaseComplete \<and>
     st_cause_of_death st = v_cause v \<and> st_confidence st = v_confidence v \<and> st_first_seen st \<noteq> None"

text \<open>The owners and events a handler finds for an object, reading in the world \<open>w\<close>\<close>
definition gathered ::
  "('l) go_lib_scheme \<Rightarrow> ('w, 'z) cluster_client_scheme \<Rightarrow> object_meta \<Rightarrow> 'w \<Rightarrow>
   owner_record list \<times> event_record list" where
  "gathered L K m w =
     (case run_state (OwnerChain L K (om_namespace m) (om_owner_references m)) w of (owners, w1) \<Rightarrow>
        (owners, case fst (run_state (Events K (om_namespace m) (om_uid m)) w1) of
           Inl err \<Rightarrow> [] | Inr evs \<Rightarrow> evs))"

lemma recorded_filed:
  assumes "recorded_as d st" "fresh_status v (rd_status d)"
  shows "filed (rd_subject d) container v (rd_episode d) (rd_last_pod d)
    (issueKey (rd_subject d) container (v_cause v)) st" "st_heal_attempts st = []"
  using assms by (simp_all add: recorded_as_def fresh_status_def filed_def)

subsection \<open>A quiet cluster\<close>

text \<open>
  \<open>collect_frame\<close>: the calls an investigation makes besides those about obituaries keep \<open>R\<close>, and
  so does everything it gathers. A quiet cluster's leave the obituaries alone.
\<close>
locale collect_frame =
  fixes K :: "('w, 'z) cluster_client_scheme" and R :: "'w \<Rightarrow> 'w \<Rightarrow> bool"
  assumes collect_world: "world_frame R"
    and clock_kept: "state_io_rel R (k_now K)"
    and owners_kept: "state_io_rel R (k_get_owner_references K gv kind k)"
    and events_kept: "state_io_rel R (k_list_events K ns uid)"
    and logs_kept: "state_io_rel R (k_get_logs K k c prev n)"
    and http_kept: "state_io_rel R (k_http_do K rq)"
    and secret_kept: "state_io_rel R (k_get_secret_data K k)"
    and configs_kept: "state_io_rel R (k_list_configs K ns)"
    and config_kept: "state_io_rel R (k_get_config K k)"
    and nslabels_kept: "state_io_rel R (k_get_namespace_labels K ns)"
    and pod_kept: "state_io_rel R (k_get_pod K k)"
    and job_kept: "state_io_rel R (k_get_job K k)"
begin

lemma collect_keeps:
  "state_io_rel R (OwnerChain L K ns owners)"
  "state_io_rel R (Events K ns uid)"
  "state_io_rel R (resolveConfig K ns op)"
  "state_io_rel R (namespaceWatched L K spec ns)"
  "state_io_rel R (resolveNarrator L K policy ns fallback)"
  "state_io_rel R (runNarrator L K n v st)"
  by (simp_all only: OwnerChain_def owner_walk_frame[OF collect_world owners_kept]
      Events_frame[OF collect_world events_kept] resolveConfig_frame[OF collect_world configs_kept config_kept]
      namespaceWatched_frame[OF collect_world nslabels_kept] resolveNarrator_frame[OF collect_world secret_kept]
      runNarrator_frame[OF collect_world http_kept])

lemma buildStatus_keeps: "state_io_rel R (buildStatus L K n pod death v events owners cfg)"
proof -
  have "state_io_rel R (collect_log_tail K pod death cfg)"
    unfolding collect_log_tail_def
    by (intro frame_intros collect_world PreviousLogs_frame logs_kept)
  moreover have "state_io_rel R (add_metrics L K pod cfg st)" for st
    unfolding add_metrics_def Let_def
    by (intro frame_intros collect_world CollectMetrics_frame clock_kept http_kept)
  ultimately show ?thesis
    unfolding buildStatus_def by (intro frame_intros collect_world collect_keeps)
qed

end

locale quiet_cluster = quiet_server K versions + collect_frame K "\<lambda>w w'. versions w' = versions w"
  for K :: "('w, 'z) cluster_client_scheme" and versions :: "'w \<Rightarrow> object_key \<Rightarrow> history"
begin

abbreviation same :: "'w \<Rightarrow> 'w \<Rightarrow> bool" where
  "same w w' \<equiv> versions w' = versions w"

lemmas clock_quiet = clock_kept and pod_quiet = pod_kept and job_quiet = job_kept
  and collect_quiet = collect_keeps and buildStatus_quiet = buildStatus_keeps

lemma same_status: "same w w' \<Longrightarrow> status_at versions w' = status_at versions w"
  by (simp add: status_at_def fun_eq_iff)

text \<open>An upsert against the quiet store never fails, and leaves the episode as the latest.\<close>
lemma upsert_latest:
  assumes "run_state (upsertObituary L K d) w = (res, w')"
  obtains st where "status_at versions w' (death_key L d) = Some st"
    "st = upsert_status (status_at versions w (death_key L d)) d"
    "st_last_episode st = rd_episode d" "snd (snd res) = None"
proof -
  let ?s = "status_at versions w (death_key L d)"
  obtain w2 where "run_state (upsertObituary L K d) w = (upsert_result ?s d, w2)"
    "status_at versions w2 = (status_at versions w)(death_key L d := Some (upsert_status ?s d))"
    by (rule upsert_refines)
  moreover have "st_last_episode (upsert_status ?s d) = rd_episode d"
    by (simp add: upsert_status_def count_step_def split: option.split)
  moreover have "snd (snd (upsert_result ?s d)) = None"
    by (simp add: upsert_result_def split: option.split)
  ultimately show thesis using that assms by auto
qed

lemma upsert_then_gate:
  assumes "run_state (upsertObituary L K d) w = (res, w')"
  obtains w'' where "run_state (episode_gate K (death_key L d) (rd_episode d)) w' = (Some None, w'')"
    "same w' w''"
  using upsert_latest[OF assms] gate_counted by metis

lemma upsert_fresh:
  assumes "fresh_status v (rd_status d)"
    and "\<And>s. status_at versions w (death_key L d) = Some s \<Longrightarrow> st_last_episode s \<noteq> rd_episode d"
  obtains w' c b st where "run_state (upsertObituary L K d) w = ((c, b, None), w')"
    "status_at versions w' = (status_at versions w)(death_key L d := Some st)" "recorded_as d st"
proof -
  let ?s = "status_at versions w (death_key L d)"
  obtain w' where u: "run_state (upsertObituary L K d) w = (upsert_result ?s d, w')"
    "status_at versions w' = (status_at versions w)(death_key L d := Some (upsert_status ?s d))"
    by (rule upsert_refines)
  have "upsert_status ?s d = first_status d \<or> (\<exists>s. upsert_status ?s d = bumped_status d s)"
    using assms(2) by (auto simp: upsert_status_def count_step_def split: option.split)
  then have "recorded_as d (upsert_status ?s d)"
    using assms(1) by (auto simp: recorded_as_def fresh_status_def first_status_def bumped_status_def
        split: option.splits)
  with u that show thesis by (cases ?s) (auto simp: upsert_result_def)
qed

lemma gate_cases:
  assumes "run_state (episode_gate K k ep) w = (stop, w')"
  obtains (counted) st where "stop = Some None" "same w w'"
      "status_at versions w k = Some st" "st_last_episode st = ep"
  | (new) "stop = None" "same w w'" "\<And>st. status_at versions w k = Some st \<Longrightarrow> st_last_episode st \<noteq> ep"
proof (cases "\<exists>st. status_at versions w k = Some st \<and> st_last_episode st = ep")
  case True
  then obtain st where st: "status_at versions w k = Some st" "st_last_episode st = ep" by blast
  obtain w2 where "run_state (episode_gate K k ep) w = (Some None, w2)" "same w w2"
    using gate_counted[OF st] .
  with assms counted[OF _ _ st] show thesis by simp
next
  case False
  then have fresh: "st_last_episode st \<noteq> ep" if "status_at versions w k = Some st" for st
    using that by blast
  from gate_open[of w k ep, OF fresh] assms new fresh show thesis by auto
qed

subsection \<open>The handlers\<close>

text \<open>A detected pod death is either the episode counted last, or filed.\<close>
lemma record_pod_death_cases:
  assumes "run_state (record_pod_death L K narrator pod death cfg) w = (r, w')"
  obtains (counted) owners evs k st where "r = Inl None" "same w w'" "gathered L K (pod_meta pod) w = (owners, evs)"
      "k = issueKey (workloadSubject pod owners) (pd_container death)
        (v_cause (diagnose (lib_uni_lower L) (death_evidence death evs)))"
      "status_at versions w (obituary_object_key L (workloadSubject pod owners) k) = Some st"
      "st_last_episode st = pod_episode (om_uid (pod_meta pod)) (pd_restart_count death)"
  | (recorded) owners evs k st where "r = Inr (workloadSubject pod owners, k, cfg)"
      "gathered L K (pod_meta pod) w = (owners, evs)"
      "status_at versions w' = (status_at versions w)
        (obituary_object_key L (workloadSubject pod owners) k := Some st)"
      "filed (workloadSubject pod owners) (pd_container death)
        (diagnose (lib_uni_lower L) (death_evidence death evs))
        (pod_episode (om_uid (pod_meta pod)) (pd_restart_count death)) (om_name (pod_meta pod)) k st" "st_heal_attempts st = []"
proof -
  let ?ns = "om_namespace (pod_meta pod)" and ?uid = "om_uid (pod_meta pod)"
  obtain owners w1 where o: "run_state (OwnerChain L K ?ns (om_owner_references (pod_meta pod))) w = (owners, w1)"
    by force
  obtain evr w2 where ev: "run_state (Events K ?ns ?uid) w1 = (evr, w2)" by force
  define evs where "evs = (case evr of Inl err \<Rightarrow> [] | Inr evs \<Rightarrow> evs)"
  have found: "gathered L K (pod_meta pod) w = (owners, evs)" using o ev by (simp add: gathered_def evs_def)
  define v where "v = diagnose (lib_uni_lower L) (death_evidence death evs)"
  define subj where "subj = workloadSubject pod owners"
  define k where "k = issueKey subj (pd_container death) (v_cause v)"
  define ep where "ep = pod_episode ?uid (pd_restart_count death)"
  note names = evs_def[symmetric] v_def[symmetric] subj_def[symmetric] k_def[symmetric] ep_def[symmetric]
  let ?key = "obituary_object_key L subj k"
  obtain stop w3 where g: "run_state (episode_gate K ?key ep) w2 = (stop, w3)" by force
  have s2: "same w w2"
    using state_io_relD[OF collect_quiet(1) o] state_io_relD[OF collect_quiet(2) ev] by simp
  from g show thesis
  proof (cases rule: gate_cases)
    case gated: (counted st)
    with assms o ev g have "r = Inl None" "w' = w3"
      unfolding record_pod_death_def by (simp_all add: Let_def names)
    with s2 gated(2-4) same_status[OF s2] show thesis
      by (intro counted[OF _ _ found, of k st]) (simp_all add: subj_def ep_def k_def v_def)
  next
    case new
    obtain status w4 where b: "run_state (buildStatus L K narrator pod death v evs owners cfg) w3 = (status, w4)"
      by force
    obtain now w5 where t: "run_state (k_now K) w4 = (now, w5)" by force
    define d where "d = \<lparr>rd_subject = subj, rd_issue_key = k, rd_episode = ep,
      rd_last_pod = om_name (pod_meta pod), rd_now = now, rd_status = status\<rparr>"
    have d: "death_key L d = ?key" "rd_status d = status" "rd_episode d = ep" "rd_subject d = subj"
      "rd_last_pod d = om_name (pod_meta pod)" by (simp_all add: death_key_object_key d_def)
    have s5: "same w2 w5"
      using new(2) state_io_relD[OF buildStatus_quiet b] state_io_relD[OF clock_quiet t] by simp
    have fresh: "fresh_status v (rd_status d)" using buildStatus_fresh[OF b] d(2) by simp
    have "st_last_episode s \<noteq> rd_episode d" if "status_at versions w5 (death_key L d) = Some s" for s
      using new(3) that same_status[OF s5] d by simp
    from upsert_fresh[OF fresh this] obtain w6 c bu st where u:
      "run_state (upsertObituary L K d) w5 = ((c, bu, None), w6)"
      "status_at versions w6 = (status_at versions w5)(death_key L d := Some st)" "recorded_as d st" .
    have res: "r = Inr (subj, k, cfg)" "w' = w6"
      using assms o ev g new(1) b t u(1) unfolding record_pod_death_def
      by (simp_all add: Let_def names d_def[symmetric])
    have "status_at versions w' = (status_at versions w)(?key := Some st)"
      using u(2) res(2) same_status[OF s5] same_status[OF s2] d(1) by simp
    moreover have "filed subj (pd_container death) v ep (om_name (pod_meta pod)) k st"
      using recorded_filed(1)[OF u(3) fresh, of "pd_container death"] d by (simp add: k_def)
    ultimately show thesis
      using recorded[OF _ found, of k st] res(1) recorded_filed(2)[OF u(3) fresh] unfolding subj_def v_def ep_def by blast
  qed
qed

text \<open>The same for a failed Job\<close>
lemma record_job_failure_cases:
  assumes "run_state (record_job_failure L K narrator job cfg) w = (r, w')"
  obtains (counted) owners evs k st where "r = Inl None" "same w w'" "gathered L K (job_meta job) w = (owners, evs)"
      "k = issueKey (jobSubject job owners) '''' (v_cause (diagnose (lib_uni_lower L) (job_evidence evs)))"
      "status_at versions w (obituary_object_key L (jobSubject job owners) k) = Some st"
      "st_last_episode st = om_uid (job_meta job)"
  | (recorded) owners evs k st where "r = Inr (jobSubject job owners, k, cfg)"
      "gathered L K (job_meta job) w = (owners, evs)"
      "status_at versions w' = (status_at versions w)
        (obituary_object_key L (jobSubject job owners) k := Some st)"
      "filed (jobSubject job owners) '''' (diagnose (lib_uni_lower L) (job_evidence evs))
        (om_uid (job_meta job)) (om_name (job_meta job)) k st" "st_heal_attempts st = []"
proof -
  let ?ns = "om_namespace (job_meta job)"
  obtain owners w1 where o: "run_state (OwnerChain L K ?ns (om_owner_references (job_meta job))) w = (owners, w1)"
    by force
  obtain evr w2 where ev: "run_state (Events K ?ns (om_uid (job_meta job))) w1 = (evr, w2)" by force
  define evs where "evs = (case evr of Inl err \<Rightarrow> [] | Inr evs \<Rightarrow> evs)"
  have found: "gathered L K (job_meta job) w = (owners, evs)" using o ev by (simp add: gathered_def evs_def)
  define v where "v = diagnose (lib_uni_lower L) (job_evidence evs)"
  define subj where "subj = jobSubject job owners"
  define k where "k = issueKey subj '''' (v_cause v)"
  define ep where "ep = om_uid (job_meta job)"
  note names = evs_def[symmetric] v_def[symmetric] subj_def[symmetric] k_def[symmetric]
  let ?key = "obituary_object_key L subj k"
  obtain stop w3 where g: "run_state (episode_gate K ?key ep) w2 = (stop, w3)" by force
  have s2: "same w w2"
    using state_io_relD[OF collect_quiet(1) o] state_io_relD[OF collect_quiet(2) ev] by simp
  from g show thesis
  proof (cases rule: gate_cases)
    case gated: (counted st)
    with assms o ev g have "r = Inl None" "w' = w3"
      unfolding record_job_failure_def by (simp_all add: Let_def names ep_def)
    with s2 gated(2-4) same_status[OF s2] show thesis
      by (intro counted[OF _ _ found, of k st]) (simp_all add: subj_def ep_def k_def v_def)
  next
    case new
    obtain n w4 where n: "run_state (resolveNarrator L K (cfg_narrator cfg) ?ns narrator) w3 = (n, w4)" by force
    obtain status w5 where b: "run_state (runNarrator L K n v (job_status job v evs owners)) w4 = (status, w5)"
      by force
    obtain now w6 where t: "run_state (k_now K) w5 = (now, w6)" by force
    define d where "d = \<lparr>rd_subject = subj, rd_issue_key = k, rd_episode = ep,
      rd_last_pod = om_name (job_meta job), rd_now = now, rd_status = status\<rparr>"
    have d: "death_key L d = ?key" "rd_status d = status" "rd_episode d = ep" "rd_subject d = subj"
      "rd_last_pod d = om_name (job_meta job)" by (simp_all add: death_key_object_key d_def)
    have s6: "same w2 w6"
      using new(2) state_io_relD[OF collect_quiet(5) n] state_io_relD[OF collect_quiet(6) b]
        state_io_relD[OF clock_quiet t] by simp
    have fresh: "fresh_status v (rd_status d)" using runNarrator_fresh[OF job_status_fresh b] d(2) by simp
    have "st_last_episode s \<noteq> rd_episode d" if "status_at versions w6 (death_key L d) = Some s" for s
      using new(3) that same_status[OF s6] d by simp
    from upsert_fresh[OF fresh this] obtain w7 c bu st where u:
      "run_state (upsertObituary L K d) w6 = ((c, bu, None), w7)"
      "status_at versions w7 = (status_at versions w6)(death_key L d := Some st)" "recorded_as d st" .
    have res: "r = Inr (subj, k, cfg)" "w' = w7"
      using assms o ev g new(1) n b t u(1) unfolding record_job_failure_def
      by (simp_all add: Let_def names ep_def[symmetric] d_def[symmetric])
    have "status_at versions w' = (status_at versions w)(?key := Some st)"
      using u(2) res(2) same_status[OF s6] same_status[OF s2] d(1) by simp
    moreover have "filed subj '''' v ep (om_name (job_meta job)) k st"
      using recorded_filed(1)[OF u(3) fresh, of "''''"] d by (simp add: k_def)
    ultimately show thesis
      using recorded[OF _ found, of k st] res(1) recorded_filed(2)[OF u(3) fresh] unfolding subj_def v_def ep_def by blast
  qed
qed

lemma investigate_pod_detects:
  assumes "detects_pod L K rc req w pod cfg death"
  obtains w' where "run_state (investigate_pod L K rc req) w =
      run_state (record_pod_death L K (rc_narrator rc) pod death cfg) w'" "same w w'"
proof -
  let ?ns = "om_namespace (pod_meta pod)"
  from assms obtain w1 w2 where r: "run_state (k_get_pod K req) w = (Inr pod, w1)"
    "run_state (resolveConfig K ?ns (rc_operator_namespace rc)) w1 = (cfg, w2)"
    "wp_pod_crashes (cfg_watch cfg) = Some True" "fst (run_state (namespaceWatched L K cfg ?ns) w2)"
    "detectPodDeath pod cfg = Some death"
    by (auto simp: detects_pod_def split: prod.splits)
  obtain w3 where n: "run_state (namespaceWatched L K cfg ?ns) w2 = (True, w3)"
    using r(4) by (metis (full_types) prod.collapse)
  have "same w w3"
    using state_io_relD[OF pod_quiet r(1)] state_io_relD[OF collect_quiet(3) r(2)]
      state_io_relD[OF collect_quiet(4) n] by simp
  with r n that show thesis by (simp add: investigate_pod_def)
qed

lemma investigate_job_detects:
  assumes "detects_job L K rc req w job cfg"
  obtains w' where "run_state (investigate_job L K rc req) w =
      run_state (record_job_failure L K (rc_narrator rc) job cfg) w'" "same w w'"
proof -
  let ?ns = "om_namespace (job_meta job)"
  from assms obtain w1 w2 where r: "run_state (k_get_job K req) w = (Inr job, w1)"
    "run_state (resolveConfig K ?ns (rc_operator_namespace rc)) w1 = (cfg, w2)"
    "wp_job_failures (cfg_watch cfg) = Some True" "fst (run_state (namespaceWatched L K cfg ?ns) w2)"
    "jobFailed (job_conditions job)"
    by (auto simp: detects_job_def split: prod.splits)
  obtain w3 where n: "run_state (namespaceWatched L K cfg ?ns) w2 = (True, w3)"
    using r(4) by (metis (full_types) prod.collapse)
  have "same w w3"
    using state_io_relD[OF job_quiet r(1)] state_io_relD[OF collect_quiet(3) r(2)]
      state_io_relD[OF collect_quiet(4) n] by simp
  with r n that show thesis by (simp add: investigate_job_def)
qed

end

locale quiet_koroner = quiet_heal K versions e + quiet_cluster K versions
  for K :: "('w, 'q, 'z) kube_client_scheme" and versions :: "'w \<Rightarrow> object_key \<Rightarrow> history"
    and e :: "'w engine"
begin

text \<open>A heal leaves the obituary as it is or appends one record; it touches no other obituary.\<close>
lemma heal_appends:
  assumes "sound_factory e" "status_at versions w (obit_key x) = Some st"
    and "run_state (MaybeHeal L K e x c) (w, r) = ((), (w', r'))"
  shows "status_at versions w' = status_at versions w \<or>
    (\<exists>rec. status_at versions w' =
      (status_at versions w)(obit_key x := Some (with_record (eng_max_attempts e) rec st)))"
proof (cases "passes_gates L K x (cfg_self_heal c) w")
  case False
  then have "versions w' = versions w" using MaybeHeal_silent assms(3) by blast
  then show ?thesis by (simp add: status_at_def fun_eq_iff)
next
  case True
  from MaybeHeal_recorded[OF assms(1,2) True assms(3)] show ?thesis by metis
qed

text \<open>The obituary of a recorded issue after the heal that follows\<close>
definition healed_from :: "obituary_status \<Rightarrow> obituary_status \<Rightarrow> bool" where
  "healed_from st st' \<longleftrightarrow> st' = st \<or> (\<exists>rec. st' = with_record (eng_max_attempts e) rec st)"

lemma healed_from_fields:
  assumes "healed_from st st'"
  shows "filed subject container v ep deceased k st \<Longrightarrow> filed subject container v ep deceased k st'"
    and "st_heal_attempts st = [] \<Longrightarrow> length (st_heal_attempts st') \<le> 1"
  using assms by (auto simp: healed_from_def with_record_def filed_def trim_attempts_def)

lemma heal_step:
  assumes "sound_factory e" "status_at versions w k = Some st"
    and "run_state (k_get_obit K k) w = (Inr x, w1)" "versions w1 = versions w" "obit_key x = k"
    and "run_state m w1 = (c, w2)" "versions w2 = versions w1"
    and "run_state (MaybeHeal L K e x c) (w2, r) = ((), (w', r'))"
  obtains st' where "status_at versions w' k = Some st'" "healed_from st st'"
proof -
  have s: "status_at versions w2 = status_at versions w"
    using assms(4,7) by (simp add: status_at_def fun_eq_iff)
  with assms(2,5) have "status_at versions w2 (obit_key x) = Some st" by simp
  from heal_appends[OF assms(1) this assms(8)] show thesis
  proof
    assume "status_at versions w' = status_at versions w2"
    with that[of st] s assms(2) show thesis by (simp add: healed_from_def)
  next
    assume "\<exists>rec. status_at versions w' =
      (status_at versions w2)(obit_key x := Some (with_record (eng_max_attempts e) rec st))"
    then obtain rec where "status_at versions w' k = Some (with_record (eng_max_attempts e) rec st)"
      using assms(5) by auto
    with that show thesis by (auto simp: healed_from_def)
  qed
qed

lemma tryHeal_appends:
  assumes "sound_factory e" "rc_self_heal rc = Some e"
    and "status_at versions w (obituary_object_key L subject k) = Some st"
  obtains w' r' st' where "run_state (tryHeal L K rc subject k) (w, r) = ((), (w', r'))"
    "status_at versions w' (obituary_object_key L subject k) = Some st'" "healed_from st st'"
proof -
  let ?key = "obituary_object_key L subject k"
  obtain x where x: "latest (versions w ?key) = Some x" using assms(3) by (auto simp: status_at_def)
  obtain w1 where g: "run_state (k_get_obit K ?key) w = (Inr x, w1)" "versions w1 = versions w"
    "obit_key x = ?key" using get_found[OF x] .
  obtain c w2 where c: "run_state (resolveConfig K (sub_namespace subject) (rc_operator_namespace rc)) w1 = (c, w2)"
    by force
  have s: "same w1 w2" using state_io_relD[OF collect_quiet(3) c] .
  obtain w' r' where m: "run_state (MaybeHeal L K e x c) (w2, r) = ((), (w', r'))"
    by (metis old.unit.exhaust prod.collapse)
  obtain st' where "status_at versions w' ?key = Some st'" "healed_from st st'"
    using heal_step[OF assms(1,3) g c s m] .
  moreover have "run_state (tryHeal L K rc subject k) (w, r) = ((), (w', r'))"
    using assms(2) g(1) c m by (simp add: tryHeal_def)
  ultimately show thesis using that by blast
qed

lemma heal_job_appends:
  assumes "sound_factory e" "rc_self_heal rc = Some e"
    and "status_at versions w (obituary_object_key L subject k) = Some st"
  obtains w' r' st' where "run_state (heal_job L K rc subject k cfg) (w, r) = ((), (w', r'))"
    "status_at versions w' (obituary_object_key L subject k) = Some st'" "healed_from st st'"
proof -
  let ?key = "obituary_object_key L subject k"
  obtain x where x: "latest (versions w ?key) = Some x" using assms(3) by (auto simp: status_at_def)
  obtain w1 where g: "run_state (k_get_obit K ?key) w = (Inr x, w1)" "versions w1 = versions w"
    "obit_key x = ?key" using get_found[OF x] .
  obtain w' r' where m: "run_state (MaybeHeal L K e x cfg) (w1, r) = ((), (w', r'))"
    by (metis old.unit.exhaust prod.collapse)
  have ret: "run_state (ret cfg) w1 = (cfg, w1)" by simp
  obtain st' where "status_at versions w' ?key = Some st'" "healed_from st st'"
    using heal_step[OF assms(1,3) g ret _ m] by auto
  moreover have "run_state (heal_job L K rc subject k cfg) (w, r) = ((), (w', r'))"
    using assms(2) g(1) m by (simp add: heal_job_def)
  ultimately show thesis using that by blast
qed

text \<open>
  A detected pod death ends in an obituary of its issue whose latest episode it is: either the
  one found, or one filed by this reconcile, whose audit trail starts afresh and holds at most
  the record of the heal that followed.
\<close>
lemma PodReconcile_records:
  assumes "sound_factory e" "rc_self_heal rc = Some e" "detects_pod L K rc req w pod cfg death"
  obtains w' r' u owners evs st where "run_state (PodReconcile L K rc req) (w, r) = (None, (w', r'))"
    "versions u = versions w" "gathered L K (pod_meta pod) u = (owners, evs)"
    "status_at versions w' (obituary_object_key L (workloadSubject pod owners)
        (issueKey (workloadSubject pod owners) (pd_container death) (v_cause (diagnose (lib_uni_lower L) (death_evidence death evs))))) = Some st"
    "st_last_episode st = pod_episode (om_uid (pod_meta pod)) (pd_restart_count death)"
    "status_at versions w (obituary_object_key L (workloadSubject pod owners)
        (issueKey (workloadSubject pod owners) (pd_container death) (v_cause (diagnose (lib_uni_lower L) (death_evidence death evs))))) = Some st \<or>
     (filed (workloadSubject pod owners) (pd_container death)
        (diagnose (lib_uni_lower L) (death_evidence death evs))
        (pod_episode (om_uid (pod_meta pod)) (pd_restart_count death)) (om_name (pod_meta pod))
        (issueKey (workloadSubject pod owners) (pd_container death) (v_cause (diagnose (lib_uni_lower L) (death_evidence death evs)))) st \<and>
      length (st_heal_attempts st) \<le> 1)"
proof -
  obtain w0 where i: "run_state (investigate_pod L K rc req) w =
      run_state (record_pod_death L K (rc_narrator rc) pod death cfg) w0" "same w w0"
    using investigate_pod_detects[OF assms(3)] .
  obtain res w1 where rec: "run_state (record_pod_death L K (rc_narrator rc) pod death cfg) w0 = (res, w1)"
    by force
  from rec show thesis
  proof (cases rule: record_pod_death_cases)
    case (counted owners evs k st)
    have "run_state (PodReconcile L K rc req) (w, r) = (None, (w1, r))"
      using i(1) rec counted(1) by (simp add: PodReconcile_def)
    with that[of w1 r w0 owners evs st] counted i(2) same_status[OF i(2)] same_status[OF counted(2)]
    show thesis by simp
  next
    case (recorded owners evs k st)
    let ?key = "obituary_object_key L (workloadSubject pod owners) k"
    have "status_at versions w1 ?key = Some st" using recorded(3) by simp
    from tryHeal_appends[OF assms(1,2) this] obtain w' r' st' where
      h: "run_state (tryHeal L K rc (workloadSubject pod owners) k) (w1, r) = ((), (w', r'))"
      "status_at versions w' ?key = Some st'" "healed_from st st'" .
    have "run_state (PodReconcile L K rc req) (w, r) = (None, (w', r'))"
      using i(1) rec recorded(1) h(1) by (simp add: PodReconcile_def)
    moreover have "k = issueKey (workloadSubject pod owners) (pd_container death) (v_cause (diagnose (lib_uni_lower L) (death_evidence death evs)))"
      using recorded(4) by (simp add: filed_def)
    ultimately show thesis
      using that[of w' r' w0 owners evs st'] h(2) healed_from_fields[OF h(3)] recorded(2,4,5) i(2)
      by (simp add: filed_def)
  qed
qed

lemma JobReconcile_records:
  assumes "sound_factory e" "rc_self_heal rc = Some e" "detects_job L K rc req w job cfg"
  obtains w' r' u owners evs st where "run_state (JobReconcile L K rc req) (w, r) = (None, (w', r'))"
    "versions u = versions w" "gathered L K (job_meta job) u = (owners, evs)"
    "status_at versions w' (obituary_object_key L (jobSubject job owners)
        (issueKey (jobSubject job owners) '''' (v_cause (diagnose (lib_uni_lower L) (job_evidence evs))))) = Some st"
    "st_last_episode st = om_uid (job_meta job)"
    "status_at versions w (obituary_object_key L (jobSubject job owners)
        (issueKey (jobSubject job owners) '''' (v_cause (diagnose (lib_uni_lower L) (job_evidence evs))))) = Some st \<or>
     (filed (jobSubject job owners) '''' (diagnose (lib_uni_lower L) (job_evidence evs))
        (om_uid (job_meta job)) (om_name (job_meta job))
        (issueKey (jobSubject job owners) '''' (v_cause (diagnose (lib_uni_lower L) (job_evidence evs)))) st \<and> length (st_heal_attempts st) \<le> 1)"
proof -
  obtain w0 where i: "run_state (investigate_job L K rc req) w =
      run_state (record_job_failure L K (rc_narrator rc) job cfg) w0" "same w w0"
    using investigate_job_detects[OF assms(3)] .
  obtain res w1 where rec: "run_state (record_job_failure L K (rc_narrator rc) job cfg) w0 = (res, w1)"
    by force
  from rec show thesis
  proof (cases rule: record_job_failure_cases)
    case (counted owners evs k st)
    have "run_state (JobReconcile L K rc req) (w, r) = (None, (w1, r))"
      using i(1) rec counted(1) by (simp add: JobReconcile_def)
    with that[of w1 r w0 owners evs st] counted i(2) same_status[OF i(2)] same_status[OF counted(2)]
    show thesis by simp
  next
    case (recorded owners evs k st)
    let ?key = "obituary_object_key L (jobSubject job owners) k"
    have "status_at versions w1 ?key = Some st" using recorded(3) by simp
    from heal_job_appends[OF assms(1,2) this] obtain w' r' st' where
      h: "run_state (heal_job L K rc (jobSubject job owners) k cfg) (w1, r) = ((), (w', r'))"
      "status_at versions w' ?key = Some st'" "healed_from st st'" .
    have "run_state (JobReconcile L K rc req) (w, r) = (None, (w', r'))"
      using i(1) rec recorded(1) h(1) by (simp add: JobReconcile_def)
    moreover have "k = issueKey (jobSubject job owners) '''' (v_cause (diagnose (lib_uni_lower L) (job_evidence evs)))"
      using recorded(4) by (simp add: filed_def)
    ultimately show thesis
      using that[of w' r' w0 owners evs st'] h(2) healed_from_fields[OF h(3)] recorded(2,4,5) i(2)
      by (simp add: filed_def)
  qed
qed

end

interpretation mem_koroner: quiet_koroner mem_client mem_versions NewEngine
proof unfold_locales
  have k: "k_get_owner_references mem_client gv kind k = mem_read (\<lambda>w. m_owner_refs w (gv, kind, k))"
    "k_list_events mem_client ns uid = mem_read (\<lambda>w. m_events w (ns, uid))"
    "k_get_logs mem_client k c prev n = mem_read (\<lambda>w. m_logs w (k, c, prev))"
    "k_get_secret_data mem_client k = mem_read (\<lambda>w. m_secrets w k)"
    "k_get_config mem_client k = mem_read (\<lambda>w. find_first (\<lambda>c. config_key c = k) (m_configs w))"
    "k_get_job mem_client k = mem_read (\<lambda>w. m_jobs w k)"
    for gv kind k ns uid c prev n by (simp_all add: mem_client_def)
  let ?R = "\<lambda>w w'. mem_versions w' = mem_versions w"
  note mem_frames(2)[OF same_versions_frame]
  then show "state_io_rel ?R (k_get_owner_references mem_client gv kind k)"
    "state_io_rel ?R (k_list_events mem_client ns uid)" "state_io_rel ?R (k_get_logs mem_client k c prev n)"
    "state_io_rel ?R (k_get_secret_data mem_client k)" "state_io_rel ?R (k_get_config mem_client k)"
    "state_io_rel ?R (k_get_job mem_client k)" "state_io_rel ?R (k_get_pod mem_client k)"
    "state_io_rel ?R (k_get_namespace_labels mem_client ns)"
    for gv kind k ns uid c prev n by (simp_all only: k mem_reads)
  show "state_io_rel ?R (k_now mem_client)" by (rule mem_frames(1)[OF same_versions_frame])
  show "state_io_rel ?R (k_http_do mem_client rq)" for rq
    by (simp add: state_io_rel_def mem_client_def)
  show "state_io_rel ?R (k_list_configs mem_client ns)" for ns
    by (simp add: state_io_rel_def mem_client_def)
qed (rule same_versions_frame)

end
