(* ===== verification/Sample.thy ===== *)
theory Sample
  imports Cluster
begin

section \<open>A sample cluster\<close>

text \<open>
  Concrete values for the parameters of the model, on which its theorems are applied: a library
  instance whose quantities are whole bytes, and a cluster with one crashing pod of a
  Deployment. Not part of the program.
\<close>

definition sample_lib :: "int koroner_lib" where
  "sample_lib = \<lparr>
     lib_uni_lower = (\<lambda>r. r),
     lib_selector = (\<lambda>ls. Inr \<lparr>sel_empty = False, sel_matches = (\<lambda>l. True)\<rparr>),
     lib_parse_group_version = (\<lambda>s. Inr ('''', s)),
     lib_request_error = (\<lambda>u. None),
     lib_quote = (\<lambda>s. s),

     lib_parse_float = (\<lambda>s. Inr NaN),
     lib_json_error = (\<lambda>t s. errorf t),
     lib_quantity_value = word_of_int,
     lib_new_binary = sint,
     lib_quantity_cmp = (\<lambda>a b. a - b),
     lib_quantity_text = show_int,
     lib_parse_quantity = (\<lambda>s. Inr 1073741824),
     lib_float_text = (\<lambda>f. ''NaN''),
     lib_float_overflow = (\<lambda>f. 0),
     lib_sort_slice = slice_stable\<rparr>"

interpretation bytes: quantities sample_lib "of_int :: int \<Rightarrow> rat"
proof unfold_locales
  show "sint (lib_quantity_value sample_lib q) = \<lceil>of_int q :: rat\<rceil>"
    if "0 \<le> (of_int q :: rat)" "of_int q \<le> (2 ^ 63 - 1 :: rat)" for q :: int
  proof -
    have "(of_int q :: rat) \<le> of_int (2 ^ 63 - 1)" using that(2) by simp
    then have "q < 2 ^ 63" unfolding of_int_le_iff by simp
    with that(1) have "sint (word_of_int q :: int64) = q" by (intro sint_word_of_int_64) auto
    then show ?thesis by (simp add: sample_lib_def)
  qed
qed (simp_all add: sample_lib_def)

definition sample_subject :: subject where
  "sample_subject = \<lparr>sub_api_version = ''apps/v1'', sub_kind = ''Deployment'', sub_name = ''web'',
     sub_namespace = ''prod'', sub_uid = ''''\<rparr>"

definition sample_death :: "string \<Rightarrow> recorded_death" where
  "sample_death ep = \<lparr>rd_subject = sample_subject, rd_issue_key = ''abc'', rd_episode = ep,
     rd_last_pod = ''web-1'', rd_now = 1000,
     rd_status = zero_status\<lparr>st_phase := PhaseComplete, st_cause_of_death := CauseRepeatedCrash,
       st_confidence := ConfidenceHigh\<rparr>\<rparr>"

definition sample_key :: object_key where
  "sample_key = (''prod'', ''web-ba7816bf8f'')"

lemma death_key_sample [simp]: "death_key sample_lib (sample_death ep) = sample_key"
proof -
  have "name_prefix (\<lambda>r. r) ''web'' = ''web''" by code_simp
  moreover have "take 10 (hex_encode (sha256 ''abc'')) = ''ba7816bf8f''"
    unfolding sha256_abc by code_simp
  ultimately have "obituaryName (\<lambda>r. r) ''web'' ''abc'' = ''web-ba7816bf8f''"
    by (simp add: obituaryName_parts)
  then show ?thesis
    by (simp add: death_key_def death_name_def sample_lib_def sample_death_def sample_subject_def
        sample_key_def)
qed

text \<open>An obituary with an audit trail, seen for the third time\<close>
definition sample_record :: heal_record where
  "sample_record = \<lparr>hr_time = Some 5, hr_action = SelfHealDeletePod, hr_outcome = HealApplied,
     hr_detail = ''deleted pod web-1'', hr_reason = ''rule'', hr_decided_by = ''rule''\<rparr>"

definition sample_status :: obituary_status where
  "sample_status = (first_status (sample_death ''u1/1''))\<lparr>
     st_occurrences := 3, st_heal_attempts := [sample_record], st_last_heal_at := Some 5\<rparr>"

definition sample_obituary :: obituary where
  "sample_obituary = (new_obituary sample_lib (sample_death ''u1/1''))\<lparr>obit_status := sample_status\<rparr>"

definition sample_mem :: mem where
  "sample_mem = empty_mem\<lparr>m_log := [(sample_key, Some sample_obituary)]\<rparr>"

lemma obit_key_sample [simp]: "obit_key sample_obituary = sample_key"
  by (simp add: sample_obituary_def)

lemma status_empty [simp]: "status_at mem_versions empty_mem k = None"
  by (simp add: status_at_def empty_mem_def log_versions_def)

lemma status_sample [simp]: "status_at mem_versions sample_mem sample_key = Some sample_status"
  by (simp add: status_at_def sample_mem_def log_versions_def stamp_def latest_def sample_obituary_def)

lemma sample_status_fields [simp]:
  "st_last_episode sample_status = ''u1/1''" "st_occurrences sample_status = 3"
  "st_heal_attempts sample_status = [sample_record]" "st_phase sample_status = PhaseComplete"
  "st_confidence sample_status = ConfidenceHigh" "st_cause_of_death sample_status = CauseRepeatedCrash"
  by (simp_all add: sample_status_def sample_death_def first_status_def)

lemma sample_death_episode [simp]: "rd_episode (sample_death ep) = ep" "rd_now (sample_death ep) = 1000"
  by (simp_all add: sample_death_def)

text \<open>A policy with self-heal switched on\<close>
definition sample_policy :: "bool \<Rightarrow> self_heal_policy" where
  "sample_policy dry = (cfg_self_heal DefaultKoronerConfigSpec)\<lparr>hp_enabled := True, hp_dry_run := Some dry\<rparr>"

definition sample_config :: "bool \<Rightarrow> koroner_config_spec" where
  "sample_config dry = DefaultKoronerConfigSpec\<lparr>cfg_self_heal := sample_policy dry\<rparr>"

lemma sample_gates [simp]: "passes_gates sample_lib mem_client sample_obituary (sample_policy dry) w"
  by (simp add: passes_gates_def silent_gates_def sample_policy_def DefaultKoronerConfigSpec_def
      defaults_simps zero_spec_def derefInt32_def boolOr_def namespaceAllowed_def sample_obituary_def
      DefaultSelfHealMinOccurrences_def)

subsection \<open>A crashing pod\<close>

definition sample_pod :: pod where
  "sample_pod = \<lparr>
     pod_meta = zero_meta\<lparr>om_name := ''web-1'', om_namespace := ''prod'', om_uid := ''u2''\<rparr>,
     pod_reason = '''',
     pod_container_statuses = [
       \<lparr>cs_name = ''sidecar'', cs_restart_count = 0, cs_terminated = None,
        cs_waiting_reason = None, cs_last_terminated = None\<rparr>,
       \<lparr>cs_name = ''app'', cs_restart_count = 4, cs_terminated = None,
        cs_waiting_reason = Some ''CrashLoopBackOff'', cs_last_terminated = None\<rparr>]\<rparr>"

definition pod_mem :: mem where
  "pod_mem = empty_mem\<lparr>m_pods := [(''prod'', ''web-1'') \<mapsto> sample_pod],
     m_events := [(''prod'', ''u2'') \<mapsto> []]\<rparr>"

definition sample_reconciler :: "mem reconciler" where
  "sample_reconciler = \<lparr>rc_narrator = Some NoopNarrator, rc_self_heal = Some NewEngine,
     rc_operator_namespace = ''koroner''\<rparr>"

end
