(* ===== verification/Counting.thy ===== *)
theory Counting
  imports Obituary_Store
begin

section \<open>Counting while others write\<close>

text \<open>
  What the upsert of \<^verbatim>\<open>internal/controller/koroner.go\<close> guarantees about the occurrence
  counts when other writers change the same obituaries, reads are stale, and calls fail with or
  without effect. The argument is one of rely and guarantee: \<open>counting_server\<close> extends
  \<open>obit_server\<close> by what the other writers promise, and every write of the upsert is shown to keep
  the same rule. The last part interprets the contract on the executable cluster.
\<close>

subsection \<open>The rule\<close>

text \<open>
  The rule a count follows, stated on two versions of an obituary that follow each other: it goes
  up by one when the episode changes and stays where it was otherwise. A history keeps the rule
  when every two live neighbours do.
\<close>
definition count_rule :: "obituary_status \<Rightarrow> obituary_status \<Rightarrow> bool" where
  "count_rule a b \<longleftrightarrow> st_occurrences b =
     (if st_last_episode b = st_last_episode a then st_occurrences a else st_occurrences a + 1)"

definition counts_on :: "obituary option \<Rightarrow> obituary option \<Rightarrow> bool" where
  "counts_on u v \<longleftrightarrow> (\<forall>x y. u = Some x \<longrightarrow> v = Some y \<longrightarrow> count_rule (obit_status x) (obit_status y))"

definition counts_kept :: "history \<Rightarrow> bool" where
  "counts_kept vs \<longleftrightarrow> successively counts_on vs"

lemma counts_on_simps [simp]:
  "counts_on None v" "counts_on u None"
  "counts_on (Some x) (Some y) \<longleftrightarrow> count_rule (obit_status x) (obit_status y)"
  by (simp_all add: counts_on_def)

subsection \<open>The contract\<close>

text \<open>
  Other writers keep the rule, before and after any call, and the API server lets a status write
  land, if at all, only on a version with the resource version it carries, whether or not the
  caller learns of it. So a write keeps the rule where the written count is the next one of every
  version it can land on. What the caller writes is left to the caller.
\<close>
locale counting_server = obit_server K versions
  for K :: "('w, 'z) obit_client_scheme" and versions :: "'w \<Rightarrow> object_key \<Rightarrow> history" +
  assumes get_counts: "counts_kept (versions w k) \<Longrightarrow>
      counts_kept (versions (snd (run_state (k_get_obit K key) w)) k)"
    and create_counts: "counts_kept (versions w k) \<Longrightarrow>
      counts_kept (versions (snd (run_state (k_create_obit K x) w)) k)"
    and update_counts_elsewhere: "counts_kept (versions w k) \<Longrightarrow> k \<noteq> obit_key x \<Longrightarrow>
      counts_kept (versions (snd (run_state (k_update_obit_status K x) w)) k)"
    and update_counts: "counts_kept (versions w (obit_key x)) \<Longrightarrow>
      run_state (k_update_obit_status K x) w = (e, w') \<Longrightarrow>
      (\<And>cur. Some cur \<in> set (versions w' (obit_key x)) \<Longrightarrow> obit_rv cur = obit_rv x \<Longrightarrow>
        count_rule (obit_status cur) (obit_status x)) \<Longrightarrow>
      counts_kept (versions w' (obit_key x))"
begin

definition keeps_counts :: "'w \<Rightarrow> 'w \<Rightarrow> bool" where
  "keeps_counts w w' \<longleftrightarrow> (\<forall>k. counts_kept (versions w k) \<longrightarrow> counts_kept (versions w' k))"

lemma keeps_counts_frame [simp]: "world_frame keeps_counts"
  unfolding world_frame_def keeps_counts_def reflp_def transp_def by blast

lemma reads_keep_counts:
  "state_io_rel keeps_counts (k_get_obit K key)" "state_io_rel keeps_counts (k_create_obit K x)"
  by (simp_all add: state_io_rel_def keeps_counts_def get_counts create_counts)

lemma write_keeps_counts:
  assumes seen: "Some x \<in> set (versions w key)" and rule: "count_rule (obit_status x) s"
    and u: "run_state (k_update_obit_status K (x\<lparr>obit_status := s\<rparr>)) w = (e, w')"
  shows "keeps_counts w w'"
  unfolding keeps_counts_def
proof (intro allI impI)
  fix k assume k: "counts_kept (versions w k)"
  have key: "obit_key x = key" using seen by (rule seen_key)
  show "counts_kept (versions w' k)"
  proof (cases "k = key")
    case True
    have "counts_kept (versions w' (obit_key (x\<lparr>obit_status := s\<rparr>)))"
    proof (rule update_counts[OF _ u])
      show "counts_kept (versions w (obit_key (x\<lparr>obit_status := s\<rparr>)))" using k True key by simp
      fix cur
      assume cur: "Some cur \<in> set (versions w' (obit_key (x\<lparr>obit_status := s\<rparr>)))"
        "obit_rv cur = obit_rv (x\<lparr>obit_status := s\<rparr>)"
      have "Some x \<in> set (versions w' key)"
        using state_io_relD[OF ops_grow(3) u] seen by (rule grows_seen)
      with cur key have "cur = x" using rv_identifies[of cur w' key x] by simp
      with rule show "count_rule (obit_status cur) (obit_status (x\<lparr>obit_status := s\<rparr>))" by simp
    qed
    with True key show ?thesis by simp
  next
    case False
    with update_counts_elsewhere[OF k, of "x\<lparr>obit_status := s\<rparr>"] key u show ?thesis by simp
  qed
qed

lemma bump_keeps_counts: "state_io_rel keeps_counts (bump_attempt K key d)"
proof (rule state_io_relI)
  fix e w w'
  assume run: "run_state (bump_attempt K key d) w = (e, w')"
  obtain r w1 where g: "run_state (k_get_obit K key) w = (r, w1)" by force
  have kept: "keeps_counts w w1" using reads_keep_counts(1) g by (rule state_io_relD)
  show "keeps_counts w w'"
  proof (cases "\<exists>fresh. r = Inr fresh \<and> st_last_episode (obit_status fresh) \<noteq> rd_episode d")
    case True
    then obtain fresh where r: "r = Inr fresh" "st_last_episode (obit_status fresh) \<noteq> rd_episode d" by blast
    have seen: "Some fresh \<in> set (versions w1 key)" using g unfolding r by (rule get_seen)
    have "count_rule (obit_status fresh) (bumped_status d (obit_status fresh))"
      using r(2) by (simp add: count_rule_def bumped_status_def)
    from write_keeps_counts[OF seen this] have "keeps_counts w1 w'"
      using run g r by (simp add: bump_attempt_def)
    with kept show ?thesis by (rule world_frame_trans[OF keeps_counts_frame])
  next
    case False
    with run g have "w' = w1" by (auto simp: bump_attempt_def split: sum.splits)
    with kept show ?thesis by simp
  qed
qed

lemma upsert_keeps_counts:
  assumes "rd_episode d \<noteq> ''''"
  shows "state_io_rel keeps_counts (upsertObituary L K d)"
proof (rule state_io_relI)
  fix a w w'
  assume run: "run_state (upsertObituary L K d) w = (a, w')"
  let ?k = "death_key L d"
  obtain r w1 where g: "run_state (k_get_obit K ?k) w = (r, w1)" by force
  have k1: "keeps_counts w w1" using reads_keep_counts(1) g by (rule state_io_relD)
  have "keeps_counts w1 w'"
  proof (cases r)
    case (Inr x)
    have "state_io_rel keeps_counts (retried K (no_capture (bump_attempt K ?k d)))"
      by (intro frame_intros retries keeps_counts_frame bump_keeps_counts)
    from frame_run[OF this, of w1] run g Inr show ?thesis
      by (auto simp: upsertObituary_def split: if_splits prod.splits)
  next
    case (Inl err)
    obtain c w2 where c: "run_state (k_create_obit K (new_obituary L d)) w1 = (c, w2)" by force
    have k2: "keeps_counts w1 w2" using reads_keep_counts(2) c by (rule state_io_relD)
    show ?thesis
    proof (cases c)
      case (Inl cerr)
      with run g c k2 \<open>r = Inl err\<close> show ?thesis
        by (auto simp: upsertObituary_def split: if_splits)
    next
      case (Inr y)
      from create_commits[OF c[unfolded Inr]]
      have seen: "Some y \<in> set (versions w2 ?k)" and new: "obit_status y = zero_status"
        by (auto simp: born_as_def created_as_def)
      have "count_rule (obit_status y) (first_status d)"
        using assms by (simp add: new count_rule_def zero_status_def first_status_def)
      note write_keeps_counts[OF seen this]
      with run g c k2 Inr \<open>r = Inl err\<close> show ?thesis
        by (auto simp: upsertObituary_def split: if_splits prod.splits
            intro: world_frame_trans[OF keeps_counts_frame])
    qed
  qed
  with k1 show "keeps_counts w w'" by (rule world_frame_trans[OF keeps_counts_frame])
qed

end

subsection \<open>What the rule means\<close>

text \<open>Over a stretch of live versions the count grows by the number of times the episode changes.\<close>


lemma counts_kept_stretch:
  "successively counts_on (map Some (x # xs)) \<Longrightarrow>
   st_occurrences (obit_status (last (x # xs))) + 1 = st_occurrences (obit_status x) +
     of_nat (length (remdups_adj (map (st_last_episode \<circ> obit_status) (x # xs))))"
proof (induction xs arbitrary: x)
  case Nil
  then show ?case by simp
next
  case (Cons y ys)
  then have "count_rule (obit_status x) (obit_status y)" by simp
  with Cons show ?case by (auto simp: count_rule_def)
qed

lemma count_of_stretch:
  assumes "counts_kept vs" "vs = u @ map Some (x # xs) @ v"
  shows "st_occurrences (obit_status (last (x # xs))) + 1 = st_occurrences (obit_status x) +
    of_nat (length (remdups_adj (map (st_last_episode \<circ> obit_status) (x # xs))))"
  by (rule counts_kept_stretch)
    (use assms in \<open>simp only: counts_kept_def successively_append_iff\<close>)

subsection \<open>An executable server with other writers\<close>

text \<open>Other writers that follow the counting rule: what would break it does not land.\<close>

definition admit :: "write_log \<Rightarrow> object_key \<times> obituary option \<Rightarrow> write_log" where
  "admit l e = (if counts_kept (log_versions (l @ [e]) (fst e)) then l @ [e] else l)"

definition admitted :: "write_log \<Rightarrow> write_log \<Rightarrow> write_log" where
  "admitted l b = foldl admit l b"

lemma appends_admitted [simp]: "appends admitted"
  unfolding appends_def
proof (intro allI)
  show "\<exists>ext. admitted l b = l @ ext" for l b
  proof (induction b rule: rev_induct)
    case Nil
    then show ?case by (simp add: admitted_def)
  next
    case (snoc e b)
    then show ?case by (auto simp: admitted_def admit_def)
  qed
qed

lemma counts_kept_snoc: "counts_kept (vs @ [v]) \<longleftrightarrow> counts_kept vs \<and> (vs = [] \<or> counts_on (last vs) v)"
  by (simp add: counts_kept_def successively_append_iff)

lemma admit_keeps: "counts_kept (log_versions l k) \<Longrightarrow> counts_kept (log_versions (admit l e) k)"
  by (cases e) (auto simp: admit_def log_versions_snoc)

lemma admitted_keeps: "counts_kept (log_versions l k) \<Longrightarrow> counts_kept (log_versions (admitted l b) k)"
  unfolding admitted_def by (induction b arbitrary: l) (simp_all add: admit_keeps)

lemma interfered_keeps:
  "counts_kept (mem_versions w k) \<Longrightarrow> counts_kept (mem_versions (interfered admitted w sc) k)"
  by (simp add: interfered_def admitted_keeps split: list.split)

lemma mem_create_keeps:
  assumes "counts_kept (mem_versions w k)"
  shows "counts_kept (mem_versions (snd (run_state (mem_create_obit x) w)) k)"
proof (cases "latest (mem_versions w (obit_key x))")
  case None
  then have "mem_versions w (obit_key x) = [] \<or> last (mem_versions w (obit_key x)) = None"
    by (simp add: latest_def split: if_splits)
  with assms None show ?thesis
    by (auto simp: mem_create_obit_def Let_def log_versions_snoc counts_kept_snoc)
qed (use assms in \<open>simp add: mem_create_obit_def\<close>)

lemma mem_update_keeps:
  assumes "counts_kept (mem_versions w k)" "run_state (mem_update_obit_status x) w = (e, w')"
    and "\<And>cur. k = obit_key x \<Longrightarrow> Some cur \<in> set (mem_versions w' k) \<Longrightarrow> obit_rv cur = obit_rv x \<Longrightarrow>
      count_rule (obit_status cur) (obit_status x)"
  shows "counts_kept (mem_versions w' k)"
proof (cases "w' = w")
  case False
  then have "e = None"
    using assms(2) by (auto simp: mem_update_obit_status_def Let_def split: option.splits if_splits)
  with assms(2) obtain cur new where u: "latest (mem_versions w (obit_key x)) = Some cur"
    "obit_rv cur = obit_rv x" "mem_versions w' (obit_key x) = mem_versions w (obit_key x) @ [Some new]"
    "status_write_of cur (obit_status x) new" using mem_update_run by metis
  show ?thesis
  proof (cases "k = obit_key x")
    case True
    obtain us where us: "mem_versions w (obit_key x) = us @ [Some cur]" using latest_SomeD[OF u(1)] by blast
    have "Some cur \<in> set (mem_versions w' k)" using u(3) us True by simp
    with assms(3) True u(2) have "count_rule (obit_status cur) (obit_status x)" by blast
    moreover have "mem_versions w' k = mem_versions w k @ [Some new]" "last (mem_versions w k) = Some cur"
      using u(3) us True by simp_all
    ultimately show ?thesis
      using assms(1) by (simp only: counts_kept_snoc counts_on_simps status_write_of_status[OF u(4)] simp_thms)
  next
    case False
    with assms(2) have "mem_versions w' k = mem_versions w k"
      by (auto simp: mem_update_obit_status_def Let_def log_versions_snoc split: option.splits if_splits)
    with assms(1) show ?thesis by simp
  qed
qed (use assms(1) in simp)

lemma scripted_state:
  "fst (snd (run_state (scripted land m) s)) = snd (run_state m (interfered land (fst s) (snd s)))"
  by (cases s) (simp add: run_scripted case_prod_unfold)

interpretation counting: counting_server "scripted_client admitted" "\<lambda>s. mem_versions (fst s)"
proof (rule counting_server.intro)
  show "obit_server (scripted_client admitted) (\<lambda>s. mem_versions (fst s))"
    by (rule scripted_server) simp
  show "counting_server_axioms (scripted_client admitted) (\<lambda>s. mem_versions (fst s))"
  proof (rule counting_server_axioms.intro)
    let ?vs = "\<lambda>s. mem_versions (fst s)" and ?K = "scripted_client admitted"
    show "counts_kept (?vs (snd (run_state (k_get_obit ?K key) s)) k)" if "counts_kept (?vs s k)" for s k key
      using interfered_keeps[OF that, of "snd s"]
      by (simp add: scripted_client_def scripted_state mem_get_obit_def mem_read_def)
    show "counts_kept (?vs (snd (run_state (k_create_obit ?K x) s)) k)" if "counts_kept (?vs s k)" for s k x
      using mem_create_keeps[OF interfered_keeps[OF that, of "snd s"], of x]
      by (simp add: scripted_client_def scripted_state)
    show "counts_kept (?vs (snd (run_state (k_update_obit_status ?K x) s)) k)"
      if k: "counts_kept (?vs s k)" "k \<noteq> obit_key x" for s k x
      using mem_update_keeps[OF interfered_keeps[OF k(1), of "snd s"] prod.collapse[symmetric], of x] k(2)
      by (simp add: scripted_client_def scripted_state)
    show "counts_kept (?vs s' (obit_key x))"
      if k: "counts_kept (?vs s (obit_key x))" and u: "run_state (k_update_obit_status ?K x) s = (e, s')"
        and rule: "\<And>cur. Some cur \<in> set (?vs s' (obit_key x)) \<Longrightarrow> obit_rv cur = obit_rv x \<Longrightarrow>
          count_rule (obit_status cur) (obit_status x)" for s x e s'
    proof -
      from u have "run_state (scripted admitted (mem_update_obit_status x)) s = (e, s')"
        by (simp add: scripted_client_def)
      then obtain w where w: "run_state (mem_update_obit_status x) w = (e, fst s')"
        "w = interfered admitted (fst s) (snd s)" by (rule run_scriptedE)
      have "counts_kept (mem_versions w (obit_key x))" unfolding w(2) using k by (rule interfered_keeps)
      from mem_update_keeps[OF this w(1) rule] show ?thesis .
    qed
  qed
qed

end
