(* ===== verification/Recording.thy ===== *)
theory Recording
  imports Sample Counting
begin

section \<open>What recording a death promises\<close>

text \<open>
  The properties of detection, diagnosis, naming and the obituary upsert, each applied to the
  sample cluster. What holds against every quiet server is stated over the contract
  \<open>quiet_server\<close>, what holds under concurrency over \<open>obit_server\<close> and \<open>counting_server\<close>.
\<close>

subsection \<open>The upsert\<close>

lemma upsert_implements_step_at:
  assumes "quiet_server K versions"
  shows "status_at versions (snd (run_state (upsertObituary L K d) w)) (death_key L d) =
    Some (upsert_status (status_at versions w (death_key L d)) d)"
  by (rule quiet_server.upsert_refines[OF assms, of L d w]) simp

lemma count_last_episode:
  "st_last_episode (foldl count_step (first_status d) ds) = rd_episode (last (d # ds))"
proof (induction ds rule: rev_induct)
  case (snoc x xs)
  then show ?case by (simp add: count_step_def)
qed simp

text \<open>
  C2: a run of reported deaths of one issue leaves one obituary that counts each run of equal
  consecutive episodes once (modulo the 32-bit counter), keeps the time of the first death and
  names the last episode.
\<close>
theorem recording_counts_episodes:
  assumes "quiet_server K versions"
    and "\<forall>x \<in> set (d # ds). death_key L x = key"
    and "status_at versions w key = None"
  shows "\<exists>st. status_at versions (snd (run_state (record_all L K (d # ds)) w)) key = Some st \<and>
    st_occurrences st = of_nat (length (remdups_adj (map rd_episode (d # ds)))) \<and>
    st_first_seen st = Some (rd_now d) \<and>
    st_last_episode st = rd_episode (last (d # ds))"
proof -
  let ?st = "foldl count_step (first_status d) ds"
  have "status_at versions (snd (run_state (record_all L K (d # ds)) w)) key = Some ?st"
    using quiet_server.record_all_refines[OF assms(1,2), of w]
    by (simp only: assms(3) foldl_Cons upsert_status_def option.case foldl_upsert_Some
        foldl_upsert_Some[unfolded upsert_status_def])
  moreover have "st_occurrences ?st = of_nat (length (remdups_adj (map rd_episode (d # ds))))"
    using count_steps[of "first_status d" ds] by simp
  moreover have "st_first_seen ?st = Some (rd_now d)"
    using count_first_seen[of "first_status d" ds] by simp
  moreover have "st_last_episode ?st = rd_episode (last (d # ds))"
    by (rule count_last_episode)
  ultimately show ?thesis by blast
qed

corollary recording_counts_episodes_witness:
  "\<exists>st. status_at mem_versions (snd (run_state (record_all sample_lib mem_client
      [sample_death ''u1/1'', sample_death ''u1/1'', sample_death ''u1/2'']) empty_mem)) sample_key = Some st \<and>
    st_occurrences st = 2"
  using recording_counts_episodes[OF mem.quiet_server_axioms, of "sample_death ''u1/1''"
      "[sample_death ''u1/1'', sample_death ''u1/2'']" sample_lib sample_key empty_mem]
  by auto

text \<open>
  C3: against a server with no other writer and no fault, one upsert implements the pure step
  on the obituary's status, touches no other obituary, and returns what it did.
\<close>
theorem upsert_implements_step:
  assumes "quiet_server K versions"
  shows "fst (run_state (upsertObituary L K d) w) = upsert_result (status_at versions w (death_key L d)) d \<and>
    status_at versions (snd (run_state (upsertObituary L K d) w)) =
      (status_at versions w)(death_key L d := Some (upsert_status (status_at versions w (death_key L d)) d))"
  by (rule quiet_server.upsert_refines[OF assms, of L d w]) simp

corollary upsert_implements_step_witness:
  "fst (run_state (upsertObituary sample_lib mem_client (sample_death ''u2/1'')) sample_mem) =
     upsert_result (Some sample_status) (sample_death ''u2/1'')"
  using upsert_implements_step[OF mem.quiet_server_axioms, of sample_lib "sample_death ''u2/1''" sample_mem]
  by simp

text \<open>
  C21: counting a further episode replaces the whole status, so the audit trail, the time of the
  last heal and the conditions of the obituary are those of the new death, which starts with
  none; the count and the first sighting are carried over.
\<close>
theorem new_episode_replaces_trail:
  assumes "quiet_server K versions"
    and "status_at versions w (death_key L d) = Some s" "st_last_episode s \<noteq> rd_episode d"
    and "fresh_status v (rd_status d)"
  shows "\<exists>st. status_at versions (snd (run_state (upsertObituary L K d) w)) (death_key L d) = Some st \<and>
    st_occurrences st = st_occurrences s + 1 \<and>
    st_first_seen st = Some (or_default (st_first_seen s) (rd_now d)) \<and>
    st_heal_attempts st = [] \<and> st_last_heal_at st = None \<and> st_conditions st = []"
proof -
  have "status_at versions (snd (run_state (upsertObituary L K d) w)) (death_key L d) = Some (bumped_status d s)"
    by (rule quiet_server.upsert_refines[OF assms(1), of L d w])
      (simp add: assms(2,3) upsert_status_def count_step_def)
  moreover have "st_first_seen (bumped_status d s) = Some (or_default (st_first_seen s) (rd_now d))"
    by (simp add: bumped_status_def split: option.split)
  ultimately show ?thesis using assms(4) by (simp add: fresh_status_def)
qed

corollary new_episode_replaces_trail_witness:
  "st_heal_attempts sample_status = [sample_record] \<and>
   (\<exists>st. status_at mem_versions (snd (run_state (upsertObituary sample_lib mem_client (sample_death ''u2/1''))
      sample_mem)) sample_key = Some st \<and> st_occurrences st = 4 \<and> st_heal_attempts st = [])"
proof -
  have "fresh_status \<lparr>v_cause = CauseRepeatedCrash, v_confidence = ConfidenceHigh, v_summary = ''''\<rparr>
      (rd_status (sample_death ''u2/1''))"
    by (simp add: fresh_status_def sample_death_def zero_status_def)
  from new_episode_replaces_trail[OF mem.quiet_server_axioms _ _ this, of sample_mem sample_lib sample_status]
  show ?thesis by auto
qed

text \<open>
  C4: with stale reads, failures at any call, lost replies and other writers that count by the
  same rule, an upsert keeps the counts exact, whatever it returns: where every live version of
  an obituary counted one more than the version before it when the episode changed, and the same
  when it did not, so does every version afterwards, and over any stretch of live versions the
  count grows by the number of changes of the episode. Concurrent upserts lose no count and
  count nothing twice in a row. If the upsert reports a bump, some version names its episode.
\<close>
theorem concurrent_counts_are_exact:
  assumes "counting_server K versions" and "rd_episode d \<noteq> ''''"
    and "counts_kept (versions w k)"
    and "run_state (upsertObituary L K d) w = (result, w')"
  shows "counts_kept (versions w' k) \<and>
    (\<forall>u x xs v. versions w' k = u @ map Some (x # xs) @ v \<longrightarrow>
       st_occurrences (obit_status (last (x # xs))) + 1 = st_occurrences (obit_status x) +
         of_nat (length (remdups_adj (map (st_last_episode \<circ> obit_status) (x # xs))))) \<and>
    (result = (False, True, None) \<longrightarrow> already_counted d (versions w' (death_key L d)))"
proof -
  have "counting_server.keeps_counts versions w w'"
    by (rule state_io_relD[OF counting_server.upsert_keeps_counts[OF assms(1,2)] assms(4)])
  with assms(3) have "counts_kept (versions w' k)"
    unfolding counting_server.keeps_counts_def[OF assms(1)] by blast
  moreover have "already_counted d (versions w' (death_key L d))" if "result = (False, True, None)"
    by (rule obit_server.upsert_bumped[OF counting_server.axioms(1)[OF assms(1)] assms(4)[unfolded that]])
  ultimately show ?thesis using count_of_stretch by blast
qed

text \<open>
  Between the read and the write of the first attempt another replica counts its own episode, and
  a writer that does not follow the rule resets the count, which does not land.
\<close>
definition racing_writer :: interference where
  "racing_writer = [[], [], [
     (sample_key, Some (sample_obituary\<lparr>obit_status := bumped_status (sample_death ''u9/1'') sample_status\<rparr>)),
     (sample_key, Some (sample_obituary\<lparr>obit_status := bumped_status (sample_death ''u8/1'') zero_status\<rparr>))]]"

corollary concurrent_counts_are_exact_witness:
  "\<exists>w'. run_state (upsertObituary sample_lib (scripted_client admitted) (sample_death ''u2/1''))
      (sample_mem, racing_writer) = ((False, True, None), w') \<and>
    counts_kept (mem_versions (fst w') sample_key) \<and>
    already_counted (sample_death ''u2/1'') (mem_versions (fst w') sample_key)"
proof -
  have kept: "counts_kept (mem_versions (fst (sample_mem, racing_writer)) sample_key)"
    by (simp add: sample_mem_def log_versions_def counts_kept_def)
  have "fst (run_state (upsertObituary sample_lib (scripted_client admitted) (sample_death ''u2/1''))
      (sample_mem, racing_writer)) = (False, True, None)"
    by (simp add: upsertObituary_def scripted_client_def run_scripted run_retried bump_attempt_def
        mem_get_obit_def mem_read_def mem_update_obit_status_def racing_writer_def sample_mem_def
        empty_mem_def log_versions_def latest_def stamp_def sample_obituary_def show_nat_inject
        interfered_def admitted_def admit_def counts_kept_def count_rule_def bumped_status_def
        eval_nat_numeral Let_def obit_key_def[of "x\<lparr>obit_meta := m\<rparr>" for x m])
  then obtain w' where run: "run_state (upsertObituary sample_lib (scripted_client admitted)
      (sample_death ''u2/1'')) (sample_mem, racing_writer) = ((False, True, None), w')"
    by (metis prod.collapse)
  from concurrent_counts_are_exact[OF counting.counting_server_axioms _ kept run] run show ?thesis
    by simp
qed

text \<open>
  C5: an upsert that reports a creation added the obituary to a history without a live object,
  with the subject, the time of death and the issue key, and with no owner reference, so the
  record is not collected together with the deceased; when it reports no error, the first status
  was written on top of exactly that object.
\<close>
theorem creation_is_exclusive_and_ownerless:
  assumes "obit_server K versions"
    and "fst (run_state (upsertObituary L K d) w) = (True, b, e)"
  shows "\<not> b \<and> (\<exists>y u v.
    versions (snd (run_state (upsertObituary L K d) w)) (death_key L d) = u @ Some y # v \<and>
    length (versions w (death_key L d)) \<le> length u \<and> (u = [] \<or> last u = None) \<and>
    obit_spec y = \<lparr>sp_subject = rd_subject d, sp_time_of_death = Some (rd_now d),
      sp_death_episode_key = rd_issue_key d\<rparr> \<and>
    om_owner_references (obit_meta y) = [] \<and> obit_status y = zero_status \<and>
    (e = None \<longrightarrow> status_on y (first_status d)
      (versions (snd (run_state (upsertObituary L K d) w)) (death_key L d))))"
proof -
  let ?w' = "snd (run_state (upsertObituary L K d) w)" and ?k = "death_key L d"
  have "run_state (upsertObituary L K d) w = ((True, b, e), ?w')"
    using assms(2) by (simp add: prod_eq_iff)
  from obit_server.upsert_created[OF assms(1) this] obtain w1 y where
    y: "b = False" "obit_server.grows versions w1 ?w'" "born_as y (length (versions w ?k)) (versions w1 ?k)"
      "created_as (new_obituary L d) y"
      "e = None \<longrightarrow> status_on y (first_status d) (versions ?w' ?k)" by blast
  obtain ext where "versions ?w' ?k = versions w1 ?k @ ext"
    using y(2) unfolding obit_server.grows_def[OF assms(1)] by blast
  moreover obtain u v where "versions w1 ?k = u @ Some y # v" "length (versions w ?k) \<le> length u"
    "u = [] \<or> last u = None" using y(3) unfolding born_as_def by blast
  ultimately have "versions ?w' ?k = u @ Some y # (v @ ext)" "length (versions w ?k) \<le> length u"
    "u = [] \<or> last u = None" by simp_all
  moreover have "obit_spec y = obit_spec (new_obituary L d)" "obit_status y = zero_status"
    "om_owner_references (obit_meta y) = []"
    using y(4) by (auto simp: created_as_def new_obituary_def zero_meta_def)
  ultimately show ?thesis using y(1,5) unfolding new_obituary_def by (simp, blast)
qed

corollary creation_is_exclusive_and_ownerless_witness:
  "\<exists>y u v. mem_versions (fst (snd (run_state (upsertObituary sample_lib (scripted_client (@)) (sample_death ''u1/1''))
      (empty_mem, [])))) sample_key = u @ Some y # v \<and> om_owner_references (obit_meta y) = []"
proof -
  have "fst (run_state (upsertObituary sample_lib (scripted_client (@)) (sample_death ''u1/1'')) (empty_mem, [])) =
      (True, False, None)"
    by (simp add: upsertObituary_def scripted_client_def run_scripted interfered_def mem_get_obit_def
        mem_read_def mem_create_obit_def mem_update_obit_status_def empty_mem_def log_versions_def latest_def
        stamp_def Let_def obit_key_def[of "x\<lparr>obit_meta := m\<rparr>" for x m])
  from creation_is_exclusive_and_ownerless[OF shared.obit_server_axioms this]
  show ?thesis by auto
qed

text \<open>
  C23: right after an upsert, the gate in front of the evidence collection stops a reconcile of
  the same episode without an error: redelivered events do not investigate or count again.
\<close>
theorem recorded_episode_is_gated:
  assumes "quiet_server K versions"
  shows "fst (run_state (episode_gate K (death_key L d) (rd_episode d))
    (snd (run_state (upsertObituary L K d) w))) = Some None"
proof -
  let ?w = "snd (run_state (upsertObituary L K d) w)"
  let ?st = "upsert_status (status_at versions w (death_key L d)) d"
  have "status_at versions ?w (death_key L d) = Some ?st"
    using upsert_implements_step_at[OF assms] .
  moreover have "st_last_episode ?st = rd_episode d"
    by (simp add: upsert_status_def count_step_def split: option.split)
  ultimately show ?thesis by (rule quiet_server.gate_counted[OF assms]) simp
qed

corollary recorded_episode_is_gated_witness:
  "fst (run_state (episode_gate mem_client sample_key ''u2/1'')
    (snd (run_state (upsertObituary sample_lib mem_client (sample_death ''u2/1'')) sample_mem))) = Some None"
  using recorded_episode_is_gated[OF mem.quiet_server_axioms, of sample_lib "sample_death ''u2/1''" sample_mem]
  by simp

subsection \<open>Keys and names\<close>

text \<open>
  C24: issue keys tell issues apart: where names contain no slash, equal keys mean the same
  namespace, kind, name, container and cause; and a pod's episode is its UID and restart count.
\<close>
theorem keys_identify_issues_and_episodes:
  assumes "slash_free s" "slash_free t" "CHR ''/'' \<notin> set c" "CHR ''/'' \<notin> set d"
  shows "(issueKey s c k = issueKey t d l \<longleftrightarrow>
      sub_namespace s = sub_namespace t \<and> sub_kind s = sub_kind t \<and> sub_name s = sub_name t \<and> c = d \<and> k = l) \<and>
    (pod_episode u m = pod_episode v n \<longleftrightarrow> u = v \<and> m = n)"
  using issueKey_inject[OF assms, of k l] by (auto simp: issueKey_def pod_episode_inject)

corollary keys_identify_issues_and_episodes_witness:
  "issueKey sample_subject ''app'' CauseRepeatedCrash \<noteq> issueKey sample_subject ''app'' CauseOutOfMemory \<and>
   pod_episode ''u1'' 3 \<noteq> pod_episode ''u1'' 4"
  using keys_identify_issues_and_episodes[of sample_subject sample_subject "''app''" "''app''"
      CauseRepeatedCrash CauseOutOfMemory "''u1''" 3 "''u1''" 4]
  by (simp add: slash_free_def sample_subject_def)

text \<open>
  C25: the object name is at most 51 characters long, and it is a DNS-1123 label exactly when
  some character of the subject's name survives sanitizing; otherwise it starts with a dash.
\<close>
theorem obituary_name_is_label_iff:
  "length (obituaryName ul s k) \<le> 51 \<and>
    (dns1123_label (obituaryName ul s k) \<longleftrightarrow> sanitizeName ul s \<noteq> [])"
  using obituaryName_length[of ul s k] obituaryName_label_iff[of ul s k] by blast

corollary obituary_name_is_label_iff_witness:
  "dns1123_label (obituaryName (\<lambda>r. r) ''Web_1'' ''k'') \<and>
   \<not> dns1123_label (obituaryName (\<lambda>r. r) ''__'' ''k'')"
proof -
  have "sanitizeName (\<lambda>r. r) ''Web_1'' \<noteq> [] \<and> sanitizeName (\<lambda>r. r) ''__'' = []"
    by code_simp
  then show ?thesis
    using obituary_name_is_label_iff[of "\<lambda>r. r" _ "''k''"] by simp
qed

subsection \<open>Detection and diagnosis\<close>

text \<open>
  C19: a pod shows a death exactly when it was evicted while evictions are watched, or some
  container terminated badly, waits in a crash loop or for its image, or restarted at least as
  often as the threshold; the death reported is that of the first such container.
\<close>
theorem pod_death_detected_iff:
  "(detectPodDeath pod cfg \<noteq> None \<longleftrightarrow>
     (pod_reason pod = ''Evicted'' \<and> wp_evictions (cfg_watch cfg) = Some True) \<or>
     (\<exists>cs \<in> set (pod_container_statuses pod).
        shows_death (or_default (cfg_restart_threshold cfg) DefaultRestartThreshold) cs)) \<and>
   (\<forall>d. detectPodDeath pod cfg = Some d \<longrightarrow>
     (pd_evicted d \<and> pod_reason pod = ''Evicted'' \<and> pd_container d = '''') \<or>
     (\<not> pd_evicted d \<and> (\<exists>us cs vs. pod_container_statuses pod = us @ cs # vs \<and>
       (\<forall>u \<in> set us. \<not> shows_death (or_default (cfg_restart_threshold cfg) DefaultRestartThreshold) u) \<and>
       shows_death (or_default (cfg_restart_threshold cfg) DefaultRestartThreshold) cs \<and>
       pd_container d = cs_name cs \<and> pd_restart_count d = cs_restart_count cs)))"
  using detectPodDeath_iff detectPodDeath_cases by blast

corollary pod_death_detected_iff_witness:
  "detectPodDeath sample_pod (sample_config True) \<noteq> None \<and>
   map_option pd_container (detectPodDeath sample_pod (sample_config True)) = Some ''app''"
proof -
  have "shows_death (or_default (cfg_restart_threshold (sample_config True)) DefaultRestartThreshold)
      (pod_container_statuses sample_pod ! 1)" "pod_container_statuses sample_pod ! 1 \<in> set (pod_container_statuses sample_pod)"
    by (simp_all add: sample_pod_def shows_death_def stuck_waiting_def)
  then have "detectPodDeath sample_pod (sample_config True) \<noteq> None"
    using pod_death_detected_iff[of sample_pod "sample_config True"] by blast
  moreover have "map_option pd_container (detectPodDeath sample_pod (sample_config True)) = Some ''app''"
    by code_simp
  ultimately show ?thesis by blast
qed

text \<open>Evidence that names its cause without reading an exit code\<close>
definition strong_signal :: "(rune \<Rightarrow> rune) \<Rightarrow> evidence \<Rightarrow> bool" where
  "strong_signal ul e \<longleftrightarrow> oom_signal e \<or> probe_signal ul e \<or> e_pod_phase_reason e = ''Evicted'' \<or>
     pull_signal e \<or> e_job_failed e \<or> crash_loop_signal e"

text \<open>
  C20: the verdict follows the strongest signal: high confidence exactly when the evidence
  names the cause itself, medium when only an exit code or signal remains, low otherwise; OOM
  beats every other signal, a liveness event every other but OOM, and an application error is
  diagnosed only when nothing but a non-zero exit code other than 137 is left.
\<close>
theorem diagnosis_by_strongest_signal:
  "v_confidence (diagnose ul e) =
     (if strong_signal ul e then ConfidenceHigh
      else if sigkill_signal e \<or> failed_exit e then ConfidenceMedium else ConfidenceLow) \<and>
   (v_cause (diagnose ul e) = CauseOutOfMemory \<longleftrightarrow> oom_signal e) \<and>
   (v_cause (diagnose ul e) = CauseProbeFailure \<longleftrightarrow> probe_signal ul e \<and> \<not> oom_signal e) \<and>
   (v_cause (diagnose ul e) = CauseApplicationErr \<longleftrightarrow>
      failed_exit e \<and> \<not> sigkill_signal e \<and> \<not> strong_signal ul e) \<and>
   v_cause (diagnose ul e) \<in> set all_causes"
proof (cases "oom_signal e \<or> probe_signal ul e \<or> e_pod_phase_reason e = ''Evicted'' \<or> pull_signal e \<or> e_job_failed e")
  case True
  then consider (1) "oom_signal e" | (2) "\<not> oom_signal e" "probe_signal ul e"
    | (3) "\<not> oom_signal e" "\<not> probe_signal ul e" "e_pod_phase_reason e = ''Evicted''"
    | (4) "\<not> oom_signal e" "\<not> probe_signal ul e" "e_pod_phase_reason e \<noteq> ''Evicted''" "pull_signal e"
    | (5) "\<not> oom_signal e" "\<not> probe_signal ul e" "e_pod_phase_reason e \<noteq> ''Evicted''" "\<not> pull_signal e" "e_job_failed e"
    by blast
  then show ?thesis
    by cases (simp_all add: all_causes_def strong_signal_def diagnose_oom diagnose_probe
        diagnose_evicted diagnose_pull diagnose_job)
next
  case False
  then show ?thesis
    using diagnose_container[of e ul] diagnose_cause_in[of ul e] by (auto simp: strong_signal_def)
qed

end
