(* ===== verification/Healing.thy ===== *)
theory Healing
  imports Sample
begin

section \<open>What self-healing promises\<close>

text \<open>
  The properties of the gates, the rate limiter, the deciders, the executors and the memory
  arithmetic. The engine's safety holds for every engine whose factory hands out sound deciders,
  and the factory of this program does; what a heal writes is stated against the contracts
  \<open>quiet_heal\<close> and \<open>decide_frame\<close>, memory amounts over \<open>quantities\<close>.
\<close>

subsection \<open>One heal\<close>

text \<open>
  C6: a heal that passes the gates appends exactly one record to the obituary, and the record
  is sound: unless it is a skip, its action is allowed by the operator and supported on the
  kind, it is a dry run exactly when the policy says so, and it was charged to a budget that
  was not yet exhausted. A skip charges nothing or was denied.
\<close>
theorem heal_is_recorded_and_sound:
  assumes "quiet_heal K versions e" and "sound_factory e"
    and "status_at versions w (obit_key obit) = Some st"
    and "passes_gates L K obit (cfg_self_heal cfg) w"
  shows "\<exists>rec. sound_record (cfg_self_heal cfg) obit r rec \<and>
    status_at versions (fst (snd (run_state (MaybeHeal L K e obit cfg) (w, r)))) =
      (status_at versions w)(obit_key obit := Some (with_record (eng_max_attempts e) rec st)) \<and>
    (snd (snd (run_state (MaybeHeal L K e obit cfg) (w, r))) = r \<and> hr_outcome rec = HealSkipped \<or>
     (\<exists>t. snd (snd (run_state (MaybeHeal L K e obit cfg) (w, r))) =
        snd (reserve r t (subject_ns obit) (heal_cap (cfg_self_heal cfg))) \<and>
      (hr_outcome rec \<noteq> HealSkipped \<longrightarrow> fst (reserve r t (subject_ns obit) (heal_cap (cfg_self_heal cfg))))))"
proof -
  obtain w' r' where run: "run_state (MaybeHeal L K e obit cfg) (w, r) = ((), (w', r'))"
    by (metis old.unit.exhaust prod.collapse)
  obtain rec where "sound_record (cfg_self_heal cfg) obit r rec"
    "status_at versions w' = (status_at versions w)
       (obit_key obit := Some (with_record (eng_max_attempts e) rec st))"
    "r' = r \<or> (\<exists>t. r' = snd (reserve r t (subject_ns obit) (heal_cap (cfg_self_heal cfg))))"
    "hr_outcome rec \<noteq> HealSkipped \<Longrightarrow>
      \<exists>t. fst (reserve r t (subject_ns obit) (heal_cap (cfg_self_heal cfg))) \<and>
        r' = snd (reserve r t (subject_ns obit) (heal_cap (cfg_self_heal cfg)))"
    using quiet_heal.MaybeHeal_recorded[OF assms run] by blast
  then show ?thesis unfolding run by (cases "hr_outcome rec = HealSkipped") auto
qed

corollary heal_is_recorded_and_sound_witness:
  "\<exists>rec. sound_record (sample_policy False) sample_obituary newRateLimiter rec \<and>
    status_at mem_versions (fst (snd (run_state
      (MaybeHeal sample_lib mem_client NewEngine sample_obituary (sample_config False))
      (sample_mem, newRateLimiter)))) sample_key =
    Some (with_record 20 rec sample_status)"
proof -
  have "passes_gates sample_lib mem_client sample_obituary (cfg_self_heal (sample_config False)) sample_mem"
    by (simp add: sample_config_def)
  from heal_is_recorded_and_sound[OF mem_heal.quiet_heal_axioms sound_factory_NewEngine _ this,
      of sample_status newRateLimiter]
  show ?thesis by (auto simp: sample_config_def NewEngine_def)
qed

text \<open>The gates that need no call, in terms of numbers and of what the policy leaves open\<close>
lemma silent_gates_iff:
  "silent_gates p st \<longleftrightarrow> hp_enabled p \<and> st_phase st = PhaseComplete \<and>
     (case hp_min_occurrences p of Some n \<Rightarrow> sint n | None \<Rightarrow> 3) \<le> sint (st_occurrences st) \<and>
     (hp_require_high_confidence p = Some False \<or> st_confidence st = ConfidenceHigh)"
proof -
  have "boolOr b True \<longleftrightarrow> b \<noteq> Some False" for b by (cases b) (simp_all add: boolOr_def)
  moreover have "\<not> n <s derefInt32 m DefaultSelfHealMinOccurrences \<longleftrightarrow>
      (case m of Some k \<Rightarrow> sint k | None \<Rightarrow> 3) \<le> sint n" for n m
    by (cases m) (simp_all add: word_sless_alt derefInt32_def DefaultSelfHealMinOccurrences_def not_less)
  ultimately show ?thesis by (auto simp: silent_gates_def)
qed

lemma namespaceAllowed_excluded:
  assumes "hp_namespace_selector p = Some ls" "lib_selector L ls = Inr sel" "\<not> sel_empty sel"
    and "case fst (run_state (k_get_namespace_labels K ns) w) of
      Inl err \<Rightarrow> True | Inr labels \<Rightarrow> \<not> sel_matches sel labels"
  shows "\<not> fst (run_state (namespaceAllowed L K p ns) w)"
  using assms by (simp add: namespaceAllowed_def case_prod_unfold split: sum.splits)

text \<open>
  C7: where self-heal is off, the obituary is not complete, it was seen fewer times than the
  minimum, three unless the policy says otherwise, its confidence is not high and the policy does
  not waive that, or a selector that is not empty does not match the labels of the subject's
  namespace or they cannot be read, a heal leaves no trace: no obituary is written and no budget
  is charged.
\<close>
theorem gated_heal_leaves_no_trace:
  assumes "quiet_heal K versions e" and "p = cfg_self_heal cfg" and "st = obit_status obit"
    and "\<not> hp_enabled p \<or>
      st_phase st \<noteq> PhaseComplete \<or>
      sint (st_occurrences st) < (case hp_min_occurrences p of Some n \<Rightarrow> sint n | None \<Rightarrow> 3) \<or>
      hp_require_high_confidence p \<noteq> Some False \<and> st_confidence st \<noteq> ConfidenceHigh \<or>
      (\<exists>ls sel. hp_namespace_selector p = Some ls \<and> lib_selector L ls = Inr sel \<and> \<not> sel_empty sel \<and>
        (case fst (run_state (k_get_namespace_labels K (sub_namespace (sp_subject (obit_spec obit)))) w) of
           Inl err \<Rightarrow> True
         | Inr labels \<Rightarrow> \<not> sel_matches sel labels))"
  shows "versions (fst (snd (run_state (MaybeHeal L K e obit cfg) (w, r)))) = versions w \<and>
    snd (snd (run_state (MaybeHeal L K e obit cfg) (w, r))) = r"
proof -
  obtain w' r' where run: "run_state (MaybeHeal L K e obit cfg) (w, r) = ((), (w', r'))"
    by (metis old.unit.exhaust prod.collapse)
  have "\<not> passes_gates L K obit (cfg_self_heal cfg) w"
    using assms(4) not_less namespaceAllowed_excluded[of "cfg_self_heal cfg" _ L _ K "subject_ns obit" w]
    unfolding assms(2,3) passes_gates_def silent_gates_iff subject_ns_def by meson
  from quiet_heal.MaybeHeal_silent[OF assms(1) this run] show ?thesis by (simp add: run)
qed

corollary gated_heal_leaves_no_trace_witness:
  "mem_versions (fst (snd (run_state (MaybeHeal sample_lib mem_client NewEngine
      (sample_obituary\<lparr>obit_status := sample_status\<lparr>st_phase := PhaseInvestigating\<rparr>\<rparr>) (sample_config False))
      (sample_mem, newRateLimiter)))) = mem_versions sample_mem \<and>
   mem_versions (fst (snd (run_state (MaybeHeal sample_lib mem_client NewEngine
      (sample_obituary\<lparr>obit_status := sample_status\<lparr>st_occurrences := 2\<rparr>\<rparr>) (sample_config False))
      (sample_mem, newRateLimiter)))) = mem_versions sample_mem"
  by (rule conjI; rule gated_heal_leaves_no_trace[OF mem_heal.quiet_heal_axioms refl refl, THEN conjunct1])
    (simp_all add: sample_config_def sample_policy_def DefaultKoronerConfigSpec_def defaults_simps
      zero_spec_def DefaultSelfHealMinOccurrences_def)

text \<open>
  C8: in a dry run, which is what a policy that does not mention it gets, a heal makes no calls
  but the clock, the namespace's labels, the decider's and the read and status update of the
  obituary: whatever those keep is kept, pods and workloads in particular.
\<close>
theorem dry_run_makes_no_change:
  assumes "decide_frame K e R" and "boolOr (hp_dry_run (cfg_self_heal cfg)) True"
    and "retry_contract (k_retry_on_conflict K)"
    and "\<And>k. state_io_rel R (k_get_obit K k)" and "\<And>x. state_io_rel R (k_update_obit_status K x)"
  shows "R w (fst (snd (run_state (MaybeHeal L K e obit cfg) (w, r))))"
  using frame_run[OF decide_frame.MaybeHeal_frame_if[OF assms(1)
      decide_frame.heal_attempt_dry_frame[OF assms(1,2)] assms(3-5)], of "(w, r)"]
  by (simp add: world_part_def)

corollary dry_run_makes_no_change_witness:
  "m_pods (fst (snd (run_state
      (MaybeHeal sample_lib mem_client NewEngine sample_obituary (sample_config True))
      (pod_mem\<lparr>m_log := m_log sample_mem\<rparr>, newRateLimiter)))) = [(''prod'', ''web-1'') \<mapsto> sample_pod]"
proof -
  have "boolOr (hp_dry_run (cfg_self_heal (sample_config True))) True"
    by (simp add: sample_config_def sample_policy_def boolOr_def)
  moreover have "state_io_rel (\<lambda>w w'. m_pods w' = m_pods w \<and> m_workloads w' = m_workloads w) (k_get_obit mem_client k)"
    "state_io_rel (\<lambda>w w'. m_pods w' = m_pods w \<and> m_workloads w' = m_workloads w) (k_update_obit_status mem_client x)"
    for k x
    by (simp_all add: state_io_rel_def mem_get_obit_def mem_read_def mem_update_obit_status_def Let_def
        split: option.split)
  ultimately show ?thesis
    using dry_run_makes_no_change[OF mem_dry.decide_frame_axioms _ mem_retries_strings,
        where cfg = "sample_config True" and w = "pod_mem\<lparr>m_log := m_log sample_mem\<rparr>"
          and L = sample_lib and obit = sample_obituary and r = newRateLimiter]
    by (simp add: pod_mem_def)
qed

text \<open>
  The audit trail keeps the newest twenty records in their order, the new one last, and
  appending one touches nothing else of the status but the time of the last heal.
\<close>
lemma trail_keeps_newest:
  "\<exists>dropped. st_heal_attempts st @ [rec] =
      dropped @ st_heal_attempts (with_record (eng_max_attempts (heal_engine L K)) rec st) \<and>
    int (length (st_heal_attempts (with_record (eng_max_attempts (heal_engine L K)) rec st))) =
      min 20 (int (length (st_heal_attempts st)) + 1) \<and>
    last (st_heal_attempts (with_record (eng_max_attempts (heal_engine L K)) rec st)) = rec \<and>
    (with_record (eng_max_attempts (heal_engine L K)) rec st)\<lparr>st_heal_attempts := st_heal_attempts st,
      st_last_heal_at := st_last_heal_at st\<rparr> = st"
proof -
  have m: "eng_max_attempts (heal_engine L K) = 20"
    by (simp add: heal_engine_def WithDeciderFactory_def NewEngine_def)
  show ?thesis
    using trim_attempts_suffix[of "st_heal_attempts st @ [rec]" 20]
      length_trim_attempts[of 20 "st_heal_attempts st @ [rec]"]
      last_trim_attempts[of 20 "st_heal_attempts st" rec]
    by (simp add: m with_record_def add.commute)
qed

text \<open>
  C36: under the default gate on confidence, an obituary diagnosed as an application error is
  never healed: that diagnosis never has high confidence, so the rule for it is never reached.
\<close>
theorem application_errors_are_gated:
  assumes "fresh_status (diagnose ul ev) st" "v_cause (diagnose ul ev) = CauseApplicationErr"
    and "boolOr (hp_require_high_confidence p) True"
  shows "\<not> silent_gates p st"
proof -
  have 1: "\<not> oom_signal ev" using diagnose_oom[of ev ul] assms(2) by auto
  have 2: "\<not> probe_signal ul ev" using diagnose_probe[OF 1] assms(2) by auto
  have 3: "e_pod_phase_reason ev \<noteq> ''Evicted''" using diagnose_evicted[OF 1 2] assms(2) by auto
  have 4: "\<not> pull_signal ev" using diagnose_pull[OF 1 2 3] assms(2) by auto
  have 5: "\<not> e_job_failed ev" using diagnose_job[OF 1 2 3 4] assms(2) by auto
  from diagnose_container[OF 1 2 3 4 5] assms(2) have "v_confidence (diagnose ul ev) \<noteq> ConfidenceHigh"
    by (auto split: if_splits)
  with assms(1,3) show ?thesis by (simp add: silent_gates_def fresh_status_def)
qed

corollary application_errors_are_gated_witness:
  "\<not> silent_gates (sample_policy False) (zero_status\<lparr>st_phase := PhaseComplete, st_occurrences := 9,
     st_cause_of_death := CauseApplicationErr, st_confidence := ConfidenceMedium\<rparr>)"
proof -
  let ?e = "zero_evidence\<lparr>e_exit_code := Some 1\<rparr>"
  have "diagnose (\<lambda>r. r) ?e = \<lparr>v_cause = CauseApplicationErr, v_confidence = ConfidenceMedium,
      v_summary = v_summary (diagnose (\<lambda>r. r) ?e)\<rparr>"
    by (simp add: diagnose_def zero_evidence_def exit_code_is_def)
  then show ?thesis
    by (intro application_errors_are_gated[of "\<lambda>r. r" ?e])
      (simp_all add: fresh_status_def zero_status_def diagnose_def zero_evidence_def exit_code_is_def
        sample_policy_def DefaultKoronerConfigSpec_def defaults_simps boolOr_def zero_spec_def)
qed

subsection \<open>The hourly budget\<close>

lemma granted_times_replicate:
  assumes "reserve_run r (replicate n (t, ns, m)) = replicate n True"
  shows "granted_times r (replicate n (t, ns, m)) ns = replicate n t"
  using assms by (induction n arbitrary: r) auto

lemma new_limiter_grants:
  "granted_times newRateLimiter (replicate n (t, ns, int n)) ns = replicate n t"
  using lim.grant_n_within[of newRateLimiter t ns n "int n"]
  by (intro granted_times_replicate) (simp add: reserve_run_replicate)

text \<open>
  C9: over any run of concurrent reservations, in the order the mutex lets them in, with a clock
  that does not go back and caps of at most N, every window of one hour holds at most N grants
  for a namespace. The history lives in memory only, so this is a bound for one process: with
  the cap spent before a restart and again after it, the hour holds twice the cap.
\<close>
theorem hourly_cap_holds:
  assumes "calls_ordered T cs" and "\<forall>(t, n, m) \<in> set cs. m \<le> int N"
  shows "window_count hour t (granted_times newRateLimiter cs ns) \<le> N \<and>
    (\<forall>t1 t2. t1 \<le> t2 \<and> t2 < t1 + hour \<longrightarrow>
      window_count hour t2
        (granted_times newRateLimiter (replicate N (t1, ns, int N)) ns @
         granted_times newRateLimiter (replicate N (t2, ns, int N)) ns) = 2 * N)"
  using granted_window[OF assms] by (simp add: new_limiter_grants window_count_def hour_def)

corollary hourly_cap_holds_witness:
  "window_count hour 7 (granted_times newRateLimiter
     [(1, ''a'', 2), (2, ''a'', 2), (3, ''b'', 2), (4, ''a'', 2)] ''a'') \<le> 2 \<and>
   reserve_run newRateLimiter [(1, ''a'', 2), (2, ''a'', 2), (3, ''b'', 2), (4, ''a'', 2)] =
     [True, True, True, False]"
proof
  show "window_count hour 7 (granted_times newRateLimiter
     [(1, ''a'', 2), (2, ''a'', 2), (3, ''b'', 2), (4, ''a'', 2)] ''a'') \<le> 2"
    by (rule hourly_cap_holds[of 0, THEN conjunct1]) (simp_all add: calls_ordered_def)
  show "reserve_run newRateLimiter [(1, ''a'', 2), (2, ''a'', 2), (3, ''b'', 2), (4, ''a'', 2)] =
     [True, True, True, False]"
    by (simp add: fst_reserve in_window_reserve)
      (simp add: in_window_def history_of_def newRateLimiter_def hour_def)
qed

text \<open>
  C34: the loop that filters the history in its own backing array is a filter: a reservation is
  granted exactly when the namespace's grants of the window are fewer than the cap, it keeps
  those grants in order and adds its own, and it leaves the other namespaces alone.
\<close>
theorem reservation_is_a_filter:
  "(fst (reserve r now ns m) \<longleftrightarrow>
     int (length (filter (\<lambda>t. now - rl_window r < t) (history_of r ns))) < m) \<and>
   history_of (snd (reserve r now ns m)) = (history_of r)(ns :=
     filter (\<lambda>t. now - rl_window r < t) (history_of r ns) @
     (if fst (reserve r now ns m) then [now] else []))"
  by (simp add: fst_reserve in_window_def history_of_reserve fun_eq_iff)

subsection \<open>Deciding\<close>

text \<open>
  C10: whatever the policy, the secrets and the provider's reply are, the decider the factory
  hands out, and the LLM decider on its own, either declines or picks an action that the
  operator allows and the subject's kind supports.
\<close>
theorem factory_decisions_are_sound:
  "(let decide = fst (run_state (HealDeciderFactory L K ns p) w);
        d = fst (run_state (decide obit allowed) u)
    in d_action d = '''' \<or>
       (d_action d \<in> set allowed \<and> kindSupports (subject_kind obit) (d_action d))) \<and>
   (let d = fst (run_state (llm_decide L K cfg obit allowed) u)
    in d_action d = '''' \<or>
       (d_action d \<in> set allowed \<and> kindSupports (subject_kind obit) (d_action d)))"
proof -
  have sound: "d_action (fst (run_state (f obit allowed) u)) = [] \<or>
      (d_action (fst (run_state (f obit allowed) u)) \<in> set allowed \<and>
       kindSupports (subject_kind obit) (d_action (fst (run_state (f obit allowed) u))))"
    if "decider f" for f using decider.decide_sound[OF that refl, of obit allowed u] by blast
  show ?thesis
    unfolding Let_def
    by (intro conjI sound HealDeciderFactory_sound) (rule llm.decider_axioms)
qed

text \<open>
  C13: where a rule applies, it decides: the factory's decider returns the rule's decision
  without a call to the provider, also when an LLM is configured, so an LLM never overrides a
  rule.
\<close>
theorem rules_are_not_overridden:
  assumes "d_action (rule_decision (subject_kind obit) (st_cause_of_death (obit_status obit)) allowed) \<noteq> ''''"
  shows "run_state (fst (run_state (HealDeciderFactory L K ns p) w) obit allowed) u =
    (rule_decision (subject_kind obit) (st_cause_of_death (obit_status obit)) allowed, u)"
  by (rule factory_rule_first[OF _ assms, of L K ns p w]) (simp add: prod_eq_iff)

corollary rules_are_not_overridden_witness:
  "d_action (fst (run_state (fst (run_state (HealDeciderFactory sample_lib mem_client ''prod''
      ((sample_policy False)\<lparr>hp_llm := \<lparr>hl_enabled = True, hl_provider = NarratorProviderOpenAI,
        hl_model = ''m'', hl_api_key_secret_ref = Some \<lparr>skr_name = ''s'', skr_key = '''', skr_namespace = ''''\<rparr>,
        hl_base_url = ''''\<rparr>\<rparr>))
      (sample_mem\<lparr>m_secrets := [(''prod'', ''s'') \<mapsto> [''OPENAI_API_KEY'' \<mapsto> ''k'']]\<rparr>))
    sample_obituary DefaultSelfHealActions) sample_mem)) = SelfHealRollbackDeployment"
proof -
  have "d_action (rule_decision (subject_kind sample_obituary)
      (st_cause_of_death (obit_status sample_obituary)) DefaultSelfHealActions) = SelfHealRollbackDeployment"
    by (simp add: rule_decision_def subject_kind_def sample_obituary_def new_obituary_def sample_death_def
        sample_subject_def ruleFor_def kindRuleMap_def ruleMap_def kindSupports_def
        supportedActionsForKind_def DefaultSelfHealActions_def)
  then show ?thesis by (subst rules_are_not_overridden) simp_all
qed

text \<open>
  With every action allowed, the rule decider recommends for each kind and cause what the
  README's table says, and it declines for failed Jobs and unknown causes on every kind.
\<close>
lemma rule_table_is_documented_table:
  "map (\<lambda>(kind, row). (kind, rule_row kind)) readme_table = readme_table \<and>
   d_action (rule_decision kind CauseUnknown allowed) = '''' \<and>
   d_action (rule_decision kind CauseJobFailed allowed) = ''''"
  by (simp add: rule_row_table rule_decision_def rule_for_unruled)

subsection \<open>Memory\<close>

text \<open>
  C17: without a cap, a finite factor above one never shrinks a memory quantity, float64
  rounding included, and the result is a whole number of MiB, for amounts whose product an
  int64 holds. A cap is a minimum: one below the current amount lowers the memory of a container
  that ran out of it.
\<close>
theorem scaled_memory_grows:
  assumes "quantities L amount" and "quantities.scales L amount (Fin f) q" and "1 < f"
  shows "amount q \<le> amount (scaledQuantity L q (Fin f) None) \<and>
    (\<exists>n. amount (scaledQuantity L q (Fin f) None) = of_int (n * 1048576)) \<and>
    amount (scaledQuantity L q (Fin f) (Some c)) =
      min (amount (scaledQuantity L q (Fin f) None)) (amount c) \<and>
    (amount c < amount q \<longrightarrow> amount (scaledQuantity L q (Fin f) (Some c)) < amount q)"
proof -
  obtain r :: rat where "amount (scaledQuantity L q (Fin f) None) = of_int (up_mib \<lfloor>r\<rfloor>)"
    using quantities.scaled_none[OF assms(1,2)] .
  then have "\<exists>n. amount (scaledQuantity L q (Fin f) None) = of_int (n * 1048576)"
    by (auto simp: up_mib_def)
  moreover have "amount (scaledQuantity L q (Fin f) (Some c)) =
      min (amount (scaledQuantity L q (Fin f) None)) (amount c)"
    using quantities.scaled_cap[OF assms(1), of q "Fin f" c] by simp
  ultimately show ?thesis using quantities.scaled_grows[OF assms] by (auto simp: min_def)
qed

lemma sample_scales:
  assumes "0 \<le> q" "q \<le> 2 ^ 40"
  shows "quantities.scales sample_lib of_int (Fin 2) q"
proof -
  have 2: "q \<le> 2 ^ 53" "2 * q \<le> 2 ^ 53" "q < 2 ^ 63" using assms by simp_all
  then have "sint (lib_quantity_value sample_lib q) = q"
    using assms by (simp add: sample_lib_def sint_word_of_int_64)
  then have "float_of_int64 (lib_quantity_value sample_lib q) = Fin (of_int q)"
    using fl_exact[of q] assms 2 by (simp add: float_of_int64_def)
  moreover have "fl (of_int (2 * q)) = Fin (of_int (2 * q))"
    by (rule fl_exact) (use assms 2 in simp_all)
  moreover have "(of_int q :: rat) \<le> of_int (2 ^ 53)" using 2(1) by (simp only: of_int_le_iff)
  ultimately show ?thesis
    using assms 2 unfolding bytes.scales_def by (auto simp: mult.commute)
qed

corollary scaled_memory_grows_witness:
  "(of_int 104857600 :: rat) \<le> of_int (scaledQuantity sample_lib 104857600 (Fin 2) None) \<and>
   (of_int (scaledQuantity sample_lib 2147483648 (Fin 2) (Some 1073741824)) :: rat) < of_int 2147483648"
  using scaled_memory_grows[OF bytes.quantities_axioms sample_scales[of 104857600]]
    scaled_memory_grows[OF bytes.quantities_axioms sample_scales[of 2147483648], of 1073741824] by simp

text \<open>
  C18: where the factor is finite and above one and the scaled limit is in range, that is the
  limit is at most 2^53 bytes and its float64 product converts to an int64 with room for rounding
  up, a bump keeps a container's memory request, if it was at or below its memory limit before, at
  or below it, capped or not. Outside that range the conversion is the implementation's, and an
  accepted factor like 1e10 can leave the limit below the request.
\<close>
theorem request_stays_below_limit:
  assumes "quantities L amount" and "quantities.scales L amount (Fin f) lq" and "1 < f"
    and "ct_limits c = Some lims" "lims resourceMemory = Some lq"
    and "ct_requests c = Some reqs" "reqs resourceMemory = Some rq"
    and "0 \<le> amount rq" "amount rq \<le> amount lq"
  shows "\<exists>lims' reqs' lq' rq'. ct_limits (bump_container L (Fin f) cap c) = Some lims' \<and>
    ct_requests (bump_container L (Fin f) cap c) = Some reqs' \<and>
    lims' resourceMemory = Some lq' \<and> reqs' resourceMemory = Some rq' \<and> amount rq' \<le> amount lq'"
  using quantities.scaled_mono[OF assms(1,8,9,2,3), of cap] assms(4-7)
  by (simp add: bump_container_limits bump_container_requests)

definition sample_container :: "int container" where
  "sample_container = \<lparr>ct_name = ''app'', ct_limits = Some [resourceMemory \<mapsto> 200000000],
     ct_requests = Some [resourceMemory \<mapsto> 104857600], ct_other = ''''\<rparr>"

corollary request_stays_below_limit_witness:
  "\<exists>lims' reqs' lq' rq'. ct_limits (bump_container sample_lib (Fin 2) None sample_container) = Some lims' \<and>
    ct_requests (bump_container sample_lib (Fin 2) None sample_container) = Some reqs' \<and>
    lims' resourceMemory = Some lq' \<and> reqs' resourceMemory = Some rq' \<and> (of_int rq' :: rat) \<le> of_int lq'"
  by (rule request_stays_below_limit[OF bytes.quantities_axioms sample_scales[of 200000000],
        where lims = "[resourceMemory \<mapsto> 200000000]" and reqs = "[resourceMemory \<mapsto> 104857600]"
          and rq = 104857600])
    (simp_all add: sample_container_def)

text \<open>
  Outside that range, on an implementation that converts a product beyond \<^verbatim>\<open>int64\<close> to its
  smallest value, as amd64 does, the limit falls below the request.
\<close>
lemma overflowing_limit_falls_below_request:
  assumes "quantities L amount"
    and "float_mul (float_of_int64 (lib_quantity_value L lq)) (Fin f) = Fin r" "2 ^ 63 \<le> r"
    and "lib_float_overflow L (Fin r) = - (2 ^ 63)"
    and "quantities.scales L amount (Fin f) rq" "1 < f"
  shows "amount (scaledQuantity L lq (Fin f) None) < amount (scaledQuantity L rq (Fin f) None)"
proof -
  have "(2 ^ 63 :: int) \<le> \<lfloor>r\<rfloor>" using assms(3) by (simp add: le_floor_iff)
  then have "\<not> \<lfloor>r\<rfloor> < 2 ^ 63" by simp
  then have "int64_of_float (lib_float_overflow L) (Fin r) = - (2 ^ 63)"
    using assms(3,4) by (simp add: int64_of_float_def truncate_rat_def)
  moreover have "roundUpToMiB (- (2 ^ 63)) = - (2 ^ 63)" by code_simp
  moreover have "sint (- (2 ^ 63) :: int64) = - (2 ^ 63)" by code_simp
  ultimately have "amount (scaledQuantity L lq (Fin f) None) = - (2 ^ 63)"
    by (simp add: scaledQuantity_def assms(2) quantities.new_exact[OF assms(1)])
  moreover have "0 \<le> amount rq" using assms(5) by (simp add: quantities.scales_def[OF assms(1)])
  ultimately show ?thesis using quantities.scaled_grows[OF assms(1,5,6)] by simp
qed

text \<open>
  C35: an accepted memory factor is above one, infinite or not a number, the last two because
  the check is a comparison that NaN passes; a policy without a factor means one and a half.
\<close>
theorem accepted_factor_exceeds_one:
  assumes "parseFactor L s = Inr v"
  shows "(v = NaN \<or> v = PInf \<or> (\<exists>f. v = Fin f \<and> 1 < f)) \<and>
    (s = None \<or> s = Some '''' \<longrightarrow> v = Fin (3 / 2))"
  using parseFactor_above_one[OF assms] assms by (auto simp: parseFactor_def)

corollary accepted_factor_exceeds_one_witness:
  "parseFactor sample_lib (Some ''NaN'') = Inr NaN \<and> parseFactor sample_lib None = Inr (Fin (3 / 2))"
proof -
  obtain v where v: "parseFactor sample_lib None = Inr v" by (simp add: parseFactor_def)
  from accepted_factor_exceeds_one[OF this] have "v = Fin (3 / 2)" by blast
  with v show ?thesis by (simp add: parseFactor_def sample_lib_def)
qed

subsection \<open>Executors\<close>

text \<open>
  C33: restarting a Deployment updates the object that was read in exactly one respect, the
  restart annotation of its pod template, and says so. The annotation starts with the date of
  the instant in the proleptic Gregorian calendar.
\<close>
theorem restart_sets_one_annotation:
  assumes "retry_contract (k_retry_on_conflict K)" and "subject_kind obit = ''Deployment''"
    and "run_state (k_now K) w = (t, w1)"
    and "run_state (k_get_deployment K (subject_key obit)) w1 = (Inr dep, w2)"
    and "run_state (k_update_deployment K (set_restarted_at (rfc3339 t) dep)) w2 = (None, w3)"
  shows "run_state (restartWorkload L K obit) w =
      ((''patched deployment '' @ snd (subject_key obit), None), w3) \<and>
    set_restarted_at (rfc3339 t) dep = dep\<lparr>wl_template := (wl_template dep)\<lparr>pt_meta :=
      (pt_meta (wl_template dep))\<lparr>om_annotations := Some
        ((or_default (om_annotations (pt_meta (wl_template dep))) Map.empty)(restartedAtKey \<mapsto> rfc3339 t))\<rparr>\<rparr>\<rparr> \<and>
    (\<exists>y m day clock. rfc3339 t = four_digits y @ ''-'' @ two_digits m @ ''-'' @ two_digits day @ ''T'' @ clock \<and>
      t div 1000000000 div 86400 = days_before_date y m + day - 1 \<and> 1 \<le> m \<and> m \<le> 12 \<and>
      1 \<le> day \<and> day \<le> month_lengths y ! nat (m - 1))"
proof (intro conjI)
  have "template_containers (set_restarted_at (rfc3339 t) dep) = template_containers dep"
    by (simp add: template_containers_def set_restarted_at_spec)
  with patch_template_once[of K "k_get_deployment K" obit w1 dep w2 "k_update_deployment K"
      "set_restarted_at (rfc3339 t)" w3 L "''deployment ''"] assms
  show "run_state (restartWorkload L K obit) w = ((''patched deployment '' @ snd (subject_key obit), None), w3)"
    by (simp add: restartWorkload_def patchDeploymentTemplate_def diffDetail_def)
  show "set_restarted_at (rfc3339 t) dep = dep\<lparr>wl_template := (wl_template dep)\<lparr>pt_meta :=
      (pt_meta (wl_template dep))\<lparr>om_annotations := Some
        ((or_default (om_annotations (pt_meta (wl_template dep))) Map.empty)(restartedAtKey \<mapsto> rfc3339 t))\<rparr>\<rparr>\<rparr>"
    by (auto simp: set_restarted_at_def ensureAnnotations_def Let_def)
  obtain y m day where date: "date_of (t div 1000000000 div 86400) = (y, m, day)" by (metis prod_cases3)
  have "\<exists>clock. rfc3339 t = four_digits y @ ''-'' @ two_digits m @ ''-'' @ two_digits day @ ''T'' @ clock"
    by (simp add: rfc3339_def date Let_def)
  with date_correct[OF date]
  show "\<exists>y m day clock. rfc3339 t = four_digits y @ ''-'' @ two_digits m @ ''-'' @ two_digits day @ ''T'' @ clock \<and>
      t div 1000000000 div 86400 = days_before_date y m + day - 1 \<and> 1 \<le> m \<and> m \<le> 12 \<and>
      1 \<le> day \<and> day \<le> month_lengths y ! nat (m - 1)" by blast
qed

definition sample_deployment :: "int workload" where
  "sample_deployment = \<lparr>
     wl_meta = zero_meta\<lparr>om_name := ''web'', om_namespace := ''prod'', om_uid := ''d1''\<rparr>,
     wl_template = \<lparr>pt_meta = zero_meta, pt_spec = \<lparr>ps_containers = [sample_container], ps_other = ''''\<rparr>\<rparr>,
     wl_other = ''''\<rparr>"

definition workload_mem :: mem where
  "workload_mem = sample_mem\<lparr>m_workloads := [(''Deployment'', (''prod'', ''web'')) \<mapsto> sample_deployment]\<rparr>"

lemma sample_subject_of_obituary [simp]:
  "subject_kind sample_obituary = ''Deployment''" "subject_key sample_obituary = (''prod'', ''web'')"
  by (simp_all add: subject_kind_def subject_key_def sample_obituary_def new_obituary_def sample_death_def
      sample_subject_def)

corollary restart_sets_one_annotation_witness:
  "fst (run_state (restartWorkload sample_lib mem_client sample_obituary) workload_mem) =
     (''patched deployment web'', None)"
proof -
  let ?w = "workload_mem" and ?d = "set_restarted_at (rfc3339 1000) sample_deployment"
  have now: "run_state (k_now mem_client) ?w = (1000, ?w)"
    by (simp add: workload_mem_def sample_mem_def empty_mem_def)
  have get: "run_state (k_get_deployment mem_client (subject_key sample_obituary)) ?w =
      (Inr sample_deployment, ?w)"
    by (simp add: mem_read_def workload_mem_def)
  have put: "run_state (k_update_deployment mem_client ?d) ?w =
      (None, ?w\<lparr>m_workloads := (m_workloads ?w)((''Deployment'', wl_key ?d) \<mapsto> ?d)\<rparr>)"
    by (simp add: mem_update_workload_def mem_write_def)
  from restart_sets_one_annotation[OF mem_retries_strings sample_subject_of_obituary(1) now get put,
      THEN conjunct1, of sample_lib]
  show ?thesis by simp
qed

text \<open>
  C32: with a sort that keeps the promise of the standard library's, a rollback goes to the owned
  ReplicaSet with the second highest revision, and to none when fewer than two are owned.
\<close>
theorem rollback_target_is_second_newest:
  assumes "slice_sort (lib_sort_slice L)"
    and "fst (run_state (k_list_replica_sets K (om_namespace (wl_meta dep))) w) = Inr items"
  shows "if length (owned_revisions dep items) < 2
    then fst (run_state (previousReplicaSet L K dep) w) = Inr None
    else \<exists>newest prev rest. mset (owned_revisions dep items) = mset (newest # prev # rest) \<and>
      sint (snd prev) \<le> sint (snd newest) \<and> (\<forall>x \<in> set rest. sint (snd x) \<le> sint (snd prev)) \<and>
      fst (run_state (previousReplicaSet L K dep) w) = Inr (Some (fst prev, show_int (sint (snd prev))))"
proof (cases "length (owned_revisions dep items) < 2")
  case True
  with assms(2) show ?thesis by (simp add: previousReplicaSet_def case_prod_unfold)
next
  case False
  let ?s = "lib_sort_slice L revision_less (owned_revisions dep items)"
  note order = newest_first.strict_weak_order_axioms
  note s = slice_sort.sort_perm[OF assms(1) order, of "owned_revisions dep items"]
    slice_sort.sort_sorted[OF assms(1) order, of "owned_revisions dep items"]
  have "length ?s = length (owned_revisions dep items)" by (rule slice_sort.sort_length[OF assms(1) order])
  with False have "?s \<noteq> []" "tl ?s \<noteq> []" by (auto simp flip: length_0_conv)
  then obtain a b rest where abr: "?s = a # b # rest" by (metis list.exhaust_sel)
  have "fst (run_state (previousReplicaSet L K dep) w) = Inr (Some (fst b, show_int (sint (snd b))))"
    using False assms(2) abr by (simp add: previousReplicaSet_def case_prod_unfold)
  moreover have "mset (owned_revisions dep items) = mset (a # b # rest)" using s(1) abr by simp
  moreover have "sint (snd b) \<le> sint (snd a) \<and> (\<forall>x \<in> set rest. sint (snd x) \<le> sint (snd b))"
    using s(2) abr by (simp add: revision_less_def word_sless_alt not_less)
  ultimately show ?thesis using False by (simp only: if_False) blast
qed

definition sample_replica_set :: "string \<Rightarrow> string \<Rightarrow> string \<Rightarrow> int replica_set" where
  "sample_replica_set name owner revision = \<lparr>
     rs_meta = zero_meta\<lparr>om_name := name, om_namespace := ''prod'',
       om_annotations := Some [revisionKey \<mapsto> revision],
       om_owner_references := [\<lparr>or_api_version = ''apps/v1'', or_kind = ''Deployment'',
         or_name = ''web'', or_uid = owner, or_controller = Some True\<rparr>]\<rparr>,
     rs_template = \<lparr>pt_meta = zero_meta, pt_spec = \<lparr>ps_containers = [], ps_other = name\<rparr>\<rparr>\<rparr>"

definition sample_replica_sets :: "int replica_set list" where
  "sample_replica_sets = [sample_replica_set ''web-a'' ''d1'' ''9'', sample_replica_set ''web-b'' ''d1'' ''10'',
     sample_replica_set ''db-a'' ''d2'' ''30'']"

lemma sample_sort: "slice_sort (lib_sort_slice sample_lib)"
  using insertion.slice_sort_axioms by (simp add: sample_lib_def)

corollary rollback_target_is_second_newest_witness:
  "fst (run_state (previousReplicaSet sample_lib mem_client sample_deployment)
     (workload_mem\<lparr>m_replica_sets := sample_replica_sets\<rparr>)) =
   Inr (Some (sample_replica_set ''web-a'' ''d1'' ''9'', ''9''))"
proof -
  let ?w = "workload_mem\<lparr>m_replica_sets := sample_replica_sets\<rparr>"
  have list: "fst (run_state (k_list_replica_sets mem_client (om_namespace (wl_meta sample_deployment))) ?w) =
      Inr sample_replica_sets"
    by (simp add: mem_client_def sample_deployment_def sample_replica_sets_def sample_replica_set_def)
  let ?a = "sample_replica_set ''web-a'' ''d1'' ''9''" and ?b = "sample_replica_set ''web-b'' ''d1'' ''10''"
  have owned: "owned_revisions sample_deployment sample_replica_sets = [(?a, 9), (?b, 10)]"
    by (simp add: owned_revisions_def sample_replica_sets_def sample_replica_set_def sample_deployment_def
        annotation_def parse_int64_def is_digit_def digit_val_def byte_of_def)
  obtain newest prev rest where p: "mset [(?a, 9 :: int64), (?b, 10)] = mset (newest # prev # rest)"
    "sint (snd prev) \<le> sint (snd newest)"
    "fst (run_state (previousReplicaSet sample_lib mem_client sample_deployment) ?w) =
      Inr (Some (fst prev, show_int (sint (snd prev))))"
  proof -
    have two: "\<not> length (owned_revisions sample_deployment sample_replica_sets) < 2" by (simp add: owned)
    show thesis
      using rollback_target_is_second_newest[OF sample_sort list] that
      unfolding if_not_P[OF two] unfolding owned by blast
  qed
  have "length (newest # prev # rest) = 2" using arg_cong[OF p(1), of size] by simp
  with p(1) have "prev = (?a, 9) \<and> newest = (?b, 10) \<or> prev = (?b, 10) \<and> newest = (?a, 9)"
    by (auto simp: add_eq_conv_ex)
  with p(2) have "prev = (?a, 9)" by auto
  moreover have "show_int 9 = ''9''" by code_simp
  ultimately show ?thesis using p(3) by simp
qed

lemma digits_value_grows: "n \<le> foldl (\<lambda>a c. 10 * a + digit_val c) n s"
proof (induction s arbitrary: n)
  case (Cons c s)
  have "n \<le> 10 * n + digit_val c" by simp
  also have "\<dots> \<le> foldl (\<lambda>a c. 10 * a + digit_val c) (10 * n + digit_val c) s" by (rule Cons.IH)
  finally show ?case by simp
qed simp

lemma parse_digits_value:
  assumes "\<forall>c \<in> set s. is_digit c" "foldl (\<lambda>a c. 10 * a + digit_val c) n s < 2 ^ 64"
  shows "parse_digits n s = Some (foldl (\<lambda>a c. 10 * a + digit_val c) n s)"
  using assms
proof (induction s arbitrary: n)
  case (Cons c s)
  have "10 * n + digit_val c < 2 ^ 64"
    using digits_value_grows[of "10 * n + digit_val c" s] Cons.prems(2)
    unfolding foldl_Cons by (rule le_less_trans)
  with Cons show ?case by simp
qed simp

lemma parse_digits_show_nat: "n < 2 ^ 64 \<Longrightarrow> parse_digits 0 (show_nat n) = Some n"
  using parse_digits_value[of "show_nat n" 0] show_nat_digits nat_of_digits_show_nat[of n]
  by (simp add: nat_of_digits_def)

text \<open>
  The revision a rollback reports is the revision it read: the decimal text of an int64 parses
  back to the same int64, the smallest one included.
\<close>
lemma revision_text_roundtrip:
  "parse_int64 (show_int (sint (revn :: int64))) = revn"
proof (cases "sint revn < 0")
  case True
  let ?n = "nat (- sint revn)"
  have n: "int ?n = - sint revn" "int ?n \<le> 2 ^ 63" using True sint_ge[of revn] by simp_all
  then have "?n < 2 ^ 64" by simp
  then have "parse_digits 0 (show_nat ?n) = Some ?n" by (rule parse_digits_show_nat)
  with True n show ?thesis
    by (simp add: show_int_def parse_int64_def show_nat_nonempty)
next
  case False
  let ?n = "nat (sint revn)"
  have n: "int ?n = sint revn" "int ?n \<le> 2 ^ 63 - 1" using False sint_lt[of revn] by simp_all
  then have "?n < 2 ^ 64" by simp
  then have p: "parse_digits 0 (show_nat ?n) = Some ?n" by (rule parse_digits_show_nat)
  have "is_digit (hd (show_nat ?n))" using show_nat_digits[of ?n] show_nat_nonempty[of ?n] by simp
  then have "hd (show_nat ?n) \<noteq> CHR ''-''" "hd (show_nat ?n) \<noteq> CHR ''+''"
    by (auto simp: is_digit_def byte_of_def)
  moreover have "show_int (sint revn) = show_nat ?n" using False by (simp add: show_int_def)
  moreover have "word_of_int (int ?n) = revn" using n by simp
  ultimately show ?thesis using n p by (simp add: parse_int64_def show_nat_nonempty Let_def)
qed

end
