(* ===== verification/Investigating.thy ===== *)
theory Investigating
  imports Sample
begin

section \<open>What gathering evidence and resolving policy promise\<close>

text \<open>
  The properties of the evidence collectors, of the scan for the LLM's JSON and of the policy:
  the owner chain over the contract \<open>steady_owners\<close>, the rest for every client.
\<close>

subsection \<open>Evidence\<close>

text \<open>
  C26: the owner chain is the path of controller references from the deceased, at most six long;
  when it is shorter, its last record, which names the subject of the obituary, is the root: the
  object whose own controller cannot be followed further.
\<close>
theorem owner_chain_ends_at_root:
  assumes "steady_owners K table okw" and "okw w"
  shows "run_state (OwnerChain L K ns owners) w =
      (map owner_record_of (owner_path (next_owners L table ns) 6 owners), w) \<and>
    length (owner_path (next_owners L table ns) 6 owners) \<le> 6 \<and>
    (owners \<noteq> [] \<and> length (owner_path (next_owners L table ns) 6 owners) < 6 \<longrightarrow>
      TopOwner (fst (run_state (OwnerChain L K ns owners) w)) =
        owner_record_of (last (owner_path (next_owners L table ns) 6 owners)) \<and>
      next_owners L table ns (last (owner_path (next_owners L table ns) 6 owners)) = [])"
proof -
  let ?p = "owner_path (next_owners L table ns) 6 owners"
  have run: "run_state (OwnerChain L K ns owners) w = (map owner_record_of ?p, w)"
    using steady_owners.OwnerChain_path[OF assms] by (simp add: maxOwnerDepth_def)
  have len: "length ?p \<le> 6" and empty: "?p = [] \<longleftrightarrow> owners = []"
    using OwnerChain_bounds[of L K ns owners w] run by (simp_all add: maxOwnerDepth_def)
  show ?thesis
    using run len empty owner_path_root[of "next_owners L table ns" 6 owners]
    by (simp add: TopOwner_last last_map)
qed

definition sample_refs :: "string \<Rightarrow> string \<Rightarrow> owner_reference list" where
  "sample_refs kind name = [\<lparr>or_api_version = ''apps/v1'', or_kind = kind, or_name = name,
     or_uid = '''', or_controller = Some True\<rparr>]"

definition sample_owner_table :: "(string \<times> string) \<times> string \<times> object_key \<rightharpoonup> owner_reference list" where
  "sample_owner_table = [((''''  , ''apps/v1''), ''ReplicaSet'', ''prod'', ''web-a'') \<mapsto> sample_refs ''Deployment'' ''web'',
     (('''' , ''apps/v1''), ''Deployment'', ''prod'', ''web'') \<mapsto> []]"

corollary owner_chain_ends_at_root_witness:
  "TopOwner (fst (run_state (OwnerChain sample_lib mem_client ''prod'' (sample_refs ''ReplicaSet'' ''web-a''))
      (empty_mem\<lparr>m_owner_refs := sample_owner_table\<rparr>))) =
    \<lparr>ow_api_version = ''apps/v1'', ow_kind = ''Deployment'', ow_name = ''web''\<rparr>"
proof -
  have "owner_path (next_owners sample_lib sample_owner_table ''prod'') 6 (sample_refs ''ReplicaSet'' ''web-a'') =
      sample_refs ''ReplicaSet'' ''web-a'' @ sample_refs ''Deployment'' ''web''"
    by (simp add: eval_nat_numeral next_owners_def sample_refs_def sample_owner_table_def sample_lib_def
        controllerRef_def is_controller_def)
  then show ?thesis
    using owner_chain_ends_at_root[OF mem_owners.steady_owners_axioms,
        of "empty_mem\<lparr>m_owner_refs := sample_owner_table\<rparr>" sample_owner_table sample_lib "''prod''"
          "sample_refs ''ReplicaSet'' ''web-a''"]
    by (simp add: sample_refs_def owner_record_of_def TopOwner_def)
qed

text \<open>
  C30: the event timeline holds exactly the listed events, oldest first by the time each really
  carries, those without any time last, and events of one time in the order they were listed.
\<close>
theorem timeline_is_stable_sort:
  assumes "fst (run_state (k_list_events K ns uid) w) = Inr items"
  shows "\<exists>tl. fst (run_state (Events K ns uid) w) = Inr tl \<and>
    mset tl = mset (map event_record_of items) \<and> sorted_wrt in_order tl \<and>
    (\<forall>t. filter (\<lambda>e. ev_time e = t) tl = filter (\<lambda>e. ev_time e = t) (map event_record_of items))"
proof -
  have "fst (run_state (Events K ns uid) w) = Inr (slice_stable event_less (map event_record_of items))"
    using assms by (simp add: Events_def case_prod_unfold)
  with timeline show ?thesis by blast
qed

definition sample_event :: "string \<Rightarrow> instant \<Rightarrow> instant \<Rightarrow> core_event" where
  "sample_event msg last_seen first_seen = \<lparr>ce_type = ''Warning'', ce_reason = ''BackOff'', ce_message = msg,
     ce_last_timestamp = last_seen, ce_event_time = 0, ce_first_timestamp = first_seen\<rparr>"

corollary timeline_is_stable_sort_witness:
  "\<exists>tl. fst (run_state (Events mem_client ''prod'' ''u2'') (empty_mem\<lparr>m_events :=
      [(''prod'', ''u2'') \<mapsto> [sample_event ''c'' 0 0, sample_event ''b'' 0 9, sample_event ''a'' 5 0]]\<rparr>)) = Inr tl \<and>
    sorted_wrt in_order tl \<and> length tl = 3"
proof -
  let ?items = "[sample_event ''c'' 0 0, sample_event ''b'' 0 9, sample_event ''a'' 5 0]"
  let ?w = "empty_mem\<lparr>m_events := [(''prod'', ''u2'') \<mapsto> ?items]\<rparr>"
  have "fst (run_state (k_list_events mem_client ''prod'' ''u2'') ?w) = Inr ?items"
    by (simp add: mem_client_def mem_read_def)
  from timeline_is_stable_sort[OF this] obtain tl where
    "fst (run_state (Events mem_client ''prod'' ''u2'') ?w) = Inr tl" "sorted_wrt in_order tl"
    "mset tl = mset (map event_record_of ?items)" by blast
  moreover from this(3) have "length tl = length (map event_record_of ?items)" by (rule mset_eq_length)
  ultimately show ?thesis by auto
qed

lemma replace_pairs_absent:
  assumes "\<forall>(old, new) \<in> set ps. old = [] \<or> \<not> contains_sub s old"
  shows "replace_pairs ps s = s"
  using assms
proof (induction ps s rule: replace_pairs.induct)
  case (2 ps c s)
  have "find_first (\<lambda>(old, new). old \<noteq> [] \<and> has_prefix old (c # s)) ps = None"
    using 2(3) by fastforce
  moreover have "\<forall>(old, new) \<in> set ps. old = [] \<or> \<not> contains_sub s old" using 2(3) by fastforce
  ultimately show ?case using 2(1) by (simp del: find_first_None)
qed simp

text \<open>
  In a query template, the placeholders in double braces \<open>pod\<close> and \<open>namespace\<close> become the
  pod's name and namespace, and a template without these two is sent as it is: the Go-style
  placeholders with a dot and a capital, which the API type documents, are not replaced.
\<close>
lemma only_lower_case_placeholders:
  assumes "\<not> contains_sub s ''{{pod}}''" "\<not> contains_sub s ''{{namespace}}''"
  shows "expand_query ns pod s = s \<and> expand_query ns pod ''{{pod}}'' = pod \<and>
    expand_query ns pod ''{{namespace}}'' = ns"
  using assms by (simp add: expand_query_def replace_pairs_absent)

subsection \<open>Policy\<close>

text \<open>
  C37: filling in the defaults changes what is unset and nothing else: pod crashes and failed Jobs
  are watched, rollouts and evictions are not, a container has to restart three times, 200 lines
  of log are kept, obituaries for a week; a heal is a dry run, needs high confidence and three
  occurrences, happens at most five times an hour, may take any of the four actions and scales
  memory by one and a half. A second pass changes nothing. So what a policy leaves out has these
  consequences: an eviction counts as a death only where the user asked for it, a restart count
  from the user's threshold on, or from three; and a heal is for real only where the user
  switched the dry run off.
\<close>
theorem defaults_complete_the_policy:
  "with_defaults s = s\<lparr>
     cfg_watch := \<lparr>
       wp_pod_crashes = Some (or_default (wp_pod_crashes (cfg_watch s)) True),
       wp_job_failures = Some (or_default (wp_job_failures (cfg_watch s)) True),
       wp_rollout_failures = Some (or_default (wp_rollout_failures (cfg_watch s)) False),
       wp_evictions = Some (or_default (wp_evictions (cfg_watch s)) False)\<rparr>,
     cfg_restart_threshold := Some (or_default (cfg_restart_threshold s) 3),
     cfg_log_tail_lines := Some (or_default (cfg_log_tail_lines s) 200),
     cfg_obituary_retention := Some (or_default (cfg_obituary_retention s) 604800000000000),
     cfg_self_heal := (cfg_self_heal s)\<lparr>
       hp_dry_run := Some (or_default (hp_dry_run (cfg_self_heal s)) True),
       hp_min_occurrences := Some (or_default (hp_min_occurrences (cfg_self_heal s)) 3),
       hp_require_high_confidence := Some (or_default (hp_require_high_confidence (cfg_self_heal s)) True),
       hp_max_heals_per_hour := Some (or_default (hp_max_heals_per_hour (cfg_self_heal s)) 5),
       hp_actions := (if hp_actions (cfg_self_heal s) = []
         then [''DeletePod'', ''RestartWorkload'', ''BumpMemory'', ''RollbackDeployment'']
         else hp_actions (cfg_self_heal s)),
       hp_memory_factor := Some (or_default (hp_memory_factor (cfg_self_heal s)) ''1.5'')\<rparr>\<rparr> \<and>
   with_defaults (with_defaults s) = with_defaults s \<and>
   (detectPodDeath pod (with_defaults s) \<noteq> None \<longleftrightarrow>
      (pod_reason pod = ''Evicted'' \<and> wp_evictions (cfg_watch s) = Some True) \<or>
      (\<exists>cs \<in> set (pod_container_statuses pod). shows_death (or_default (cfg_restart_threshold s) 3) cs)) \<and>
   (boolOr (hp_dry_run (cfg_self_heal (with_defaults s))) True \<longleftrightarrow>
      hp_dry_run (cfg_self_heal s) \<noteq> Some False)"
proof (intro conjI)
  note fills = defaults_simps default_constants fill_def orTrue_def orFalse_def or_default_def
  show "with_defaults s = s\<lparr>
     cfg_watch := \<lparr>
       wp_pod_crashes = Some (or_default (wp_pod_crashes (cfg_watch s)) True),
       wp_job_failures = Some (or_default (wp_job_failures (cfg_watch s)) True),
       wp_rollout_failures = Some (or_default (wp_rollout_failures (cfg_watch s)) False),
       wp_evictions = Some (or_default (wp_evictions (cfg_watch s)) False)\<rparr>,
     cfg_restart_threshold := Some (or_default (cfg_restart_threshold s) 3),
     cfg_log_tail_lines := Some (or_default (cfg_log_tail_lines s) 200),
     cfg_obituary_retention := Some (or_default (cfg_obituary_retention s) 604800000000000),
     cfg_self_heal := (cfg_self_heal s)\<lparr>
       hp_dry_run := Some (or_default (hp_dry_run (cfg_self_heal s)) True),
       hp_min_occurrences := Some (or_default (hp_min_occurrences (cfg_self_heal s)) 3),
       hp_require_high_confidence := Some (or_default (hp_require_high_confidence (cfg_self_heal s)) True),
       hp_max_heals_per_hour := Some (or_default (hp_max_heals_per_hour (cfg_self_heal s)) 5),
       hp_actions := (if hp_actions (cfg_self_heal s) = []
         then [''DeletePod'', ''RestartWorkload'', ''BumpMemory'', ''RollbackDeployment'']
         else hp_actions (cfg_self_heal s)),
       hp_memory_factor := Some (or_default (hp_memory_factor (cfg_self_heal s)) ''1.5'')\<rparr>\<rparr>"
    by (intro koroner_config_spec.equality self_heal_policy.equality watch_policy.equality)
      (simp_all add: fills DefaultSelfHealActions_def split: option.split)
  show "with_defaults (with_defaults s) = with_defaults s"
    by (simp add: with_defaults_populates with_defaults_fixpoint)
  show "detectPodDeath pod (with_defaults s) \<noteq> None \<longleftrightarrow>
      (pod_reason pod = ''Evicted'' \<and> wp_evictions (cfg_watch s) = Some True) \<or>
      (\<exists>cs \<in> set (pod_container_statuses pod). shows_death (or_default (cfg_restart_threshold s) 3) cs)"
    unfolding detectPodDeath_iff
    by (cases "wp_evictions (cfg_watch s)"; cases "cfg_restart_threshold s") (simp_all add: fills)
  show "boolOr (hp_dry_run (cfg_self_heal (with_defaults s))) True \<longleftrightarrow>
      hp_dry_run (cfg_self_heal s) \<noteq> Some False"
    by (cases "hp_dry_run (cfg_self_heal s)") (simp_all add: fills boolOr_def)
qed

corollary defaults_complete_the_policy_witness:
  "with_defaults DefaultKoronerConfigSpec = DefaultKoronerConfigSpec \<and>
   detectPodDeath (sample_pod\<lparr>pod_reason := ''Evicted'', pod_container_statuses := []\<rparr>) DefaultKoronerConfigSpec = None"
proof -
  note t = defaults_complete_the_policy[of zero_spec
      "sample_pod\<lparr>pod_reason := ''Evicted'', pod_container_statuses := []\<rparr>", THEN conjunct2]
  have "wp_evictions (cfg_watch zero_spec) \<noteq> Some True" by (simp add: zero_spec_def)
  with t[THEN conjunct1] t[THEN conjunct2, THEN conjunct1] show ?thesis
    by (simp add: DefaultKoronerConfigSpec_def del: not_None_eq)
qed

text \<open>
  C38: the policy a reconcile works with is always complete, and when no config can be read, in
  the subject's namespace or the operator's, it is the default one, under which nothing is
  healed.
\<close>
theorem unreadable_policy_never_heals:
  assumes "\<And>c cs. fst (run_state (k_list_configs K ns) w) \<noteq> Inr (c # cs)"
    and "\<And>c u. fst (run_state (k_get_config K (op, ''default'')) u) \<noteq> Inr c"
  shows "fst (run_state (resolveConfig K ns op) w) = DefaultKoronerConfigSpec \<and>
    populated (fst (run_state (resolveConfig K ns op) w)) \<and>
    \<not> silent_gates (cfg_self_heal (fst (run_state (resolveConfig K ns op) w))) st"
proof -
  obtain r w1 where l: "run_state (k_list_configs K ns) w = (r, w1)" by force
  obtain g w2 where g: "run_state (k_get_config K (op, ''default'')) w1 = (g, w2)" by force
  have "\<exists>e. g = Inl e" using assms(2)[of w1] g by (cases g) auto
  moreover have "(\<exists>e. r = Inl e) \<or> r = Inr []"
  proof (cases r)
    case (Inr xs)
    with assms(1) l show ?thesis by (cases xs) auto
  qed simp
  ultimately have d: "fst (run_state (resolveConfig K ns op) w) = DefaultKoronerConfigSpec"
    using l g by (auto simp: resolveConfig_def)
  moreover have "\<not> hp_enabled (cfg_self_heal DefaultKoronerConfigSpec)"
    by (simp add: DefaultKoronerConfigSpec_def with_defaults_keeps zero_spec_def)
  ultimately show ?thesis
    using resolveConfig_populated[of K ns op w] by (simp add: silent_gates_def)
qed

definition no_config_client :: "(mem, int) kube_client" where
  "no_config_client = mem_client\<lparr>k_get_config := \<lambda>key. ret (Inl (errorf ''forbidden''))\<rparr>"

corollary unreadable_policy_never_heals_witness:
  "\<not> silent_gates (cfg_self_heal (fst (run_state (resolveConfig no_config_client ''prod'' ''koroner'') sample_mem)))
     sample_status"
proof -
  have "fst (run_state (k_list_configs no_config_client ''prod'') sample_mem) \<noteq> Inr (c # cs)" for c cs
    by (simp add: no_config_client_def mem_client_def sample_mem_def empty_mem_def)
  moreover have "fst (run_state (k_get_config no_config_client (''koroner'', ''default'')) u) \<noteq> Inr c" for c u
    by (simp add: no_config_client_def)
  ultimately show ?thesis using unreadable_policy_never_heals[of no_config_client "''prod''" sample_mem "''koroner''"]
    by blast
qed

text \<open>
  C40: at start-up an existing default config is left alone, and one is created, complete, only
  where a read says there is none; losing a race for the creation is no error.
\<close>
theorem seeding_never_overwrites:
  assumes "ns \<noteq> ''''" and "run_state (k_wait_for_cache_sync K) w = (True, w1)"
    and "run_state (k_get_config K (ns, DefaultConfigName)) w1 = (g, w2)"
  shows "(case g of
      Inr existing \<Rightarrow> run_state (seeder_Start K ctx_err ns) w = (None, w2)
    | Inl err \<Rightarrow>
        if \<not> is_not_found err then run_state (seeder_Start K ctx_err ns) w = (Some err, w2)
        else populated (kc_spec (default_config ns)) \<and>
          (\<exists>e w3. run_state (k_create_config K (default_config ns)) w2 = (e, w3) \<and>
            run_state (seeder_Start K ctx_err ns) w =
              (case e of Some c \<Rightarrow> if is_already_exists c then None else Some c | None \<Rightarrow> None, w3)))"
proof (cases g)
  case (Inr existing)
  then show ?thesis using seeder_no_overwrite[of K w w1 ns existing w2 ctx_err] assms by simp
next
  case (Inl err)
  obtain e w3 where c: "run_state (k_create_config K (default_config ns)) w2 = (e, w3)" by force
  with assms Inl show ?thesis
    by (cases e) (simp_all add: seeder_Start_def default_config_populated)
qed

corollary seeding_never_overwrites_witness:
  "run_state (seeder_Start mem_client None ''koroner'') (empty_mem\<lparr>m_configs := [default_config ''koroner'']\<rparr>) =
     (None, empty_mem\<lparr>m_configs := [default_config ''koroner'']\<rparr>)"
proof -
  let ?w = "empty_mem\<lparr>m_configs := [default_config ''koroner'']\<rparr>"
  have "run_state (k_wait_for_cache_sync mem_client) ?w = (True, ?w)"
    "run_state (k_get_config mem_client (''koroner'', DefaultConfigName)) ?w = (Inr (default_config ''koroner''), ?w)"
    by (simp_all add: mem_client_def mem_read_def config_key_def default_config_def)
  from seeding_never_overwrites[OF _ this, of None] show ?thesis by simp
qed

end
