(* ===== verification/Lifecycle.thy ===== *)
theory Lifecycle
  imports Sample
begin

section \<open>The operator as a state machine\<close>

text \<open>
  The state of the running operator is the cluster and its rate limiter. A step is one
  reconcile of a pod or a Job, a change \<open>E\<close> the environment makes to the cluster, or a restart,
  which forgets the limiter. \<open>well_kept\<close> is the invariant of every stored obituary where nothing
  fails and the environment leaves the obituaries alone; each kind of step is shown to keep it,
  whatever the pod, the policy, the provider and the heal do, so it holds in every reachable
  state. What holds with faults and other writers is in \<open>Faults\<close>.
\<close>

definition well_kept :: "int \<Rightarrow> obituary_status \<Rightarrow> bool" where
  "well_kept m st \<longleftrightarrow> st_phase st = PhaseComplete \<and> st_first_seen st \<noteq> None \<and>
     int (length (st_heal_attempts st)) \<le> m"

definition all_kept :: "int \<Rightarrow> (object_key \<Rightarrow> obituary_status option) \<Rightarrow> bool" where
  "all_kept m f \<longleftrightarrow> (\<forall>k st. f k = Some st \<longrightarrow> well_kept m st)"

inductive operator_step ::
  "('q, 'l) koroner_lib_scheme \<Rightarrow> ('w, 'q, 'z) kube_client_scheme \<Rightarrow> ('w \<Rightarrow> 'w \<Rightarrow> bool) \<Rightarrow>
   'w reconciler \<Rightarrow> 'w \<times> rate_limiter \<Rightarrow> 'w \<times> rate_limiter \<Rightarrow> bool"
  for L K E rc where
  pod_event: "run_state (PodReconcile L K rc req) s = (err, s') \<Longrightarrow> operator_step L K E rc s s'"
| job_event: "run_state (JobReconcile L K rc req) s = (err, s') \<Longrightarrow> operator_step L K E rc s s'"
| elsewhere: "E w w' \<Longrightarrow> operator_step L K E rc (w, r) (w', r)"
| restart: "operator_step L K E rc (w, r) (w, newRateLimiter)"

inductive operator_reach ::
  "('q, 'l) koroner_lib_scheme \<Rightarrow> ('w, 'q, 'z) kube_client_scheme \<Rightarrow> ('w \<Rightarrow> 'w \<Rightarrow> bool) \<Rightarrow>
   'w reconciler \<Rightarrow> 'w \<Rightarrow> 'w \<times> rate_limiter \<Rightarrow> bool"
  for L K E rc w0 where
  start: "operator_reach L K E rc w0 (w0, newRateLimiter)"
| step: "operator_reach L K E rc w0 s \<Longrightarrow> operator_step L K E rc s s' \<Longrightarrow>
     operator_reach L K E rc w0 s'"

inductive_cases operator_stepE: "operator_step L K E rc s s'"

lemma all_kept_upd: "all_kept m f \<Longrightarrow> well_kept m st \<Longrightarrow> all_kept m (f(k := Some st))"
  by (simp add: all_kept_def)

lemma filed_kept:
  "filed subject c v ep dd k st \<Longrightarrow> st_heal_attempts st = [] \<Longrightarrow> 0 \<le> m \<Longrightarrow> well_kept m st"
  by (simp add: filed_def well_kept_def)

lemma with_record_kept: "0 < m \<Longrightarrow> well_kept m st \<Longrightarrow> well_kept m (with_record m rec st)"
  using length_trim_attempts[of m "st_heal_attempts st @ [rec]"]
  by (simp add: well_kept_def with_record_def)

context quiet_koroner
begin

text \<open>An investigation ends without a write, or with the recording of a death.\<close>

lemma investigate_pod_cases:
  assumes "run_state (investigate_pod L K rc req) w = (i, w')"
  obtains (ended) x where "i = Inl x" "same w w'"
  | (recording) pod cfg death w0 where "same w w0"
      "run_state (record_pod_death L K (rc_narrator rc) pod death cfg) w0 = (i, w')"
proof -
  obtain p w1 where p: "run_state (k_get_pod K req) w = (p, w1)" by force
  have s1: "same w w1" using state_io_relD[OF pod_quiet p] .
  show thesis
  proof (cases p)
    case (Inl err)
    with assms p have "Inl (IgnoreNotFound err) = i" "w1 = w'" by (simp_all add: investigate_pod_def)
    with ended s1 show thesis by blast
  next
    case (Inr pod)
    let ?ns = "om_namespace (pod_meta pod)"
    obtain c w2 where c: "run_state (resolveConfig K ?ns (rc_operator_namespace rc)) w1 = (c, w2)" by force
    obtain b w3 where b: "run_state (namespaceWatched L K c ?ns) w2 = (b, w3)" by force
    have s2: "same w w2" using s1 state_io_relD[OF collect_quiet(3) c] by simp
    have s3: "same w w3" using s2 state_io_relD[OF collect_quiet(4) b] by simp
    show thesis
    proof (cases "wp_pod_crashes (cfg_watch c) = Some True \<and> b \<and> detectPodDeath pod c \<noteq> None")
      case True
      then obtain death where "detectPodDeath pod c = Some death" by blast
      with True assms p Inr c b s3 recording[of w3 pod death c] show thesis by (simp add: investigate_pod_def)
    next
      case False
      with assms p Inr c b s2 s3 ended show thesis
        by (auto simp: investigate_pod_def split: if_splits option.splits)
    qed
  qed
qed

lemma investigate_job_cases:
  assumes "run_state (investigate_job L K rc req) w = (i, w')"
  obtains (ended) x where "i = Inl x" "same w w'"
  | (recording) job cfg w0 where "same w w0"
      "run_state (record_job_failure L K (rc_narrator rc) job cfg) w0 = (i, w')"
proof -
  obtain p w1 where p: "run_state (k_get_job K req) w = (p, w1)" by force
  have s1: "same w w1" using state_io_relD[OF job_quiet p] .
  show thesis
  proof (cases p)
    case (Inl err)
    with assms p have "Inl (IgnoreNotFound err) = i" "w1 = w'" by (simp_all add: investigate_job_def)
    with ended s1 show thesis by blast
  next
    case (Inr job)
    let ?ns = "om_namespace (job_meta job)"
    obtain c w2 where c: "run_state (resolveConfig K ?ns (rc_operator_namespace rc)) w1 = (c, w2)" by force
    obtain b w3 where b: "run_state (namespaceWatched L K c ?ns) w2 = (b, w3)" by force
    have s2: "same w w2" using s1 state_io_relD[OF collect_quiet(3) c] by simp
    have s3: "same w w3" using s2 state_io_relD[OF collect_quiet(4) b] by simp
    show thesis
    proof (cases "wp_job_failures (cfg_watch c) = Some True \<and> b \<and> jobFailed (job_conditions job)")
      case True
      with assms p Inr c b s3 recording[of w3 job c] show thesis by (simp add: investigate_job_def)
    next
      case False
      with assms p Inr c b s2 s3 ended show thesis
        by (auto simp: investigate_job_def split: if_splits)
    qed
  qed
qed

text \<open>Both investigations keep the obituaries well kept, and hand over a recorded issue.\<close>

lemma investigate_pod_kept:
  assumes "run_state (investigate_pod L K rc req) w = (i, w')" "all_kept m (status_at versions w)" "0 \<le> m"
  shows "all_kept m (status_at versions w') \<and>
    (\<forall>subject k c. i = Inr (subject, k, c) \<longrightarrow> status_at versions w' (obituary_object_key L subject k) \<noteq> None)"
  using assms(1)
proof (cases rule: investigate_pod_cases)
  case (ended x)
  with same_status[OF ended(2)] assms(2) show ?thesis by simp
next
  case (recording pod cfg death w0)
  note s0 = same_status[OF recording(1)]
  from recording(2) show ?thesis
  proof (cases rule: record_pod_death_cases)
    case (counted owners evs k st)
    with same_status[OF counted(2)] s0 assms(2) show ?thesis by simp
  next
    case (recorded owners evs k st)
    then show ?thesis
      using s0 assms(2) filed_kept[OF recorded(4,5) assms(3)] by (auto intro: all_kept_upd)
  qed
qed

lemma investigate_job_kept:
  assumes "run_state (investigate_job L K rc req) w = (i, w')" "all_kept m (status_at versions w)" "0 \<le> m"
  shows "all_kept m (status_at versions w') \<and>
    (\<forall>subject k c. i = Inr (subject, k, c) \<longrightarrow> status_at versions w' (obituary_object_key L subject k) \<noteq> None)"
  using assms(1)
proof (cases rule: investigate_job_cases)
  case (ended x)
  with same_status[OF ended(2)] assms(2) show ?thesis by simp
next
  case (recording job cfg w0)
  note s0 = same_status[OF recording(1)]
  from recording(2) show ?thesis
  proof (cases rule: record_job_failure_cases)
    case (counted owners evs k st)
    with same_status[OF counted(2)] s0 assms(2) show ?thesis by simp
  next
    case (recorded owners evs k st)
    then show ?thesis
      using s0 assms(2) filed_kept[OF recorded(4,5) assms(3)] by (auto intro: all_kept_upd)
  qed
qed

lemma MaybeHeal_kept:
  assumes "sound_factory e" "0 < eng_max_attempts e"
    and "status_at versions w (obit_key x) = Some st" "all_kept (eng_max_attempts e) (status_at versions w)"
    and "run_state (MaybeHeal L K e x c) (w, r) = (u, (w', r'))"
  shows "all_kept (eng_max_attempts e) (status_at versions w')"
proof -
  have "well_kept (eng_max_attempts e) st" using assms(3,4) unfolding all_kept_def by blast
  then have "well_kept (eng_max_attempts e) (with_record (eng_max_attempts e) rec st)" for rec
    using assms(2) by (rule with_record_kept[rotated])
  then have "all_kept (eng_max_attempts e)
      ((status_at versions w)(obit_key x := Some (with_record (eng_max_attempts e) rec st)))" for rec
    using assms(4) by (rule all_kept_upd[rotated])
  moreover have "run_state (MaybeHeal L K e x c) (w, r) = ((), (w', r'))" using assms(5) by simp
  note heal_appends[OF assms(1,3) this]
  ultimately show ?thesis using assms(4) by auto
qed

lemma tryHeal_kept:
  assumes "sound_factory e" "0 < eng_max_attempts e" "rc_self_heal rc \<in> {None, Some e}"
    and "status_at versions w (obituary_object_key L subject k) \<noteq> None"
    and "all_kept (eng_max_attempts e) (status_at versions w)"
    and "run_state (tryHeal L K rc subject k) (w, r) = (u, (w', r'))"
  shows "all_kept (eng_max_attempts e) (status_at versions w')"
proof (cases "rc_self_heal rc")
  case None
  with assms(5,6) show ?thesis by (simp add: tryHeal_def)
next
  case (Some e')
  with assms(3) have e: "rc_self_heal rc = Some e" by simp
  let ?key = "obituary_object_key L subject k"
  obtain x where x: "latest (versions w ?key) = Some x" using assms(4) by (auto simp: status_at_def)
  obtain w1 where g: "run_state (k_get_obit K ?key) w = (Inr x, w1)" "versions w1 = versions w"
    "obit_key x = ?key" using get_found[OF x] .
  obtain c w2 where c: "run_state (resolveConfig K (sub_namespace subject) (rc_operator_namespace rc)) w1 = (c, w2)"
    by force
  have s: "status_at versions w2 = status_at versions w"
    using state_io_relD[OF collect_quiet(3) c] g(2) by (simp add: status_at_def fun_eq_iff)
  have run: "run_state (MaybeHeal L K e x c) (w2, r) = (u, (w', r'))"
    using assms(6) e g(1) c by (simp add: tryHeal_def)
  obtain st where "status_at versions w2 (obit_key x) = Some st" using s g(3) assms(4) by auto
  from MaybeHeal_kept[OF assms(1,2) this _ run] s assms(5) show ?thesis by simp
qed

lemma heal_job_kept:
  assumes "sound_factory e" "0 < eng_max_attempts e" "rc_self_heal rc \<in> {None, Some e}"
    and "status_at versions w (obituary_object_key L subject k) \<noteq> None"
    and "all_kept (eng_max_attempts e) (status_at versions w)"
    and "run_state (heal_job L K rc subject k c) (w, r) = (u, (w', r'))"
  shows "all_kept (eng_max_attempts e) (status_at versions w')"
proof (cases "rc_self_heal rc")
  case None
  with assms(5,6) show ?thesis by (simp add: heal_job_def)
next
  case (Some e')
  with assms(3) have e: "rc_self_heal rc = Some e" by simp
  let ?key = "obituary_object_key L subject k"
  obtain x where x: "latest (versions w ?key) = Some x" using assms(4) by (auto simp: status_at_def)
  obtain w1 where g: "run_state (k_get_obit K ?key) w = (Inr x, w1)" "versions w1 = versions w"
    "obit_key x = ?key" using get_found[OF x] .
  have s: "status_at versions w1 = status_at versions w" using g(2) by (simp add: status_at_def fun_eq_iff)
  have run: "run_state (MaybeHeal L K e x c) (w1, r) = (u, (w', r'))"
    using assms(6) e g(1) by (simp add: heal_job_def)
  obtain st where "status_at versions w1 (obit_key x) = Some st" using s g(3) assms(4) by auto
  from MaybeHeal_kept[OF assms(1,2) this _ run] s assms(5) show ?thesis by simp
qed

lemma PodReconcile_kept:
  assumes "sound_factory e" "0 < eng_max_attempts e" "rc_self_heal rc \<in> {None, Some e}"
    and "all_kept (eng_max_attempts e) (status_at versions w)"
    and "run_state (PodReconcile L K rc req) (w, r) = (err, (w', r'))"
  shows "all_kept (eng_max_attempts e) (status_at versions w')"
proof -
  obtain i w1 where i: "run_state (investigate_pod L K rc req) w = (i, w1)" by force
  have "0 \<le> eng_max_attempts e" using assms(2) by simp
  note kept = investigate_pod_kept[OF i assms(4) this]
  show ?thesis
  proof (cases i)
    case (Inl x)
    with assms(5) i have "w' = w1" by (simp add: PodReconcile_def)
    with kept show ?thesis by blast
  next
    case (Inr b)
    obtain subject k c where b: "b = (subject, k, c)" by (cases b)
    obtain u s2 where t: "run_state (tryHeal L K rc subject k) (w1, r) = (u, s2)" by (metis prod.collapse)
    have "run_state (PodReconcile L K rc req) (w, r) = (None, s2)"
      using i t unfolding Inr b by (simp add: PodReconcile_def)
    with assms(5) have s2: "s2 = (w', r')" by simp
    have "all_kept (eng_max_attempts e) (status_at versions w1)"
      "status_at versions w1 (obituary_object_key L subject k) \<noteq> None"
      using conjunct1[OF kept] conjunct2[OF kept, rule_format, of subject k c] Inr b by simp_all
    from tryHeal_kept[OF assms(1-3) this(2,1) t[unfolded s2]] show ?thesis .
  qed
qed

lemma JobReconcile_kept:
  assumes "sound_factory e" "0 < eng_max_attempts e" "rc_self_heal rc \<in> {None, Some e}"
    and "all_kept (eng_max_attempts e) (status_at versions w)"
    and "run_state (JobReconcile L K rc req) (w, r) = (err, (w', r'))"
  shows "all_kept (eng_max_attempts e) (status_at versions w')"
proof -
  obtain i w1 where i: "run_state (investigate_job L K rc req) w = (i, w1)" by force
  have "0 \<le> eng_max_attempts e" using assms(2) by simp
  note kept = investigate_job_kept[OF i assms(4) this]
  show ?thesis
  proof (cases i)
    case (Inl x)
    with assms(5) i have "w' = w1" by (simp add: JobReconcile_def)
    with kept show ?thesis by blast
  next
    case (Inr b)
    obtain subject k c where b: "b = (subject, k, c)" by (cases b)
    obtain u s2 where t: "run_state (heal_job L K rc subject k c) (w1, r) = (u, s2)" by (metis prod.collapse)
    have "run_state (JobReconcile L K rc req) (w, r) = (None, s2)"
      using i t unfolding Inr b by (simp add: JobReconcile_def)
    with assms(5) have s2: "s2 = (w', r')" by simp
    have "all_kept (eng_max_attempts e) (status_at versions w1)"
      "status_at versions w1 (obituary_object_key L subject k) \<noteq> None"
      using conjunct1[OF kept] conjunct2[OF kept, rule_format, of subject k c] Inr b by simp_all
    from heal_job_kept[OF assms(1-3) this(2,1) t[unfolded s2]] show ?thesis .
  qed
qed

lemma operator_step_kept:
  assumes "operator_step L K same rc s s'"
    and "sound_factory e" "0 < eng_max_attempts e" "rc_self_heal rc \<in> {None, Some e}"
    and "all_kept (eng_max_attempts e) (status_at versions (fst s))"
  shows "all_kept (eng_max_attempts e) (status_at versions (fst s'))"
  using assms(1)
proof (cases rule: operator_step.cases)
  case (pod_event req err)
  with PodReconcile_kept[OF assms(2-5), of L req "snd s" err "fst s'" "snd s'"] show ?thesis by simp
next
  case (job_event req err)
  with JobReconcile_kept[OF assms(2-5), of L req "snd s" err "fst s'" "snd s'"] show ?thesis by simp
next
  case (elsewhere w' w r)
  with assms(5) same_status[of w w'] show ?thesis by simp
next
  case (restart w r)
  with assms(5) show ?thesis by simp
qed

lemma reach_kept:
  assumes "operator_reach L K same rc w0 s"
    and "sound_factory e" "0 < eng_max_attempts e" "rc_self_heal rc \<in> {None, Some e}"
    and "all_kept (eng_max_attempts e) (status_at versions w0)"
  shows "all_kept (eng_max_attempts e) (status_at versions (fst s))"
  using assms(1)
proof (induction rule: operator_reach.induct)
  case start
  show ?case using assms(5) by simp
next
  case (step s s')
  from operator_step_kept[OF step.hyps(2) assms(2-4) step.IH] show ?case .
qed

end

end
