(* ===== verification/Faults.thy ===== *)
theory Faults
  imports Lifecycle
begin

section \<open>Faults, crashes and other writers\<close>

text \<open>
  What the whole operator keeps when any call can fail with or without effect, reads can be
  stale, other writers share the obituaries, and the process can stop at any call: a stop is a
  run whose remaining calls fail without effect, after which a step of the environment makes the
  cluster answer again and the limiter starts empty. \<open>orderly\<close> is the invariant of every stored
  version, the incomplete ones included that a fault between the creation of an obituary and its
  first status write leaves behind. \<open>shared_koroner\<close> is what the other writers and the API
  server have to keep; the operator's own writes are shown to keep it too.
\<close>

text \<open>
  A version is either a finished record, with verdict, first and last sighting, or has not been
  written yet; then it names no episode, so that the next report is not taken for a redelivery.
  In both cases its audit trail is within the bound.
\<close>
definition orderly :: "int \<Rightarrow> obituary_status \<Rightarrow> bool" where
  "orderly m st \<longleftrightarrow> int (length (st_heal_attempts st)) \<le> m \<and>
     (st_phase st = PhaseComplete \<and> st_confidence st \<noteq> ConfidenceUnset \<and>
        st_first_seen st \<noteq> None \<and> st_last_seen st \<noteq> None \<or>
      st_phase st = PhaseUnset \<and> st_confidence st = ConfidenceUnset \<and>
        st_first_seen st = None \<and> st_last_episode st = '''')"

definition in_order :: "int \<Rightarrow> ('w \<Rightarrow> object_key \<Rightarrow> history) \<Rightarrow> 'w \<Rightarrow> bool" where
  "in_order m versions w \<longleftrightarrow> (\<forall>k x. Some x \<in> set (versions w k) \<longrightarrow> orderly m (obit_status x))"

definition keeps_order :: "int \<Rightarrow> ('w \<Rightarrow> object_key \<Rightarrow> history) \<Rightarrow> 'w \<Rightarrow> 'w \<Rightarrow> bool" where
  "keeps_order m versions w w' \<longleftrightarrow> (in_order m versions w \<longrightarrow> in_order m versions w')"

lemma keeps_order_frame [simp]: "world_frame (keeps_order m versions)"
  by (auto simp: world_frame_def keeps_order_def reflp_def transp_def)

lemma with_record_orderly:
  assumes "0 < m" "orderly m st"
  shows "orderly m (with_record m rec st)"
  using assms length_trim_attempts[OF assms(1), of "st_heal_attempts st @ [rec]"]
  by (simp add: orderly_def with_record_def)

lemma diagnose_settles: "v_confidence (diagnose ul e) \<noteq> ConfidenceUnset"
  by (simp add: diagnose_def split: option.split)

lemma recorded_orderly:
  assumes "fresh_status v (rd_status d)" "v_confidence v \<noteq> ConfidenceUnset" "0 \<le> m"
  shows "orderly m (first_status d)" "orderly m (bumped_status d s)"
  using assms by (simp_all add: orderly_def fresh_status_def first_status_def bumped_status_def
      split: option.split)

text \<open>What an interrupted creation left is completed as if it were created anew.\<close>
lemma bump_completes_creation: "bumped_status d zero_status = first_status d"
  by (simp add: bumped_status_def first_status_def zero_status_def)

lemma interrupted_creation_is_completed:
  assumes "quiet_server K versions" "status_at versions w (death_key L d) = Some zero_status"
    and "rd_episode d \<noteq> ''''"
  shows "fst (run_state (upsertObituary L K d) w) = (False, True, None) \<and>
    status_at versions (snd (run_state (upsertObituary L K d) w)) =
      (status_at versions w)(death_key L d := Some (first_status d))"
proof -
  have "st_last_episode zero_status \<noteq> rd_episode d" using assms(3) by (simp add: zero_status_def)
  then have result: "upsert_result (Some zero_status) d = (False, True, None)"
    "upsert_status (Some zero_status) d = first_status d"
    by (simp_all add: upsert_result_def upsert_status_def count_step_def bump_completes_creation)
  obtain w' where "run_state (upsertObituary L K d) w =
      (upsert_result (status_at versions w (death_key L d)) d, w')"
    "status_at versions w' = (status_at versions w)
      (death_key L d := Some (upsert_status (status_at versions w (death_key L d)) d))"
    by (rule quiet_server.upsert_refines[OF assms(1)])
  then show ?thesis by (simp only: assms(2) result fst_conv snd_conv simp_thms)
qed

subsection \<open>The contract\<close>

locale shared_koroner =
  obit_server K versions +
  act_frame K e "keeps_order (eng_max_attempts e) versions" +
  collect_frame K "keeps_order (eng_max_attempts e) versions"
  for K :: "('w, 'q, 'z) kube_client_scheme" and versions :: "'w \<Rightarrow> object_key \<Rightarrow> history"
    and e :: "'w engine" +
  assumes get_kept: "state_io_rel (keeps_order (eng_max_attempts e) versions) (k_get_obit K key)"
    and create_kept: "state_io_rel (keeps_order (eng_max_attempts e) versions) (k_create_obit K x)"
    and update_kept: "orderly (eng_max_attempts e) (obit_status x) \<Longrightarrow>
      state_io_rel (keeps_order (eng_max_attempts e) versions) (k_update_obit_status K x)"
begin

abbreviation kept :: "'w \<Rightarrow> 'w \<Rightarrow> bool" where
  "kept \<equiv> keeps_order (eng_max_attempts e) versions"

lemma upsert_kept:
  assumes "orderly (eng_max_attempts e) (first_status d)"
    and "\<And>s. orderly (eng_max_attempts e) (bumped_status d s)"
  shows "state_io_rel kept (upsertObituary L K d)"
proof -
  have "state_io_rel kept (bump_attempt K key d)" for key
    unfolding bump_attempt_def
    by (intro frame_intros keeps_order_frame get_kept update_kept) (simp add: assms(2))
  then show ?thesis
    unfolding upsertObituary_def
    by (intro frame_intros keeps_order_frame get_kept create_kept update_kept retries) (simp_all add: assms(1))
qed

lemma append_kept:
  assumes "0 < eng_max_attempts e"
  shows "state_io_rel kept (append_attempt K (eng_max_attempts e) obit rec)"
proof (rule state_io_relI)
  fix err w w'
  assume run: "run_state (append_attempt K (eng_max_attempts e) obit rec) w = (err, w')"
  obtain r w1 where g: "run_state (k_get_obit K (obit_key obit)) w = (r, w1)" by force
  have k1: "kept w w1" using get_kept g by (rule state_io_relD)
  show "kept w w'"
    unfolding keeps_order_def
  proof
    assume "in_order (eng_max_attempts e) versions w"
    with k1 have o1: "in_order (eng_max_attempts e) versions w1" by (simp add: keeps_order_def)
    show "in_order (eng_max_attempts e) versions w'"
    proof (cases r)
      case (Inl x)
      with run g o1 show ?thesis by (simp add: append_attempt_def)
    next
      case (Inr fresh)
      have "Some fresh \<in> set (versions w1 (obit_key obit))" using g unfolding Inr by (rule get_seen)
      with o1 have "orderly (eng_max_attempts e) (obit_status fresh)" unfolding in_order_def by blast
      then have "orderly (eng_max_attempts e) (with_record (eng_max_attempts e) rec (obit_status fresh))"
        by (rule with_record_orderly[OF assms])
      then have "state_io_rel kept (k_update_obit_status K
          (fresh\<lparr>obit_status := with_record (eng_max_attempts e) rec (obit_status fresh)\<rparr>))"
        by (intro update_kept) simp
      moreover have "run_state (k_update_obit_status K
          (fresh\<lparr>obit_status := with_record (eng_max_attempts e) rec (obit_status fresh)\<rparr>)) w1 = (err, w')"
        using run g Inr by (simp add: append_attempt_def)
      ultimately have "kept w1 w'" by (rule state_io_relD)
      with o1 show ?thesis by (simp add: keeps_order_def)
    qed
  qed
qed

lemma MaybeHeal_kept:
  assumes "0 < eng_max_attempts e"
  shows "state_io_rel (world_part kept) (MaybeHeal L K e x c)"
  by (rule MaybeHeal_frame_append[OF heal_attempt_frame retries append_kept[OF assms]])

subsection \<open>The handlers\<close>

lemma record_pod_death_kept:
  assumes "0 \<le> eng_max_attempts e"
  shows "state_io_rel kept (record_pod_death L K n pod death cfg)"
proof -
  have "state_io_rel kept (upsertObituary L K
      \<lparr>rd_subject = subj, rd_issue_key = k, rd_episode = ep, rd_last_pod = p, rd_now = now, rd_status = status\<rparr>)"
    if "run_state (buildStatus L K n pod death (diagnose ul ev) evs owners cfg) s = (status, s')"
    for subj k ep p now status s s' ul ev evs owners
    using recorded_orderly[OF _ diagnose_settles assms] buildStatus_fresh[OF that]
    by (intro upsert_kept) simp_all
  then show ?thesis
    unfolding record_pod_death_def Let_def
    by (intro frame_intros keeps_order_frame collect_keeps get_kept episode_gate_frame clock_kept
        frame_bind_result[OF keeps_order_frame buildStatus_keeps]) simp
qed

lemma record_job_failure_kept:
  assumes "0 \<le> eng_max_attempts e"
  shows "state_io_rel kept (record_job_failure L K n job cfg)"
proof -
  have "state_io_rel kept (upsertObituary L K
      \<lparr>rd_subject = subj, rd_issue_key = k, rd_episode = ep, rd_last_pod = p, rd_now = now, rd_status = status\<rparr>)"
    if "run_state (runNarrator L K nar (diagnose ul ev) (job_status job (diagnose ul ev) evs owners)) s = (status, s')"
    for subj k ep p now status s s' ul ev evs owners nar
    using recorded_orderly[OF _ diagnose_settles assms] runNarrator_fresh[OF job_status_fresh that]
    by (intro upsert_kept) simp_all
  then show ?thesis
    unfolding record_job_failure_def Let_def
    by (intro frame_intros keeps_order_frame collect_keeps(1,2,5) get_kept episode_gate_frame clock_kept
        frame_bind_result[OF keeps_order_frame collect_keeps(6)]) simp
qed

lemma reconcile_kept:
  assumes "0 < eng_max_attempts e" "rc_self_heal rc \<in> {None, Some e}"
  shows "state_io_rel (world_part kept) (PodReconcile L K rc req)"
    "state_io_rel (world_part kept) (JobReconcile L K rc req)"
proof -
  have m: "0 \<le> eng_max_attempts e" using assms(1) by simp
  note world = world_frame_world_part[OF keeps_order_frame]
  have "state_io_rel kept (investigate_pod L K rc req)"
    unfolding investigate_pod_def
    by (intro frame_intros keeps_order_frame pod_kept collect_keeps record_pod_death_kept[OF m])
  moreover have "state_io_rel (world_part kept) (tryHeal L K rc subject k)" for subject k
  proof (cases "rc_self_heal rc")
    case None
    then show ?thesis using frame_return[OF world] by (simp add: tryHeal_def)
  next
    case (Some e')
    with assms(2) have "rc_self_heal rc = Some e" by simp
    then show ?thesis
      unfolding tryHeal_def
      by simp (intro frame_intros world get_kept collect_keeps MaybeHeal_kept[OF assms(1)])
  qed
  ultimately show "state_io_rel (world_part kept) (PodReconcile L K rc req)"
    unfolding PodReconcile_def by (intro frame_intros world)
  have "state_io_rel kept (investigate_job L K rc req)"
    unfolding investigate_job_def
    by (intro frame_intros keeps_order_frame job_kept collect_keeps record_job_failure_kept[OF m])
  moreover have "state_io_rel (world_part kept) (heal_job L K rc subject k c)" for subject k c
  proof (cases "rc_self_heal rc")
    case None
    then show ?thesis using frame_return[OF world] by (simp add: heal_job_def)
  next
    case (Some e')
    with assms(2) have "rc_self_heal rc = Some e" by simp
    then show ?thesis
      unfolding heal_job_def
      by simp (intro frame_intros world get_kept MaybeHeal_kept[OF assms(1)])
  qed
  ultimately show "state_io_rel (world_part kept) (JobReconcile L K rc req)"
    unfolding JobReconcile_def by (intro frame_intros world)
qed

text \<open>Every step of the operator, and every step of an environment that keeps the order, keeps it.\<close>
lemma reach_in_order:
  assumes "operator_reach L K kept rc w0 s" "in_order (eng_max_attempts e) versions w0"
    and "0 < eng_max_attempts e" "rc_self_heal rc \<in> {None, Some e}"
  shows "in_order (eng_max_attempts e) versions (fst s)"
  using assms(1)
proof (induction rule: operator_reach.induct)
  case start
  show ?case using assms(2) by simp
next
  case (step s s')
  from step.hyps(2) have "world_part kept s s'"
  proof (cases rule: operator_step.cases)
    case (pod_event req err)
    show ?thesis using reconcile_kept(1)[OF assms(3,4)] pod_event by (rule state_io_relD)
  next
    case (job_event req err)
    show ?thesis using reconcile_kept(2)[OF assms(3,4)] job_event by (rule state_io_relD)
  qed (simp_all add: world_part_def)
  with step.IH show ?case by (simp add: world_part_def keeps_order_def)
qed

end

subsection \<open>A cluster whose writes fail\<close>

text \<open>
  The executable cluster with failing writes of obituaries: \<open>fault\<close> says, of the state a write
  arrives at, whether it is answered, is lost, or lands while its answer is lost.
\<close>
definition faulty ::
  "(mem \<Rightarrow> bool option) \<Rightarrow> (go_error \<Rightarrow> 'a) \<Rightarrow> (mem, 'a) state \<Rightarrow> (mem, 'a) state" where
  "faulty fault err m = State (\<lambda>w. case fault w of
     None \<Rightarrow> run_state m w
   | Some lands \<Rightarrow> (err (errorf ''timeout''), if lands then snd (run_state m w) else w))"

definition faulty_client :: "(mem \<Rightarrow> bool option) \<Rightarrow> (mem, int) kube_client" where
  "faulty_client fault = mem_client\<lparr>
     k_create_obit := \<lambda>x. faulty fault Inl (mem_create_obit x),
     k_update_obit_status := \<lambda>x. faulty fault Some (mem_update_obit_status x)\<rparr>"

lemma faulty_reads [simp]:
  "k_get_obit (faulty_client fault) = mem_get_obit"
  "k_create_obit (faulty_client fault) x = faulty fault Inl (mem_create_obit x)"
  "k_update_obit_status (faulty_client fault) x = faulty fault Some (mem_update_obit_status x)"
  by (simp_all add: faulty_client_def)

text \<open>All calls but the two writes are those of the cluster without faults.\<close>
lemma faulty_elsewhere:
  "executor_frame (faulty_client fault) R = executor_frame mem_client R"
  "decide_frame (faulty_client fault) e R = decide_frame mem_client e R"
  "collect_frame (faulty_client fault) R = collect_frame mem_client R"
  by (simp_all add: executor_frame_def decide_frame_def collect_frame_def faulty_client_def)

lemma run_faulty: "run_state (faulty fault err m) w = (case fault w of
     None \<Rightarrow> run_state m w
   | Some lands \<Rightarrow> (err (errorf ''timeout''), if lands then snd (run_state m w) else w))"
  by (simp add: faulty_def)

lemma keeps_order_of_same:
  "state_io_rel (\<lambda>w w'. versions w' = versions w) p \<Longrightarrow> state_io_rel (keeps_order m versions) p"
  by (auto simp: state_io_rel_def keeps_order_def in_order_def)

lemma faulty_frame:
  "world_frame R \<Longrightarrow> state_io_rel R p \<Longrightarrow> state_io_rel R (faulty fault err p)"
  by (auto simp: state_io_rel_def run_faulty world_frame_refl split: option.split)

lemma mem_create_in_order: "0 \<le> m \<Longrightarrow> state_io_rel (keeps_order m mem_versions) (mem_create_obit x)"
  by (auto simp: state_io_rel_def keeps_order_def in_order_def mem_create_obit_def Let_def
      log_versions_snoc stamp_def orderly_def zero_status_def split: option.split if_splits)

lemma mem_update_in_order:
  "orderly m (obit_status x) \<Longrightarrow> state_io_rel (keeps_order m mem_versions) (mem_update_obit_status x)"
  by (auto simp: state_io_rel_def keeps_order_def in_order_def mem_update_obit_status_def Let_def
      log_versions_snoc stamp_def split: option.split if_splits)

lemma faulty_server: "obit_server (faulty_client fault) mem_versions"
proof (rule obit_server.intro)
  let ?K = "faulty_client fault"
  show "\<exists>ext. mem_versions (snd (run_state (k_get_obit ?K key) w)) k = mem_versions w k @ ext"
    "\<exists>ext. mem_versions (snd (run_state (k_create_obit ?K x) w)) k = mem_versions w k @ ext"
    "\<exists>ext. mem_versions (snd (run_state (k_update_obit_status ?K x) w)) k = mem_versions w k @ ext"
    for key x w k
    using mem_ops_grow by (simp_all add: run_faulty split: option.split)
  show "born_as y (length (mem_versions w (obit_key x))) (mem_versions w' (obit_key x)) \<and> created_as x y"
    if "run_state (k_create_obit ?K x) w = (Inr y, w')" for x w y w'
    using that mem_create_law[of x w y w'] by (simp add: run_faulty split: option.splits)
  show "\<exists>u v cur new. mem_versions w' (obit_key x) = u @ Some cur # Some new # v \<and>
        length (mem_versions w (obit_key x)) \<le> Suc (length u) \<and>
        obit_rv cur = obit_rv x \<and> status_write_of cur (obit_status x) new"
    if "run_state (k_update_obit_status ?K x) w = (None, w')" for x w w'
    using that mem_update_law[of x w w'] by (simp add: run_faulty split: option.splits)
  show "Some x \<in> set (mem_versions w' key)" if "run_state (k_get_obit ?K key) w = (Inr x, w')" for key w x w'
    using that by (auto intro: mem_get_law)
  show "retry_contract (k_retry_on_conflict ?K)"
    using mem_retries_strings by (simp add: faulty_client_def)
qed (fact log_versions_key, fact log_versions_rv)

lemma mem_frames_order:
  "executor_frame mem_client (keeps_order m mem_versions)"
  "decide_frame mem_client NewEngine (keeps_order m mem_versions)"
  "collect_frame mem_client (keeps_order m mem_versions)"
proof -
  note order = keeps_order_frame keeps_order_of_same
  show "executor_frame mem_client (keeps_order m mem_versions)"
    using mem_exec.executor_frame_axioms unfolding executor_frame_def
    by (elim conjE, intro conjI allI order) (elim allE, assumption)+
  show "decide_frame mem_client NewEngine (keeps_order m mem_versions)"
  proof (rule decide_frame.intro)
    show "state_io_rel (keeps_order m mem_versions) (decide obit allowed)"
      if "run_state (eng_decider_for NewEngine ns p) w = (decide, w')" for ns p w decide w' obit allowed
      using keeps_order_frame that by (rule NewEngine_decider_frames(2))
  qed (rule order mem_heal.now_frame mem_heal.labels_frame mem_heal.factory_frame)+
  show "collect_frame mem_client (keeps_order m mem_versions)"
    using mem_koroner.collect_frame_axioms unfolding collect_frame_def
    by (elim conjE, intro conjI allI order) (elim allE, assumption)+
qed

interpretation faulty_koroner: shared_koroner "faulty_client fault" mem_versions NewEngine for fault
proof (rule shared_koroner.intro)
  let ?K = "faulty_client fault" and ?m = "eng_max_attempts (NewEngine :: mem engine)"
  let ?R = "keeps_order ?m mem_versions"
  show "obit_server ?K mem_versions" by (rule faulty_server)
  show "act_frame ?K NewEngine ?R"
    by (rule act_frame.intro) (simp_all only: faulty_elsewhere mem_frames_order)
  show "collect_frame ?K ?R" by (simp only: faulty_elsewhere mem_frames_order)
  have "0 \<le> ?m" by (simp add: NewEngine_def)
  moreover have "state_io_rel ?R (mem_get_obit key)" for key
    by (simp add: mem_get_obit_def mem_frames(2))
  ultimately show "shared_koroner_axioms ?K mem_versions NewEngine"
    by (intro shared_koroner_axioms.intro)
      (simp_all add: faulty_frame mem_create_in_order mem_update_in_order)
qed

end
