(* ===== verification/Json_Replies.thy ===== *)
theory Json_Replies
  imports LLM_Decider
begin

section \<open>What the decoders make of the documented replies\<close>

text \<open>
  The replies as the providers and Prometheus document them, written out with
  \<^const>\<open>json_text\<close>, go through the scanner and the struct decoders of the code. A brace-free
  string stays brace-free when it is escaped, so the object of a decision is its own first
  balanced block; a closing brace in the reason ends that block inside the string literal.
\<close>

subsection \<open>ASCII text is valid\<close>

lemma encode_ascii: "ascii c \<Longrightarrow> encode_rune (byte_of c) = [c]"
  by (simp add: encode_rune_def ascii_def byte_of_def)

lemma to_valid_ascii: "list_all ascii s \<Longrightarrow> to_valid s = s"
  by (simp add: to_valid_def runes_ascii) (induction s; simp add: encode_ascii)

lemma valid_names [simp]:
  "to_valid ''action'' = ''action''" "to_valid ''reason'' = ''reason''" "to_valid ''content'' = ''content''"
  "to_valid ''type'' = ''type''" "to_valid ''text'' = ''text''" "to_valid ''choices'' = ''choices''"
  "to_valid ''message'' = ''message''" "to_valid ''role'' = ''role''" "to_valid ''assistant'' = ''assistant''"
  "to_valid ''model'' = ''model''" "to_valid ''max_tokens'' = ''max_tokens''"
  "to_valid ''messages'' = ''messages''" "to_valid ''user'' = ''user''" "to_valid ''system'' = ''system''"
  "to_valid ''data'' = ''data''" "to_valid ''result'' = ''result''" "to_valid ''value'' = ''value''"
  "to_valid ''metric'' = ''metric''" "to_valid ''status'' = ''status''"
  "to_valid ''resultType'' = ''resultType''"
  by (simp_all add: to_valid_ascii ascii_def byte_of_def)

lemma names_differ [simp]:
  "\<not> same_name ''reason'' ''action''" "\<not> same_name ''text'' ''type''" "\<not> same_name ''role'' ''content''"
  "\<not> same_name ''content'' ''role''" "\<not> same_name ''status'' ''data''" "\<not> same_name ''metric'' ''value''"
  "\<not> same_name ''resultType'' ''result''"
  by code_simp+

lemma same_name_refl [simp]: "same_name k k"
  by (simp add: same_name_def)

lemma ascii_hex4: "list_all ascii (hex4 r)"
proof -
  have "ascii (hex_digit d)" if "d < 16" for d
    using that by (simp add: hex_digit_def ascii_def byte_of_def)
  then show ?thesis by (simp add: hex4_def)
qed

lemma ascii_escape_rune:
  assumes "r < 0x80"
  shows "list_all ascii (escape_rune r)"
proof -
  have "ascii (char_of r)" using assms by (simp add: ascii_def byte_of_def)
  moreover have "ascii c" if "short_escape r = Some c" for c
    using that by (auto simp: short_escape_def ascii_def byte_of_def split: if_splits)
  moreover have "ascii backslash" "ascii CHR ''u''" by (simp_all add: ascii_def byte_of_def)
  ultimately show ?thesis
    using assms ascii_hex4 by (auto simp: escape_rune_def encode_rune_def split: option.split)
qed

lemma ascii_json_string: "list_all ascii s \<Longrightarrow> list_all ascii (json_string s)"
proof -
  have "list_all ascii s \<Longrightarrow> list_all ascii (json_escape (map byte_of s))"
    using ascii_escape_rune by (induction s) (auto simp: ascii_def)
  moreover have "ascii quote_char" by (simp add: ascii_def byte_of_def)
  ultimately show "list_all ascii s \<Longrightarrow> list_all ascii (json_string s)" by (simp add: json_string_def)
qed

subsection \<open>Braces\<close>

definition braceless :: "string \<Rightarrow> bool" where
  "braceless s \<longleftrightarrow> CHR ''{'' \<notin> set s \<and> CHR ''}'' \<notin> set s"

lemma braceless_simps [simp]:
  "braceless []" "braceless (c # s) \<longleftrightarrow> c \<noteq> CHR ''{'' \<and> c \<noteq> CHR ''}'' \<and> braceless s"
  "braceless (s @ t) \<longleftrightarrow> braceless s \<and> braceless t"
  by (auto simp: braceless_def)

lemma braceless_hex4: "braceless (hex4 r)"
proof -
  have "hex_digit d \<noteq> c" if "d < 16" "\<not> is_hex_lower c" for c d
    using is_hex_lower_hex_digit that by blast
  moreover have "\<not> is_hex_lower CHR ''{''" "\<not> is_hex_lower CHR ''}''"
    by (simp_all add: is_hex_lower_def is_digit_def byte_of_def)
  ultimately show ?thesis by (simp add: hex4_def)
qed

lemma braceless_short: "short_escape r = Some c \<Longrightarrow> braceless [c]"
  by (auto simp: short_escape_def split: if_splits)

lemma byte_char: "x < 256 \<Longrightarrow> byte_of (char_of x) = x"
  by (simp add: byte_of_def)

lemma char_byte: "char_of (byte_of c) = c"
  by (simp add: byte_of_def)

lemma brace_bytes: "byte_of CHR ''{'' = 123" "byte_of CHR ''}'' = 125"
  and brace_chars: "char_of (123 :: nat) = CHR ''{''" "char_of (125 :: nat) = CHR ''}''"
  by code_simp+

lemma braceless_json_escape:
  assumes "\<forall>x \<in> set bs. x < 256 \<and> x \<noteq> 123 \<and> x \<noteq> 125"
  shows "braceless (json_escape bs)"
  using assms
proof (induction bs rule: json_escape.induct)
  case (2 b bs)
  obtain r w where d: "decode_rune (b # bs) = (r, w)" by force
  have "braceless (json_escape (drop (w - 1) bs))"
    using "2.prems" by (intro "2.IH"[OF d[symmetric]]) (auto dest: in_set_dropD)
  moreover have "braceless (encode_rune r)" if "\<not> (r = 0xFFFD \<and> w = 1)"
  proof -
    have "char_of x \<noteq> CHR ''{'' \<and> char_of x \<noteq> CHR ''}''" if "x \<in> set (take w (b # bs))" for x
    proof -
      have "x \<in> set (b # bs)" using that by (rule in_set_takeD)
      with "2.prems" have "x < 256" "x \<noteq> 123" "x \<noteq> 125" by blast+
      with byte_char[of x] brace_bytes show ?thesis by metis
    qed
    then show ?thesis unfolding encode_decode[OF d that] braceless_def set_map by (metis imageE)
  qed
  ultimately show ?case
    using d braceless_hex4[of r] braceless_short[of r]
    by (auto simp: escape_rune_def simp del: decode_rune.simps split: option.split)
qed simp

lemma braceless_json_string: "braceless s \<Longrightarrow> braceless (json_string s)"
proof -
  assume b: "braceless s"
  have "byte_of c < 256 \<and> byte_of c \<noteq> 123 \<and> byte_of c \<noteq> 125" if "c \<in> set s" for c
  proof -
    have "c \<noteq> CHR ''{''" "c \<noteq> CHR ''}''" using b that by (auto simp: braceless_def)
    with char_byte[of c] brace_chars byte_of_less[of c] show ?thesis by metis
  qed
  then show ?thesis by (auto simp: json_string_def intro!: braceless_json_escape)
qed

lemma brace_depth_braceless: "braceless s \<Longrightarrow> brace_depth s = 0"
  by (induction s) (simp_all add: brace_weight_def)

lemma brace_depth_append: "brace_depth (s @ t) = brace_depth s + brace_depth t"
  by (induction s) simp_all

lemma braceless_take: "braceless s \<Longrightarrow> braceless (take n s)"
  by (auto simp: braceless_def dest: in_set_takeD)

lemma first_balanced_braceless:
  assumes "braceless s"
  shows "first_balanced (''{'' @ s @ ''}'')"
proof -
  have "1 + brace_depth (s @ ''}'') = 0"
    by (simp add: brace_depth_append brace_depth_braceless assms brace_weight_def)
  moreover have "0 < 1 + brace_depth (take n (s @ ''}''))" if "n < length (s @ ''}'')" for n
    using that brace_depth_braceless[OF braceless_take[OF assms]] by simp
  ultimately show ?thesis by (auto simp: first_balanced_Cons)
qed

lemma extract_braceless:
  assumes "CHR ''{'' \<notin> set prose" "braceless s"
  shows "extractJSONObject (prose @ (''{'' @ s @ ''}'') @ rest) = ''{'' @ s @ ''}''"
  using assms(1) first_balanced_braceless[OF assms(2)] by (subst extract_iff) auto

subsection \<open>Decisions\<close>

text \<open>The object a provider is asked for, and the replies that carry a text\<close>
definition decision_json :: "string \<Rightarrow> string \<Rightarrow> json" where
  "decision_json action reason = JObj [(''action'', JStr action), (''reason'', JStr reason)]"

definition anthropic_body :: "string \<Rightarrow> json" where
  "anthropic_body t = JObj [(''content'', JArr [JObj [(''type'', JStr ''text''), (''text'', JStr t)]])]"

definition openai_body :: "string \<Rightarrow> json" where
  "openai_body t = JObj [(''choices'', JArr [JObj [(''message'',
     JObj [(''role'', JStr ''assistant''), (''content'', JStr t)])]])]"

lemma decision_text:
  "json_text (decision_json a r) =
     ''{'' @ (json_string ''action'' @ '':'' @ json_string a @ '','' @ json_string ''reason'' @ '':'' @
       json_string r) @ ''}''"
  by (simp add: decision_json_def)

lemma ascii_decision: "list_all ascii a \<Longrightarrow> list_all ascii r \<Longrightarrow> list_all ascii (json_text (decision_json a r))"
proof -
  have "list_all ascii ''action''" "list_all ascii ''reason''" by (simp_all add: ascii_def byte_of_def)
  then have "list_all ascii (json_string ''action'')" "list_all ascii (json_string ''reason'')"
    by (simp_all only: ascii_json_string)
  moreover have "list_all ascii ''{},:''" by (simp add: ascii_def byte_of_def)
  ultimately show "list_all ascii a \<Longrightarrow> list_all ascii r \<Longrightarrow> list_all ascii (json_text (decision_json a r))"
    unfolding decision_text by (simp add: ascii_json_string)
qed

lemma extract_decision:
  assumes "CHR ''{'' \<notin> set prose" "braceless a" "braceless r"
  shows "extractJSONObject (prose @ json_text (decision_json a r) @ rest) = json_text (decision_json a r)"
  unfolding decision_text using assms
  by (intro extract_braceless) (simp_all add: braceless_json_string)

lemma parse_decision: "unmarshal decisionEnvelope z (json_text (decision_json a r)) =
    Some (z\<lparr>de_action := to_valid a, de_reason := to_valid r\<rparr>)"
proof -
  have "json_parse (json_text (decision_json a r)) = Some (decision_json (to_valid a) (to_valid r))"
    by (subst json_roundtrip) (simp_all add: decision_json_def max_nesting_def)
  then show ?thesis
    by (simp add: unmarshal_def decisionEnvelope_def decision_json_def decision_envelope_field_def in_field_def)
qed

lemma parse_anthropic: "unmarshal anthropicResp zero_anthropic (json_text (anthropic_body t)) =
    Some (zero_anthropic\<lparr>ar_content := ([\<lparr>tb_type = ''text'', tb_text = to_valid t\<rparr>], [])\<rparr>)"
proof -
  have "json_parse (json_text (anthropic_body t)) = Some (anthropic_body (to_valid t))"
    by (subst json_roundtrip) (simp_all add: anthropic_body_def max_nesting_def)
  then show ?thesis
    by (simp add: unmarshal_def anthropicResp_def anthropic_body_def anthropic_reply_field_def in_field_def
        text_block_field_def zero_anthropic_def)
qed

lemma parse_openai: "unmarshal openAIResp zero_openai (json_text (openai_body t)) =
    Some (zero_openai\<lparr>oa_choices := ([\<lparr>cm_role = ''assistant'', cm_content = to_valid t\<rparr>], [])\<rparr>)"
proof -
  have "json_parse (json_text (openai_body t)) = Some (openai_body (to_valid t))"
    by (subst json_roundtrip) (simp_all add: openai_body_def max_nesting_def)
  then show ?thesis
    by (simp add: unmarshal_def openAIResp_def openai_body_def openai_reply_field_def in_field_def
        choice_field_def chat_message_field_def zero_openai_def)
qed

lemma strip_prefixes_other:
  assumes "\<And>p. p \<in> set ps \<Longrightarrow> p \<noteq> [] \<Longrightarrow> s \<noteq> [] \<Longrightarrow> hd p \<noteq> hd s"
  shows "strip_prefixes ps s = s"
proof -
  have "find_first (\<lambda>p. p \<noteq> [] \<and> has_prefix p s) ps = None"
    using assms by (auto simp: has_prefix_iff) blast
  then show ?thesis by (subst strip_prefixes.simps) (simp del: find_first_None)
qed

text \<open>Text that starts and ends with no byte of a space\<close>
lemma trim_space_other:
  assumes "hd s \<notin> set (map hd space_encodings)" "last s \<notin> set (map last space_encodings)"
  shows "trim_space s = s"
proof -
  have "strip_prefixes space_encodings s = s"
    using assms(1) by (intro strip_prefixes_other) (metis image_eqI list.set_map)
  moreover have "strip_prefixes (map rev space_encodings) (rev s) = rev s"
  proof (intro strip_prefixes_other)
    fix p assume "p \<in> set (map rev space_encodings)" "p \<noteq> []" "rev s \<noteq> []"
    then obtain q where q: "q \<in> set space_encodings" "p = rev q" "q \<noteq> []" by auto
    from q(1) have "last q \<in> set (map last space_encodings)" by simp
    with assms(2) have "last q \<noteq> last s" by metis
    then show "hd p \<noteq> hd (rev s)" using q(2,3) \<open>rev s \<noteq> []\<close> by (simp add: hd_rev)
  qed
  ultimately show ?thesis by (simp add: trim_space_def)
qed

lemma known_action:
  assumes "kindSupports kind a"
  shows "to_valid a = a" "trim_space a = a" "braceless a" "a \<noteq> ''''"
proof -
  let ?actions = "[SelfHealDeletePod, SelfHealRestartWorkload, SelfHealBumpMemory, SelfHealRollbackDeployment]"
  have menus: "(if p then {w, x, y, z} else if q then {w, x, y} else if r then {w} else {}) \<subseteq> set [w, x, y, z]"
    for p q r and w x y z :: string by simp
  have "a \<in> set ?actions"
    using assms menus unfolding kindSupports_def supportedActionsForKind_def by (rule subsetD[rotated])
  moreover have "list_all (\<lambda>a. list_all ascii a \<and> braceless a \<and> a \<noteq> '''' \<and>
      hd a \<notin> set (map hd space_encodings) \<and> last a \<notin> set (map last space_encodings)) ?actions"
    by (simp add: space_encodings_def char_of_def bit_Suc_0_iff ascii_def byte_of_def)
  ultimately have "list_all ascii a \<and> braceless a \<and> a \<noteq> '''' \<and>
      hd a \<notin> set (map hd space_encodings) \<and> last a \<notin> set (map last space_encodings)"
    unfolding list_all_iff by blast
  then show "to_valid a = a" "trim_space a = a" "braceless a" "a \<noteq> ''''"
    by (simp_all add: to_valid_ascii trim_space_other)
qed

lemma decision_obeyed:
  assumes "a \<in> set menu" "kindSupports kind a" "CHR ''{'' \<notin> set prose" "braceless r"
  shows "llm_verdict L menu (Inr (prose @ json_text (decision_json a r) @ rest)) =
    \<lparr>d_action = a, d_reason = ''llm: '' @ trim_space (to_valid r), d_decided_by = ''llm''\<rparr>"
proof -
  note a = known_action[OF assms(2)]
  have "extractJSONObject (prose @ json_text (decision_json a r) @ rest) = json_text (decision_json a r)"
    using assms(3,4) a(3) by (intro extract_decision)
  moreover have "json_text (decision_json a r) \<noteq> ''''" by (simp add: decision_text)
  ultimately have "parseDecisionJSON L (prose @ json_text (decision_json a r) @ rest) =
      Inr (a, trim_space (to_valid r))"
    by (simp add: parseDecisionJSON_def parse_decision a)
  with assms(1) a(4) show ?thesis by (simp add: llm_verdict_def)
qed

subsection \<open>A brace in the reason\<close>

lemma json_escape_ascii_append:
  "list_all ascii s \<Longrightarrow> json_escape (map byte_of s @ bs) = json_escape (map byte_of s) @ json_escape bs"
  by (induction s) (simp_all add: ascii_def)

lemma closing_brace_cuts:
  assumes "CHR ''{'' \<notin> set prose" "braceless a" "braceless u" "list_all ascii u"
  shows "parseDecisionJSON L (prose @ json_text (decision_json a (u @ ''}'' @ v)) @ rest) =
    Inl (lib_json_error L ''decisionEnvelope''
      (''{'' @ (json_string ''action'' @ '':'' @ json_string a @ '','' @ json_string ''reason'' @ '':'' @
        [quote_char] @ json_escape (map byte_of u)) @ ''}''))"
proof -
  let ?x = "json_string ''action'' @ '':'' @ json_string a @ '','' @ json_string ''reason'' @ '':'' @
    [quote_char] @ json_escape (map byte_of u)"
  have brace: "escape_rune 125 = ''}''" by code_simp
  have "json_string (u @ ''}'' @ v) =
      [quote_char] @ json_escape (map byte_of u) @ ''}'' @ json_escape (map byte_of v) @ [quote_char]"
    by (simp add: json_string_def json_escape_ascii_append[OF assms(4)] brace_bytes brace)
  then have cut: "prose @ json_text (decision_json a (u @ ''}'' @ v)) @ rest =
      prose @ (''{'' @ ?x @ ''}'') @ (json_escape (map byte_of v) @ [quote_char] @ ''}'' @ rest)"
    unfolding decision_text by simp
  have "braceless (json_escape (map byte_of u))"
    using braceless_json_string[OF assms(3)] by (simp add: json_string_def)
  then have "braceless ?x" using braceless_json_string[OF assms(2)] braceless_json_string[of "''action''"]
      braceless_json_string[of "''reason''"] by simp
  then have block: "extractJSONObject (prose @ json_text (decision_json a (u @ ''}'' @ v)) @ rest) =
      ''{'' @ ?x @ ''}''"
    unfolding cut using assms(1) by (intro extract_braceless)
  let ?frame = "[KeyFrame [(to_valid ''action'', JStr (to_valid a))] (to_valid ''reason'')]"
  have "scan_run (''{'' @ ?x @ ''}'') (BeginValue, []) = Some (InString False (CHR ''}'' # rev (json_escape (map byte_of u))), ?frame)"
  proof -
    have start: "scan_run (json_string s) (BeginStringOrEmpty, fs) = scan_run (json_string s) (BeginString, fs)"
      for s fs by (simp add: json_string_def is_json_space_def)
    have escape: "scan_run (json_escape (map byte_of u)) (InString False '''', fs) =
        Some (InString False (rev (json_escape (map byte_of u))), fs)" for fs
      using scan_json_escape[of "map byte_of u" False "''''" fs] by (simp add: byte_of_less)
    show ?thesis
      using brace_bytes
      by (simp add: is_json_space_def begin_value_def open_frame_def max_nesting_def start scan_run_append
          scan_json_string scan_json_string_value after_value_def end_value_def escape)
  qed
  then have "json_parse (''{'' @ ?x @ ''}'') = None"
    by (simp add: json_parse_def end_of_text_def)
  then show ?thesis using block by (simp add: parseDecisionJSON_def unmarshal_def)
qed

subsection \<open>The first value of a stream\<close>

lemma run_at_top: "scan_run s (EndTop v, fs) = Some st \<Longrightarrow> list_all is_json_space s"
  by (induction s) (auto simp: after_value_def split: if_splits)

lemma deliver_top: "deliver v fs = Some (EndTop u, fs') \<Longrightarrow> fs = [] \<and> u = v \<and> fs' = []"
  by (cases fs; cases "hd fs") auto

text \<open>A text that ends with a closing bracket and is one value is the first value of itself.\<close>
lemma json_first_run:
  assumes "scan_run s (m, fs) = Some (EndTop v, fs')" "s \<noteq> []" "last s \<in> {CHR ''}'', CHR '']''}"
    and "\<And>u. m \<noteq> EndTop u"
  shows "json_first s (m, fs) = Inl (Some v)"
  using assms
proof (induction s arbitrary: m fs)
  case (Cons c s)
  obtain m' gs where step: "scan_step c (m, fs) = Some (m', gs)"
    and rest: "scan_run s (m', gs) = Some (EndTop v, fs')"
    using Cons.prems(1) by (cases "scan_step c (m, fs)") auto
  have bracket: "\<not> is_json_space d" if "d \<in> {CHR ''}'', CHR '']''}" for d
    using that by (auto simp: is_json_space_def)
  have more: "json_first s (m', gs) = Inl (Some v)" if "\<And>u. m' \<noteq> EndTop u"
    using Cons.IH[OF rest] Cons.prems(3) rest that by (cases "s = []") auto
  have top: "s = [] \<and> u = v \<and> c \<in> {CHR ''}'', CHR '']''}" if "m' = EndTop u" for u
  proof -
    have "list_all is_json_space s" using run_at_top rest that by blast
    with Cons.prems(3) bracket have "s = []" by (metis last_ConsR last_in_set list_all_iff)
    with rest that Cons.prems(3) show ?thesis by simp
  qed
  show ?case
  proof (cases "\<exists>n raw. m = InNumber n raw \<and> fs = []")
    case True
    then obtain n raw where m: "m = InNumber n raw" "fs = []" by blast
    show ?thesis
    proof (cases "number_step n c")
      case None
      with step m have "m' = EndTop (JNum (rev raw))" "is_json_space c"
        by (auto simp: after_value_def split: if_splits)
      with top bracket show ?thesis by blast
    next
      case (Some n')
      with step m have "m' = InNumber n' (c # raw)" "gs = []" by auto
      with Some m more show ?thesis by simp
    qed
  next
    case False
    with step have "json_first (c # s) (m, fs) =
        (case m' of EndTop u \<Rightarrow> if c \<in> {CHR ''}'', CHR '']''} then Inl (Some u) else json_first s (m', gs)
         | _ \<Rightarrow> json_first s (m', gs))"
      using Cons.prems(4) by (cases m; cases fs) (simp_all del: scan_step.simps)
    with top more show ?thesis by (cases m') auto
  qed
qed simp

lemma scan_object_text:
  assumes "writable max_nesting (JObj ms)"
  shows "scan_run (json_text (JObj ms)) (BeginValue, []) = Some (EndTop (json_norm (JObj ms)), [])"
proof -
  have "\<forall>(k, v) \<in> set ms. scans (max_nesting - 1) v"
    using assms scan_json_text by fastforce
  from scan_json_object[OF this] assms show ?thesis by simp
qed

lemma json_first_object:
  assumes "writable max_nesting (JObj ms)"
  shows "json_first (json_text (JObj ms)) (BeginValue, []) = Inl (Some (json_norm (JObj ms)))"
  by (rule json_first_run[OF scan_object_text[OF assms]]) simp_all

subsection \<open>Prometheus\<close>

text \<open>The reply to an instant query that one series matches\<close>
definition vector_reply :: "json \<Rightarrow> string \<Rightarrow> string \<Rightarrow> (string \<times> json) list" where
  "vector_reply metric ts v =
     [(''status'', JStr ''success''),
      (''data'', JObj [(''resultType'', JStr ''vector''),
         (''result'', JArr [JObj [(''metric'', metric), (''value'', JArr [JNum ts, JStr v])]])])]"

lemma writable_mono: "writable n v \<Longrightarrow> n \<le> m \<Longrightarrow> writable m v"
proof (induction n v arbitrary: m rule: writable.induct)
  case (2 n xs)
  then show ?case by (simp add: diff_le_mono)
next
  case (3 n ms)
  then show ?case by (fastforce simp: diff_le_mono)
qed simp_all

lemma prom_decode_vector:
  assumes "writable 9000 metric" "number_text ts" "\<not> isl (lib_parse_float L ts)"
    and "rsp_body resp = json_text (JObj (vector_reply metric ts v))"
  shows "prom_decode L resp = Inr [(JNum ts, JStr (to_valid v))]"
proof -
  have "writable max_nesting (JObj (vector_reply metric ts v))"
    using assms(2) writable_mono[OF assms(1), of 9996] by (simp add: vector_reply_def max_nesting_def)
  from json_first_object[OF this] show ?thesis
    unfolding prom_decode_def assms(4)
    by (simp add: assms(3) prom_reply_def vector_reply_def skip_value_def del: json_text.simps json_first.simps)
qed

lemma CollectMetrics_vector:
  assumes "lib_request_error L (rq_url (prom_request url (expand_query ns pod q) t)) = None"
    and "fst (run_state (k_http_do K (prom_request url (expand_query ns pod q) t)) w) = Inr resp"
    and "rsp_status_code resp = 200" "rsp_body resp = json_text (JObj (vector_reply metric ts v))"
    and "writable 9000 metric" "number_text ts" "\<not> isl (lib_parse_float L ts)"
  shows "fst (run_state (CollectMetrics L K \<lparr>mt_url = url, mt_queries = [(label, q)]\<rparr> ns pod t) w) =
    Inr (Some \<lparr>ms_source = url, ms_samples = [label \<mapsto> to_valid v]\<rparr>)"
proof -
  have "fst (run_state (promInstant L K url (expand_query ns pod q) t) w) = Inr (Some (to_valid v))"
    using assms(1-3) prom_decode_vector[OF assms(5-7,4)]
    by (simp add: promInstant_def Let_def case_prod_unfold)
  then show ?thesis by (simp add: CollectMetrics_def case_prod_unfold)
qed

end
