(* ===== verification/Providers.thy ===== *)
theory Providers
  imports Sample Json_Replies
begin

section \<open>What is exchanged with the providers and Prometheus\<close>

text \<open>
  The properties of the texts on the wire. Requests are one JSON value whatever the evidence in
  the prompt contains; a decision in the documented form is carried out from the HTTP reply to
  the chosen action, and the value of a vector reply reaches the metrics snapshot. The texts are
  built with \<^const>\<open>json_text\<close>, the decoders are those of the model.
\<close>

text \<open>
  C14: where no rule decides, the provider's choice is taken: if the text of a successful reply
  holds, after prose without an opening brace, the JSON object of an action that the operator
  allows and the kind supports, with a reason free of braces, the LLM decider picks this action
  and gives the reason.
\<close>
theorem llm_reply_is_obeyed:
  assumes "a \<in> set allowed" "kindSupports (subject_kind obit) a"
    and "CHR ''{'' \<notin> set prose" "braceless r"
    and "to_valid (prose @ json_text (decision_json a r) @ rest) = prose @ json_text (decision_json a r) @ rest"
    and "ld_provider cfg = NarratorProviderAnthropic \<and>
           body = anthropic_body (prose @ json_text (decision_json a r) @ rest) \<or>
         ld_provider cfg = NarratorProviderOpenAI \<and>
           body = openai_body (prose @ json_text (decision_json a r) @ rest)"
    and "\<forall>u. lib_request_error L u = None"
    and "\<forall>rq. fst (run_state (k_http_do K rq) w) = Inr resp"
    and "rsp_status_code resp = 200" "rsp_body resp = json_text body"
  shows "fst (run_state (llm_decide L K cfg obit allowed) w) =
    \<lparr>d_action = a, d_reason = ''llm: '' @ trim_space (to_valid r), d_decided_by = ''llm''\<rparr>"
proof -
  let ?t = "prose @ json_text (decision_json a r) @ rest"
  let ?menu = "applicableActions (subject_kind obit) allowed"
  have a: "a \<in> set ?menu" using assms(1,2) by (simp add: set_applicableActions)
  have anthropic: "anthropic_decision L resp = Inr ?t" if "body = anthropic_body ?t"
    using assms(5,9,10) that parse_anthropic[of ?t]
    by (simp only: anthropic_decision_def) (simp add: zero_anthropic_def text_blocks_def del: json_text.simps)
  have openai: "openai_decision L resp = Inr ?t" if "body = openai_body ?t"
    using assms(5,9,10) that parse_openai[of ?t]
    by (simp only: openai_decision_def) (simp add: zero_openai_def del: json_text.simps)
  have "fst (run_state (callProvider L K cfg p) w) = Inr ?t" for p
    using assms(6,7,8) anthropic openai
    by (auto simp: callProvider_def callAnthropic_def callOpenAI_def http_post_def case_prod_unfold
        simp del: json_text.simps)
  moreover have "?menu \<noteq> []" using a by auto
  ultimately have "fst (run_state (llm_decide L K cfg obit allowed) w) = llm_verdict L ?menu (Inr ?t)"
    by (simp add: llm_decide_def Let_def case_prod_unfold del: json_text.simps)
  also have "\<dots> = \<lparr>d_action = a, d_reason = ''llm: '' @ trim_space (to_valid r), d_decided_by = ''llm''\<rparr>"
    by (rule decision_obeyed[OF a assms(2-4)])
  finally show ?thesis .
qed

definition sample_llm :: llm_decider_config where
  "sample_llm = \<lparr>ld_provider = NarratorProviderOpenAI, ld_model = ''m'', ld_api_key = ''k'',
     ld_base_url = defaultOpenAIBaseURL\<rparr>"

text \<open>A world in which every HTTP call gets this reply\<close>
definition replying_mem :: "string \<Rightarrow> mem" where
  "replying_mem text = sample_mem\<lparr>m_http := (\<lambda>_. Inr \<lparr>rsp_status_code = 200, rsp_status = ''200 OK'',
     rsp_body = text, rsp_read_error = None\<rparr>)\<rparr>"

lemma http_replying [simp]:
  "fst (run_state (k_http_do mem_client rq) (replying_mem text)) =
     Inr \<lparr>rsp_status_code = 200, rsp_status = ''200 OK'', rsp_body = text, rsp_read_error = None\<rparr>"
  by (simp add: replying_mem_def mem_client_def)

lemma sample_request_error [simp]: "lib_request_error sample_lib u = None"
  by (simp add: sample_lib_def)

corollary llm_reply_is_obeyed_witness:
  "fst (run_state (llm_decide sample_lib mem_client sample_llm sample_obituary DefaultSelfHealActions)
      (replying_mem (json_text (openai_body (''Sure: '' @ json_text (decision_json ''DeletePod'' ''stuck'') @ '' OK''))))) =
    \<lparr>d_action = ''DeletePod'', d_reason = ''llm: '' @ trim_space (to_valid ''stuck''), d_decided_by = ''llm''\<rparr>"
proof (rule llm_reply_is_obeyed[OF _ _ _ _ _ _ _ allI[OF http_replying]])
  show "rsp_body \<lparr>rsp_status_code = 200, rsp_status = ''200 OK'', rsp_body = s, rsp_read_error = None\<rparr> = s"
    for s by simp
  have "list_all ascii (json_text (decision_json ''DeletePod'' ''stuck''))"
    by (intro ascii_decision) (simp_all add: ascii_def byte_of_def)
  then show "to_valid (''Sure: '' @ json_text (decision_json ''DeletePod'' ''stuck'') @ '' OK'') =
      ''Sure: '' @ json_text (decision_json ''DeletePod'' ''stuck'') @ '' OK''"
    by (intro to_valid_ascii) (simp add: ascii_def byte_of_def)
qed (simp_all add: sample_llm_def sample_obituary_def new_obituary_def sample_death_def sample_subject_def
    subject_kind_def kindSupports_def supportedActionsForKind_def DefaultSelfHealActions_def
    del: json_text.simps)

text \<open>
  C16: after prose without an opening brace, a decision whose action is free of braces and whose
  reason holds a closing brace after plain ASCII text without braces is lost: the extraction cuts
  the object short inside the string, so the reply is skipped as a parse error although it is
  valid JSON. What follows that brace, in the reason and after the object, does not matter. A
  brace that closes one opened in the reason itself is not covered and does no harm.
\<close>
theorem closing_brace_loses_decision:
  assumes "CHR ''{'' \<notin> set prose" "braceless a" "braceless u" "list_all ascii u"
  shows "json_parse (json_text (decision_json a (u @ ''}'' @ v))) =
      Some (decision_json (to_valid a) (to_valid (u @ ''}'' @ v))) \<and>
    (\<exists>cut. llm_verdict L menu (Inr (prose @ json_text (decision_json a (u @ ''}'' @ v)) @ rest)) =
      Skip (''llm parse: '' @ emsg (lib_json_error L ''decisionEnvelope'' cut)) ''llm'')"
proof
  show "json_parse (json_text (decision_json a (u @ ''}'' @ v))) =
      Some (decision_json (to_valid a) (to_valid (u @ ''}'' @ v)))"
    by (subst json_roundtrip) (simp_all add: decision_json_def max_nesting_def)
  show "\<exists>cut. llm_verdict L menu (Inr (prose @ json_text (decision_json a (u @ ''}'' @ v)) @ rest)) =
      Skip (''llm parse: '' @ emsg (lib_json_error L ''decisionEnvelope'' cut)) ''llm''"
    unfolding llm_verdict_def sum.case closing_brace_cuts[OF assms] by (rule exI, rule refl)
qed

corollary closing_brace_loses_decision_witness:
  "json_parse (json_text (decision_json ''DeletePod'' (''stuck :}'' @ ''''))) \<noteq> None \<and>
   d_action (llm_verdict sample_lib [''DeletePod'']
     (Inr (json_text (decision_json ''DeletePod'' (''stuck :}'' @ ''''))))) = ''''"
proof -
  have "list_all ascii ''stuck :''" by (simp add: ascii_def byte_of_def)
  from closing_brace_loses_decision[OF _ _ _ this, of "[]" "''DeletePod''" "[]" sample_lib "[''DeletePod'']" "[]"]
  show ?thesis by (auto simp: Skip_def simp del: json_text.simps)
qed

text \<open>What a provider reads in the body of a request: the model, and role and content of the last message\<close>
definition message_read :: "json \<Rightarrow> (string \<times> string) option" where
  "message_read j = (case j of
     JObj fs \<Rightarrow> (case (map_of fs ''role'', map_of fs ''content'') of
       (Some (JStr r), Some (JStr c)) \<Rightarrow> Some (r, c) | _ \<Rightarrow> None)
   | _ \<Rightarrow> None)"

definition request_read :: "json \<Rightarrow> (string \<times> (string \<times> string) option) option" where
  "request_read j = (case j of
     JObj fs \<Rightarrow> (case (map_of fs ''model'', map_of fs ''messages'') of
       (Some (JStr m), Some (JArr ms)) \<Rightarrow> Some (m, if ms = [] then None else message_read (last ms))
     | _ \<Rightarrow> None)
   | _ \<Rightarrow> None)"

lemmas request_bodies = anthropicReq_def openAIReq_def anthropicRequest_def openAIRequest_def
  anthropicMessage_def openAIMessage_def

text \<open>
  C15: every request is one JSON value that names the configured model and whose last message is
  the user's, with the prompt made valid UTF-8, whatever the evidence in it contains: no quote,
  backslash, control byte or broken rune of a log changes the structure of the request.
\<close>
theorem request_carries_prompt:
  "Option.bind (json_parse (json_text (anthropicReq model p))) request_read =
     Some (to_valid model, Some (''user'', to_valid p)) \<and>
   Option.bind (json_parse (json_text (openAIReq model p))) request_read =
     Some (to_valid model, Some (''user'', to_valid p)) \<and>
   Option.bind (json_parse (json_text
       (anthropicRequest model narrator_max_tokens [anthropicMessage ''user'' p]))) request_read =
     Some (to_valid model, Some (''user'', to_valid p)) \<and>
   Option.bind (json_parse (json_text
       (openAIRequest model [openAIMessage ''system'' s, openAIMessage ''user'' p]))) request_read =
     Some (to_valid model, Some (''user'', to_valid p)) \<and>
   json_parse (json_text (anthropicReq model p)) = Some (anthropicReq (to_valid model) (to_valid p)) \<and>
   json_parse (json_text (openAIReq model p)) = Some (openAIReq (to_valid model) (to_valid p)) \<and>
   json_parse (json_text (anthropicRequest model narrator_max_tokens [anthropicMessage ''user'' p])) =
     Some (anthropicRequest (to_valid model) narrator_max_tokens [anthropicMessage ''user'' (to_valid p)]) \<and>
   json_parse (json_text (openAIRequest model [openAIMessage ''system'' s, openAIMessage ''user'' p])) =
     Some (openAIRequest (to_valid model)
       [openAIMessage ''system'' (to_valid s), openAIMessage ''user'' (to_valid p)])"
proof -
  have tokens: "number_text (show_int decider_max_tokens)" "number_text (show_int narrator_max_tokens)"
    by code_simp+
  have system: "to_valid ''Reply ONLY with the requested JSON object. Do not include prose.'' =
      ''Reply ONLY with the requested JSON object. Do not include prose.''"
    by (simp add: to_valid_ascii ascii_def byte_of_def)
  show ?thesis
    by (intro conjI; subst json_roundtrip)
      (simp_all add: request_bodies request_read_def message_read_def max_nesting_def tokens system)
qed

text \<open>
  C31: the value that Prometheus reports for a query reaches the snapshot: when the reply to the
  only configured query is a vector of one series whose time stamp is a number in range, the
  snapshot holds that value under the query's label.
\<close>
theorem prometheus_value_is_sampled:
  assumes "lib_request_error L (rq_url (prom_request url (expand_query ns pod q) t)) = None"
    and "fst (run_state (k_http_do K (prom_request url (expand_query ns pod q) t)) w) = Inr resp"
    and "rsp_status_code resp = 200" "rsp_body resp = json_text (JObj (vector_reply metric ts v))"
    and "writable 9000 metric" "number_text ts" "\<not> isl (lib_parse_float L ts)"
  shows "fst (run_state (CollectMetrics L K \<lparr>mt_url = url, mt_queries = [(label, q)]\<rparr> ns pod t) w) =
    Inr (Some \<lparr>ms_source = url, ms_samples = [label \<mapsto> to_valid v]\<rparr>)"
  by (rule CollectMetrics_vector[OF assms])

corollary prometheus_value_is_sampled_witness:
  "fst (run_state (CollectMetrics sample_lib mem_client
      \<lparr>mt_url = ''http://prom'', mt_queries = [(''up'', ''up'')]\<rparr> ''prod'' ''web-1'' 7)
      (replying_mem (json_text (JObj (vector_reply (JObj [(''pod'', JStr ''web-1'')]) ''1435781451.781'' ''42''))))) =
    Inr (Some \<lparr>ms_source = ''http://prom'', ms_samples = [''up'' \<mapsto> to_valid ''42'']\<rparr>)"
proof (rule prometheus_value_is_sampled[OF _ http_replying])
  show "number_text ''1435781451.781''" by code_simp
  show "rsp_body \<lparr>rsp_status_code = 200, rsp_status = ''200 OK'', rsp_body = s, rsp_read_error = None\<rparr> = s"
    for s by simp
  show "writable 9000 (JObj [(''pod'', JStr ''web-1'')])" by simp
qed (simp_all add: sample_lib_def del: json_text.simps)

end
