(* ===== verification/Startup.thy ===== *)
theory Startup
  imports Reconciler
begin

section \<open>Starting the operator\<close>

text \<open>
  \<^verbatim>\<open>cmd/main.go\<close>: the flags and how \<^verbatim>\<open>flag.Parse\<close> reads them, the options of the
  webhook and metrics servers that follow from them, and the sequence of fallible steps that
  wires the controllers, each of which ends the process with status 1 when it fails. The calls
  of controller-runtime and client-go are a record of computations over an opaque world. Flags
  that other packages register (\<^verbatim>\<open>zap\<close>, \<^verbatim>\<open>kubeconfig\<close>) are a parameter; so is the
  logger, which is left out.
\<close>

subsection \<open>Flags\<close>

record flags =
  fl_metrics_addr :: string
  fl_probe_addr :: string
  fl_leader_elect :: bool
  fl_metrics_secure :: bool
  fl_webhook_cert_path :: string
  fl_webhook_cert_name :: string
  fl_webhook_cert_key :: string
  fl_metrics_cert_path :: string
  fl_metrics_cert_name :: string
  fl_metrics_cert_key :: string
  fl_enable_http2 :: bool

definition default_flags :: flags where
  "default_flags = \<lparr>
     fl_metrics_addr = ''0'', fl_probe_addr = '':8081'', fl_leader_elect = False, fl_metrics_secure = True,
     fl_webhook_cert_path = '''', fl_webhook_cert_name = ''tls.crt'', fl_webhook_cert_key = ''tls.key'',
     fl_metrics_cert_path = '''', fl_metrics_cert_name = ''tls.crt'', fl_metrics_cert_key = ''tls.key'',
     fl_enable_http2 = False\<rparr>"

text \<open>A variable of the program that a flag sets\<close>
datatype flag_target =
    TextTarget "(string \<Rightarrow> string) \<Rightarrow> flags \<Rightarrow> flags"
  | BoolTarget "(bool \<Rightarrow> bool) \<Rightarrow> flags \<Rightarrow> flags"

definition flag_table :: "string \<rightharpoonup> flag_target" where
  "flag_table = map_of [
     (''metrics-bind-address'', TextTarget fl_metrics_addr_update),
     (''health-probe-bind-address'', TextTarget fl_probe_addr_update),
     (''leader-elect'', BoolTarget fl_leader_elect_update),
     (''metrics-secure'', BoolTarget fl_metrics_secure_update),
     (''webhook-cert-path'', TextTarget fl_webhook_cert_path_update),
     (''webhook-cert-name'', TextTarget fl_webhook_cert_name_update),
     (''webhook-cert-key'', TextTarget fl_webhook_cert_key_update),
     (''metrics-cert-path'', TextTarget fl_metrics_cert_path_update),
     (''metrics-cert-name'', TextTarget fl_metrics_cert_name_update),
     (''metrics-cert-key'', TextTarget fl_metrics_cert_key_update),
     (''enable-http2'', BoolTarget fl_enable_http2_update)]"

text \<open>\<^verbatim>\<open>strconv.ParseBool\<close>\<close>
definition parse_bool :: "string \<rightharpoonup> bool" where
  "parse_bool s =
     (if s \<in> {''1'', ''t'', ''T'', ''true'', ''TRUE'', ''True''} then Some True
      else if s \<in> {''0'', ''f'', ''F'', ''false'', ''FALSE'', ''False''} then Some False
      else None)"

text \<open>Flags of other packages: whether one is known and takes no argument, and the values it accepts\<close>
record foreign_flags =
  ff_is_bool :: "string \<rightharpoonup> bool"
  ff_accepts :: "string \<Rightarrow> string \<Rightarrow> bool"

definition flag_is_bool :: "foreign_flags \<Rightarrow> string \<rightharpoonup> bool" where
  "flag_is_bool X name =
     (case flag_table name of
        Some (TextTarget _) \<Rightarrow> Some False
      | Some (BoolTarget _) \<Rightarrow> Some True
      | None \<Rightarrow> ff_is_bool X name)"

definition set_flag :: "foreign_flags \<Rightarrow> string \<Rightarrow> string \<Rightarrow> flags \<Rightarrow> flags option" where
  "set_flag X name value f =
     (case flag_table name of
        Some (TextTarget upd) \<Rightarrow> Some (upd (\<lambda>_. value) f)
      | Some (BoolTarget upd) \<Rightarrow> map_option (\<lambda>b. upd (\<lambda>_. b) f) (parse_bool value)
      | None \<Rightarrow> if ff_accepts X name value then Some f else None)"

text \<open>The name of an argument, and its value if it holds one\<close>
definition split_flag :: "string \<Rightarrow> string \<times> string option" where
  "split_flag s =
     (let name = takeWhile (\<lambda>c. c \<noteq> CHR ''='') s; rest = dropWhile (\<lambda>c. c \<noteq> CHR ''='') s
      in (name, if rest = [] then None else Some (tl rest)))"

text \<open>
  \<^verbatim>\<open>flag.Parse\<close> of the command line: the flags, or the status with which the process ends,
  0 after printing the usage on request and 2 after an error.
\<close>
fun parse_flags :: "foreign_flags \<Rightarrow> string list \<Rightarrow> flags \<Rightarrow> int + flags" where
  "parse_flags X [] f = Inr f"
| "parse_flags X (s # args) f =
     (if length s < 2 \<or> hd s \<noteq> CHR ''-'' \<or> s = ''--'' then Inr f
      else let name = (if s ! 1 = CHR ''-'' then drop 2 s else drop 1 s) in
        if hd name = CHR ''-'' \<or> hd name = CHR ''='' then Inl 2
        else (case split_flag name of (key, value) \<Rightarrow>
          (case flag_is_bool X key of
             None \<Rightarrow> if key = ''help'' \<or> key = ''h'' then Inl 0 else Inl 2
           | Some True \<Rightarrow>
               (case set_flag X key (or_default value ''true'') f of
                  None \<Rightarrow> Inl 2 | Some f' \<Rightarrow> parse_flags X args f')
           | Some False \<Rightarrow>
               (case (value, args) of
                  (Some v, _) \<Rightarrow>
                    (case set_flag X key v f of None \<Rightarrow> Inl 2 | Some f' \<Rightarrow> parse_flags X args f')
                | (None, []) \<Rightarrow> Inl 2
                | (None, v # args') \<Rightarrow>
                    (case set_flag X key v f of None \<Rightarrow> Inl 2 | Some f' \<Rightarrow> parse_flags X args' f')))))"

subsection \<open>Server options\<close>

record tls_config =
  next_protos :: "string list"

type_synonym tls_opt = "tls_config \<Rightarrow> tls_config"

definition disableHTTP2 :: tls_opt where
  "disableHTTP2 c = c\<lparr>next_protos := [''http/1.1'']\<rparr>"

definition tls_opts :: "flags \<Rightarrow> tls_opt list" where
  "tls_opts f = (if \<not> fl_enable_http2 f then [] @ [disableHTTP2] else [])"

record webhook_options =
  wh_tls_opts :: "tls_opt list"
  wh_cert_dir :: string
  wh_cert_name :: string
  wh_key_name :: string

definition webhook_server_options :: "flags \<Rightarrow> webhook_options" where
  "webhook_server_options f =
     (let o1 = \<lparr>wh_tls_opts = tls_opts f, wh_cert_dir = '''', wh_cert_name = '''', wh_key_name = ''''\<rparr> in
      if 0 < length (fl_webhook_cert_path f) then
        o1\<lparr>wh_cert_dir := fl_webhook_cert_path f, wh_cert_name := fl_webhook_cert_name f,
           wh_key_name := fl_webhook_cert_key f\<rparr>
      else o1)"

text \<open>\<open>mo_filter\<close>: the provider is \<^verbatim>\<open>filters.WithAuthenticationAndAuthorization\<close>.\<close>
record metrics_options =
  mo_bind_address :: string
  mo_secure_serving :: bool
  mo_tls_opts :: "tls_opt list"
  mo_filter :: bool
  mo_cert_dir :: string
  mo_cert_name :: string
  mo_key_name :: string

definition metrics_server_options :: "flags \<Rightarrow> metrics_options" where
  "metrics_server_options f =
     (let o1 = \<lparr>mo_bind_address = fl_metrics_addr f, mo_secure_serving = fl_metrics_secure f,
            mo_tls_opts = tls_opts f, mo_filter = False, mo_cert_dir = '''', mo_cert_name = '''',
            mo_key_name = ''''\<rparr>;
          o2 = (if fl_metrics_secure f then o1\<lparr>mo_filter := True\<rparr> else o1) in
      if 0 < length (fl_metrics_cert_path f) then
        o2\<lparr>mo_cert_dir := fl_metrics_cert_path f, mo_cert_name := fl_metrics_cert_name f,
           mo_key_name := fl_metrics_cert_key f\<rparr>
      else o2)"

record manager_options =
  mg_metrics :: metrics_options
  mg_webhook :: webhook_options
  mg_probe_addr :: string
  mg_leader_election :: bool
  mg_leader_election_id :: string

definition manager_options_of :: "flags \<Rightarrow> manager_options" where
  "manager_options_of f = \<lparr>mg_metrics = metrics_server_options f, mg_webhook = webhook_server_options f,
     mg_probe_addr = fl_probe_addr f, mg_leader_election = fl_leader_elect f,
     mg_leader_election_id = ''6f38856b.pez.sh''\<rparr>"

subsection \<open>Wiring\<close>

text \<open>
  The steps of \<^verbatim>\<open>main\<close>. \<open>'b\<close> is the world in which the process starts, \<open>'w\<close> the one in
  which the reconcilers run; \<open>b_watch kind name r\<close> is
  \<^verbatim>\<open>NewControllerManagedBy(mgr).For(kind).Named(name).Complete(r)\<close>.
\<close>
record ('b, 'w) boot =
  b_get_config :: "('b, go_error option) state"
  b_new_manager :: "manager_options \<Rightarrow> ('b, go_error option) state"
  b_new_clientset :: "('b, go_error option) state"
  b_getenv :: "string \<Rightarrow> ('b, string) state"
  b_watch :: "string \<Rightarrow> string \<Rightarrow> 'w reconciler \<Rightarrow> ('b, go_error option) state"
  b_add_seeder :: "string \<Rightarrow> ('b, go_error option) state"
  b_add_healthz :: "string \<Rightarrow> ('b, go_error option) state"
  b_add_readyz :: "string \<Rightarrow> ('b, go_error option) state"
  b_start :: "('b, go_error option) state"

definition with_narrator :: "'w reconciler \<Rightarrow> 'w reconciler" where
  "with_narrator r = (if rc_narrator r = None then r\<lparr>rc_narrator := Some NoopNarrator\<rparr> else r)"

definition PodSetupWithManager :: "('b, 'w, 'z) boot_scheme \<Rightarrow> 'w reconciler \<Rightarrow> ('b, go_error option) state" where
  "PodSetupWithManager B r = b_watch B ''Pod'' ''pod'' (with_narrator r)"

definition JobSetupWithManager :: "('b, 'w, 'z) boot_scheme \<Rightarrow> 'w reconciler \<Rightarrow> ('b, go_error option) state" where
  "JobSetupWithManager B r = b_watch B ''Job'' ''job'' (with_narrator r)"

text \<open>\<^verbatim>\<open>if err := step; err != nil { os.Exit(1) }\<close>\<close>
definition or_exit :: "('b, go_error option) state \<Rightarrow> ('b, int) state \<Rightarrow> ('b, int) state" where
  "or_exit step rest = do {
     e \<leftarrow> step;
     case e of Some err \<Rightarrow> ret 1 | None \<Rightarrow> rest
   }"

text \<open>From the parsed flags to the end of the process, as its exit status\<close>
definition run_manager ::
  "('l) go_lib_scheme \<Rightarrow> ('w, 'y) cluster_client_scheme \<Rightarrow> ('b, 'w, 'z) boot_scheme \<Rightarrow> flags \<Rightarrow>
   ('b, int) state" where
  "run_manager L K B f =
     or_exit (b_get_config B) (
     or_exit (b_new_manager B (manager_options_of f)) (
     or_exit (b_new_clientset B) (do {
       operatorNamespace \<leftarrow> b_getenv B ''POD_NAMESPACE'';
       let healEngine = heal_engine L K;
           r = \<lparr>rc_narrator = Some NoopNarrator, rc_self_heal = Some healEngine,
             rc_operator_namespace = operatorNamespace\<rparr> in
       or_exit (PodSetupWithManager B r) (
       or_exit (JobSetupWithManager B r) (
       or_exit (b_add_seeder B operatorNamespace) (
       or_exit (b_add_healthz B ''healthz'') (
       or_exit (b_add_readyz B ''readyz'') (
       or_exit (b_start B) (
       ret 0))))))
     })))"

definition main ::
  "('l) go_lib_scheme \<Rightarrow> ('w, 'y) cluster_client_scheme \<Rightarrow> ('b, 'w, 'z) boot_scheme \<Rightarrow> foreign_flags \<Rightarrow>
   string list \<Rightarrow> ('b, int) state" where
  "main L K B X args =
     (case parse_flags X args default_flags of
        Inl status \<Rightarrow> ret status
      | Inr f \<Rightarrow> run_manager L K B f)"

end
