(* ===== verification/Starting.thy ===== *)
theory Starting
  imports Sample Startup
begin

section \<open>What starting promises\<close>

text \<open>
  The properties of \<^verbatim>\<open>main\<close>: the order of its steps, observed in a world that records them,
  and the server options that the flags lead to.
\<close>

subsection \<open>A start that records its steps\<close>

text \<open>
  A start whose world is the list of the steps taken so far; \<open>fails s\<close> is the error of step
  \<open>s\<close>, if it fails.
\<close>
datatype 'w boot_step =
    LoadConfig
  | NewManager manager_options
  | NewClientset
  | Watch string string "'w reconciler"
  | AddSeeder string
  | AddHealthz string
  | AddReadyz string
  | StartManager

definition take_step :: "('w boot_step \<Rightarrow> go_error option) \<Rightarrow> 'w boot_step \<Rightarrow> ('w boot_step list, go_error option) state" where
  "take_step fails s = State (\<lambda>done. (fails s, done @ [s]))"

definition recorded_boot ::
  "('w boot_step \<Rightarrow> go_error option) \<Rightarrow> (string \<Rightarrow> string) \<Rightarrow> ('w boot_step list, 'w) boot" where
  "recorded_boot fails env = \<lparr>
     b_get_config = take_step fails LoadConfig,
     b_new_manager = (\<lambda>opts. take_step fails (NewManager opts)),
     b_new_clientset = take_step fails NewClientset,
     b_getenv = (\<lambda>name. ret (env name)),
     b_watch = (\<lambda>kind name r. take_step fails (Watch kind name r)),
     b_add_seeder = (\<lambda>ns. take_step fails (AddSeeder ns)),
     b_add_healthz = (\<lambda>name. take_step fails (AddHealthz name)),
     b_add_readyz = (\<lambda>name. take_step fails (AddReadyz name)),
     b_start = take_step fails StartManager\<rparr>"

text \<open>The reconciler that both controllers get, and the steps of a start without failures\<close>
definition wired_reconciler :: "('l) go_lib_scheme \<Rightarrow> ('w, 'y) cluster_client_scheme \<Rightarrow> string \<Rightarrow> 'w reconciler" where
  "wired_reconciler L K ns = \<lparr>rc_narrator = Some NoopNarrator, rc_self_heal = Some (heal_engine L K),
     rc_operator_namespace = ns\<rparr>"

definition boot_plan ::
  "('l) go_lib_scheme \<Rightarrow> ('w, 'y) cluster_client_scheme \<Rightarrow> flags \<Rightarrow> string \<Rightarrow> 'w boot_step list" where
  "boot_plan L K f ns = [LoadConfig, NewManager (manager_options_of f), NewClientset,
     Watch ''Pod'' ''pod'' (wired_reconciler L K ns), Watch ''Job'' ''job'' (wired_reconciler L K ns),
     AddSeeder ns, AddHealthz ''healthz'', AddReadyz ''readyz'', StartManager]"

text \<open>The elements up to and including the first that satisfies \<open>p\<close>\<close>
fun take_upto :: "('a \<Rightarrow> bool) \<Rightarrow> 'a list \<Rightarrow> 'a list" where
  "take_upto p [] = []"
| "take_upto p (x # xs) = (if p x then [x] else x # take_upto p xs)"

lemma run_or_exit: "run_state (or_exit (take_step fails s) rest) done =
    (if fails s \<noteq> None then (1, done @ [s]) else run_state rest (done @ [s]))"
  by (simp add: or_exit_def take_step_def split: option.split)

lemma take_upto_none: "\<forall>x \<in> set xs. \<not> p x \<Longrightarrow> take_upto p xs = xs"
  by (induction xs) auto

lemma take_upto_before: "take_upto p (xs @ [x]) = xs @ [x] \<or> x \<notin> set (take_upto p (xs @ [x])) \<or> x \<in> set xs"
  by (induction xs) auto

text \<open>
  C27: starting takes the steps in one order and stops at the first that fails, with status 1;
  the manager runs only after everything is registered. Both controllers get the same reconciler
  settings, with the operator's namespace and one heal engine, whose deciders are sound.
\<close>
theorem startup_stops_at_first_failure:
  "run_state (run_manager L K (recorded_boot fails env) f) [] =
     (if \<exists>s \<in> set (boot_plan L K f (env ''POD_NAMESPACE'')). fails s \<noteq> None then 1 else 0,
      take_upto (\<lambda>s. fails s \<noteq> None) (boot_plan L K f (env ''POD_NAMESPACE''))) \<and>
   (StartManager \<in> set (snd (run_state (run_manager L K (recorded_boot fails env) f) [])) \<longrightarrow>
      snd (run_state (run_manager L K (recorded_boot fails env) f) []) =
        boot_plan L K f (env ''POD_NAMESPACE'')) \<and>
   sound_factory (heal_engine L K)"
proof -
  let ?plan = "boot_plan L K f (env ''POD_NAMESPACE'')"
  have run: "run_state (run_manager L K (recorded_boot fails env) f) [] =
      (if \<exists>s \<in> set ?plan. fails s \<noteq> None then 1 else 0, take_upto (\<lambda>s. fails s \<noteq> None) ?plan)"
    unfolding run_manager_def recorded_boot_def PodSetupWithManager_def JobSetupWithManager_def Let_def
    by (simp add: run_or_exit boot_plan_def wired_reconciler_def with_narrator_def)
  obtain steps where steps: "?plan = steps @ [StartManager]" "StartManager \<notin> set steps"
    by (simp add: boot_plan_def)
  have "take_upto (\<lambda>s. fails s \<noteq> None) ?plan = ?plan"
    if "StartManager \<in> set (take_upto (\<lambda>s. fails s \<noteq> None) ?plan)"
    using take_upto_before[of "\<lambda>s. fails s \<noteq> None" steps StartManager] that steps by auto
  with run show ?thesis by simp
qed

definition seeder_fails :: "'w boot_step \<Rightarrow> go_error option" where
  "seeder_fails s = (case s of AddSeeder ns \<Rightarrow> Some (errorf ''no cache'') | _ \<Rightarrow> None)"

corollary startup_stops_at_first_failure_witness:
  "fst (run_state (run_manager sample_lib mem_client (recorded_boot seeder_fails (\<lambda>v. ''koroner'')) default_flags) []) = 1 \<and>
   StartManager \<notin> set (snd (run_state (run_manager sample_lib mem_client
     (recorded_boot seeder_fails (\<lambda>v. ''koroner'')) default_flags) [])) \<and>
   snd (run_state (run_manager sample_lib mem_client (recorded_boot (\<lambda>s. None) (\<lambda>v. ''koroner'')) default_flags) []) =
     boot_plan sample_lib mem_client default_flags ''koroner''"
proof -
  note start = startup_stops_at_first_failure[of sample_lib mem_client _ "\<lambda>v. ''koroner''" default_flags]
  let ?plan = "boot_plan sample_lib mem_client default_flags ''koroner''"
  have "\<exists>s \<in> set ?plan. seeder_fails s \<noteq> None"
    and "StartManager \<notin> set (take_upto (\<lambda>s. seeder_fails s \<noteq> None) ?plan)"
    by (simp_all add: boot_plan_def seeder_fails_def)
  with start[THEN conjunct1, of seeder_fails]
  have "fst (run_state (run_manager sample_lib mem_client (recorded_boot seeder_fails (\<lambda>v. ''koroner'')) default_flags) []) = 1"
    "StartManager \<notin> set (snd (run_state (run_manager sample_lib mem_client
     (recorded_boot seeder_fails (\<lambda>v. ''koroner'')) default_flags) []))"
    by (simp_all only: if_True fst_conv snd_conv not_False_eq_True)
  moreover have "snd (run_state (run_manager sample_lib mem_client
      (recorded_boot (\<lambda>s. None) (\<lambda>v. ''koroner'')) default_flags) []) = ?plan"
    using start[THEN conjunct1, of "\<lambda>s. None"] take_upto_none[of ?plan "\<lambda>s. None \<noteq> None"]
    by (simp only: snd_conv) simp
  ultimately show ?thesis by blast
qed

lemma server_options:
  "wh_tls_opts (mg_webhook (manager_options_of f)) = tls_opts f"
  "mo_tls_opts (mg_metrics (manager_options_of f)) = tls_opts f"
  "mo_filter (mg_metrics (manager_options_of f)) = fl_metrics_secure f"
  "mo_secure_serving (mg_metrics (manager_options_of f)) = fl_metrics_secure f"
  "mo_bind_address (mg_metrics (manager_options_of f)) = fl_metrics_addr f"
  "mg_leader_election (manager_options_of f) = fl_leader_elect f"
  by (simp_all add: manager_options_of_def metrics_server_options_def webhook_server_options_def Let_def)

text \<open>
  C39: unless HTTP/2 is switched on, both servers offer HTTP/1.1 only; the metrics endpoint
  authenticates its clients exactly when it is served securely, and without flags it is off,
  secure, and the manager does not elect a leader.
\<close>
theorem servers_follow_flags:
  assumes "parse_flags X args default_flags = Inr f"
  shows "(\<not> fl_enable_http2 f \<longrightarrow>
      (\<forall>c. next_protos (foldl (\<lambda>c opt. opt c) c (wh_tls_opts (mg_webhook (manager_options_of f)))) = [''http/1.1''] \<and>
           next_protos (foldl (\<lambda>c opt. opt c) c (mo_tls_opts (mg_metrics (manager_options_of f)))) = [''http/1.1''])) \<and>
    (mo_filter (mg_metrics (manager_options_of f)) \<longleftrightarrow> mo_secure_serving (mg_metrics (manager_options_of f))) \<and>
    (args = [] \<longrightarrow> mo_bind_address (mg_metrics (manager_options_of f)) = ''0'' \<and>
      mo_filter (mg_metrics (manager_options_of f)) \<and> \<not> fl_enable_http2 f \<and>
      \<not> mg_leader_election (manager_options_of f))"
proof -
  have "foldl (\<lambda>c opt. opt c) c (tls_opts f) = disableHTTP2 c" if "\<not> fl_enable_http2 f" for c
    using that by (simp add: tls_opts_def)
  moreover have "f = default_flags" if "args = []" using assms that by simp
  ultimately show ?thesis by (simp add: server_options disableHTTP2_def default_flags_def)
qed

corollary servers_follow_flags_witness:
  "\<exists>f. parse_flags \<lparr>ff_is_bool = Map.empty, ff_accepts = (\<lambda>n v. False)\<rparr>
      [''--metrics-bind-address=:8443'', ''-leader-elect''] default_flags = Inr f \<and>
    fl_metrics_addr f = '':8443'' \<and> fl_leader_elect f \<and> mo_filter (mg_metrics (manager_options_of f))"
proof -
  let ?f = "default_flags\<lparr>fl_metrics_addr := '':8443'', fl_leader_elect := True\<rparr>"
  have p: "parse_flags \<lparr>ff_is_bool = Map.empty, ff_accepts = (\<lambda>n v. False)\<rparr>
      [''--metrics-bind-address=:8443'', ''-leader-elect''] default_flags = Inr ?f"
    by (simp add: split_flag_def flag_is_bool_def set_flag_def flag_table_def parse_bool_def Let_def)
  from servers_follow_flags[OF p] p show ?thesis
    by (intro exI[of _ ?f]) (simp add: manager_options_of_def metrics_server_options_def Let_def default_flags_def)
qed

end
