(* ===== verification/Go_Heap.thy ===== *)
theory Go_Heap
  imports Effects "HOL-Library.DAList"
begin

section \<open>Pointers, slices and maps in memory\<close>

declare world_frame_refl [rule del]

text \<open>
  Memory for the code whose meaning is what it shares: a heap is a list of cells, an allocation
  adds a cell at its end, a pointer is the index of a cell and carries the type of its contents
  as a phantom. \<open>('c, 't) go_type\<close> says how the values of a Go type sit in a cell.

  A view reads a value of Go, with all it points to, as a value of the model and lists the cells
  it went through; it fails on a pointer that does not lead to a cell of its type, which the
  type system of Go excludes. \<open>deep_copy\<close> is the contract of a deep copy over a view: the copy
  reads as the original, lies in cells of its own, and no cell that existed is written.
\<close>

subsection \<open>Cells\<close>

datatype 't ptr = Ptr (addr: nat)

type_synonym 'c heap = "'c list"

record ('c, 't) go_type =
  ty_in :: "'t \<Rightarrow> 'c"
  ty_out :: "'c \<Rightarrow> 't option"
  ty_zero :: 't

definition stores :: "('c, 't) go_type \<Rightarrow> bool" where
  "stores T \<longleftrightarrow> (\<forall>x. ty_out T (ty_in T x) = Some x)"

definition fetch :: "('c, 't) go_type \<Rightarrow> 'c heap \<Rightarrow> 't ptr \<Rightarrow> 't option" where
  "fetch T h p = (if addr p < length h then ty_out T (h ! addr p) else None)"

definition alloc :: "('c, 't) go_type \<Rightarrow> 't \<Rightarrow> ('c heap, 't ptr) state" where
  "alloc T x = State (\<lambda>h. (Ptr (length h), h @ [ty_in T x]))"

text \<open>\<open>new(T)\<close>, \<open>*p\<close> and \<open>*p = x\<close>\<close>
definition new :: "('c, 't) go_type \<Rightarrow> ('c heap, 't ptr) state" where
  "new T = alloc T (ty_zero T)"

definition load :: "('c, 't) go_type \<Rightarrow> 't ptr \<Rightarrow> ('c heap, 't) state" where
  "load T p = State (\<lambda>h. (case fetch T h p of Some x \<Rightarrow> x | None \<Rightarrow> ty_zero T, h))"

definition store :: "('c, 't) go_type \<Rightarrow> 't ptr \<Rightarrow> 't \<Rightarrow> ('c heap, unit) state" where
  "store T p x = State (\<lambda>h. ((), h[addr p := ty_in T x]))"

lemma run_cells [simp]:
  "run_state (alloc T x) h = (Ptr (length h), h @ [ty_in T x])"
  "run_state (new T) h = (Ptr (length h), h @ [ty_in T (ty_zero T)])"
  "run_state (load T p) h = (case fetch T h p of Some x \<Rightarrow> x | None \<Rightarrow> ty_zero T, h)"
  "run_state (store T p x) h = ((), h[addr p := ty_in T x])"
  by (simp_all add: alloc_def new_def load_def store_def)

lemma fetch_append: "fetch T h p = Some x \<Longrightarrow> fetch T (h @ e) p = Some x"
  by (simp add: fetch_def nth_append split: if_splits)

lemma fetch_new: "stores T \<Longrightarrow> fetch T (h @ ty_in T x # e) (Ptr (length h)) = Some x"
  by (simp add: fetch_def stores_def)

lemma fetch_addr: "fetch T h p = Some x \<Longrightarrow> addr p < length h"
  by (simp add: fetch_def split: if_splits)

text \<open>Slices have a backing array, an offset into it and a length; no copy looks at the capacity.\<close>
record 't slice =
  sl_array :: "'t list ptr"
  sl_off :: nat
  sl_len :: nat

definition window :: "'t slice \<Rightarrow> 't list \<Rightarrow> 't list" where
  "window s xs = take (sl_len s) (drop (sl_off s) xs)"

text \<open>\<open>make([]T, n)\<close>\<close>
definition make :: "('c, 't list) go_type \<Rightarrow> 't \<Rightarrow> nat \<Rightarrow> ('c heap, 't slice) state" where
  "make A z n = do { a \<leftarrow> alloc A (replicate n z); ret \<lparr>sl_array = a, sl_off = 0, sl_len = n\<rparr> }"

type_synonym map_cell = "(string, string) alist"

subsection \<open>The statements of the generated copies\<close>

text \<open>
  One definition for each shape of statement that controller-gen emits for a field, a nil value
  being left as it is. \<open>copy_ptr\<close>:
  \<^verbatim>\<open>*out = new(T)\<close> and then \<^verbatim>\<open>(*in).DeepCopyInto(*out)\<close> (or \<^verbatim>\<open>**out = **in\<close>, where
  \<open>into\<close> is \<^const>\<open>State_Monad.return\<close>). The methods \<^verbatim>\<open>DeepCopy\<close> have the same statements.
\<close>
definition copy_ptr ::
  "('c, 't) go_type \<Rightarrow> ('t \<Rightarrow> ('c heap, 't) state) \<Rightarrow> 't ptr option \<Rightarrow> ('c heap, 't ptr option) state" where
  "copy_ptr T into p =
     (case p of
        None \<Rightarrow> ret None
      | Some i \<Rightarrow> do { r \<leftarrow> new T; x \<leftarrow> load T i; y \<leftarrow> into x; store T r y; ret (Some r) })"

text \<open>\<^verbatim>\<open>*out = make([]T, len(*in)); copy(*out, *in)\<close>\<close>
definition copy_array ::
  "('c, 't list) go_type \<Rightarrow> 't \<Rightarrow> 't slice option \<Rightarrow> ('c heap, 't slice option) state" where
  "copy_array A z s =
     (case s of
        None \<Rightarrow> ret None
      | Some i \<Rightarrow> do {
          r \<leftarrow> make A z (sl_len i);
          xs \<leftarrow> load A (sl_array i);
          store A (sl_array r) (window i xs);
          ret (Some r) })"

text \<open>\<^verbatim>\<open>for i := range *in { (*in)[i].DeepCopyInto(&(*out)[i]) }\<close>, from index \<open>i\<close> on\<close>
primrec copy_elements ::
  "('c, 't list) go_type \<Rightarrow> ('t \<Rightarrow> ('c heap, 't) state) \<Rightarrow> 't slice \<Rightarrow> 't slice \<Rightarrow> nat \<Rightarrow> nat \<Rightarrow>
   ('c heap, unit) state" where
  "copy_elements A into i r 0 k = ret ()"
| "copy_elements A into i r (Suc n) k = do {
     xs \<leftarrow> load A (sl_array i);
     y \<leftarrow> into (xs ! (sl_off i + k));
     ys \<leftarrow> load A (sl_array r);
     store A (sl_array r) (ys[sl_off r + k := y]);
     copy_elements A into i r n (k + 1)
   }"

definition copy_slice ::
  "('c, 't list) go_type \<Rightarrow> 't \<Rightarrow> ('t \<Rightarrow> ('c heap, 't) state) \<Rightarrow> 't slice option \<Rightarrow>
   ('c heap, 't slice option) state" where
  "copy_slice A z into s =
     (case s of
        None \<Rightarrow> ret None
      | Some i \<Rightarrow> do {
          r \<leftarrow> make A z (sl_len i);
          copy_elements A into i r (sl_len i) 0;
          ret (Some r) })"

text \<open>\<^verbatim>\<open>*out = make(map[string]string, len(*in)); for key, val := range *in { (*out)[key] = val }\<close>\<close>
primrec copy_entries ::
  "('c, map_cell) go_type \<Rightarrow> map_cell ptr \<Rightarrow> (string \<times> string) list \<Rightarrow> ('c heap, unit) state" where
  "copy_entries M r [] = ret ()"
| "copy_entries M r (kv # kvs) = do {
     m \<leftarrow> load M r;
     store M r (DAList.update (fst kv) (snd kv) m);
     copy_entries M r kvs
   }"

definition copy_map ::
  "('c, map_cell) go_type \<Rightarrow> map_cell ptr option \<Rightarrow> ('c heap, map_cell ptr option) state" where
  "copy_map M p =
     (case p of
        None \<Rightarrow> ret None
      | Some i \<Rightarrow> do {
          r \<leftarrow> alloc M DAList.empty;
          m \<leftarrow> load M i;
          copy_entries M r (DAList.impl_of m);
          ret (Some r) })"

subsection \<open>Views\<close>

type_synonym ('c, 't, 'v) view = "'c heap \<Rightarrow> 't \<Rightarrow> ('v \<times> nat list) option"

definition plain_view :: "('c, 't, 't) view" where
  "plain_view h x = Some (x, [])"

definition map_view :: "('v \<Rightarrow> 'u) \<Rightarrow> ('v \<times> nat list) option \<Rightarrow> ('u \<times> nat list) option" where
  "map_view f = map_option (map_prod f id)"

definition pair_view :: "('c, 't, 'v) view \<Rightarrow> ('c, 's, 'u) view \<Rightarrow> ('c, 't \<times> 's, 'v \<times> 'u) view" where
  "pair_view V U h z =
     (case V h (fst z) of None \<Rightarrow> None
      | Some (v, A) \<Rightarrow> (case U h (snd z) of None \<Rightarrow> None | Some (u, B) \<Rightarrow> Some ((v, u), A @ B)))"

definition ptr_view :: "('c, 't) go_type \<Rightarrow> ('c, 't, 'v) view \<Rightarrow> ('c, 't ptr option, 'v option) view" where
  "ptr_view T V h p =
     (case p of
        None \<Rightarrow> Some (None, [])
      | Some q \<Rightarrow> (case fetch T h q of None \<Rightarrow> None
          | Some x \<Rightarrow> (case V h x of None \<Rightarrow> None | Some (v, A) \<Rightarrow> Some (Some v, addr q # A))))"

primrec list_view :: "('c, 't, 'v) view \<Rightarrow> ('c, 't list, 'v list) view" where
  "list_view V h [] = Some ([], [])"
| "list_view V h (x # xs) =
     (case V h x of None \<Rightarrow> None
      | Some (v, A) \<Rightarrow> (case list_view V h xs of None \<Rightarrow> None | Some (vs, B) \<Rightarrow> Some (v # vs, A @ B)))"

text \<open>A nil slice and an empty one read alike, as everywhere in the model.\<close>
definition slice_view :: "('c, 't list) go_type \<Rightarrow> ('c, 't, 'v) view \<Rightarrow> ('c, 't slice option, 'v list) view" where
  "slice_view A V h s =
     (case s of
        None \<Rightarrow> Some ([], [])
      | Some i \<Rightarrow> (case fetch A h (sl_array i) of None \<Rightarrow> None
          | Some xs \<Rightarrow>
              if sl_off i + sl_len i \<le> length xs then
                (case list_view V h (window i xs) of None \<Rightarrow> None
                 | Some (vs, B) \<Rightarrow> Some (vs, addr (sl_array i) # B))
              else None))"

definition map_entries_view :: "('c, map_cell) go_type \<Rightarrow> ('c, map_cell ptr option, (string \<times> string) list) view" where
  "map_entries_view M h p =
     map_view (\<lambda>m. case m of None \<Rightarrow> [] | Some m \<Rightarrow> DAList.impl_of m) (ptr_view M plain_view h p)"

subsection \<open>Changes elsewhere\<close>

definition same_at :: "nat list \<Rightarrow> 'c heap \<Rightarrow> 'c heap \<Rightarrow> bool" where
  "same_at A h h' \<longleftrightarrow> (\<forall>a \<in> set A. a < length h' \<and> h' ! a = h ! a)"

text \<open>Later assignments to cells, whatever they write\<close>
definition writes :: "(nat \<times> 'c) list \<Rightarrow> 'c heap \<Rightarrow> 'c heap" where
  "writes ws h = foldl (\<lambda>h w. h[fst w := snd w]) h ws"

lemma same_at_simps [simp]:
  "same_at [] h h'"
  "same_at (a # A) h h' \<longleftrightarrow> a < length h' \<and> h' ! a = h ! a \<and> same_at A h h'"
  "same_at (A @ B) h h' \<longleftrightarrow> same_at A h h' \<and> same_at B h h'"
  by (auto simp: same_at_def)

lemma same_at_append: "set A \<subseteq> {..<length h} \<Longrightarrow> same_at A h (h @ e)"
  by (auto simp: same_at_def nth_append)

lemma same_at_update: "set A \<subseteq> {..<length h} \<Longrightarrow> a \<notin> set A \<Longrightarrow> same_at A h (h[a := c])"
  unfolding same_at_def by (auto intro!: nth_list_update_neq)

lemma length_writes [simp]: "length (writes ws h) = length h"
  unfolding writes_def by (induction ws arbitrary: h) simp_all

lemma nth_writes: "a \<notin> fst ` set ws \<Longrightarrow> writes ws h ! a = h ! a"
  unfolding writes_def by (induction ws arbitrary: h) (auto simp: nth_list_update)

lemma same_at_writes: "set A \<subseteq> {..<length h} \<Longrightarrow> fst ` set ws \<inter> set A = {} \<Longrightarrow> same_at A h (writes ws h)"
  unfolding same_at_def by (intro ballI conjI nth_writes) auto

lemma fetch_same_at: "addr p < length h' \<and> h' ! addr p = h ! addr p \<Longrightarrow> fetch T h p = Some x \<Longrightarrow> fetch T h' p = Some x"
  by (simp add: fetch_def split: if_splits)

subsection \<open>The contract of a deep copy\<close>

locale deep_copy =
  fixes V :: "('c, 't, 'v) view" and into :: "'t \<Rightarrow> ('c heap, 't) state"
  assumes in_heap: "V h x = Some (v, A) \<Longrightarrow> set A \<subseteq> {..<length h}"
    and frame: "V h x = Some (v, A) \<Longrightarrow> same_at A h h' \<Longrightarrow> V h' x = Some (v, A)"
    and copied: "V h x = Some (v, A) \<Longrightarrow>
      \<exists>y e B. run_state (into x) h = (y, h @ e) \<and> V (h @ e) y = Some (v, B) \<and>
        set B \<subseteq> {length h..<length (h @ e)}"
begin

lemma grown: "V h x = Some (v, A) \<Longrightarrow> V (h @ e) x = Some (v, A)"
  by (rule frame[OF _ same_at_append[OF in_heap]])

lemma updated: "V h x = Some (v, A) \<Longrightarrow> a \<notin> set A \<Longrightarrow> V (h[a := c]) x = Some (v, A)"
  by (rule frame[OF _ same_at_update[OF in_heap]])

lemma written: "V h x = Some (v, A) \<Longrightarrow> fst ` set ws \<inter> set A = {} \<Longrightarrow> V (writes ws h) x = Some (v, A)"
  by (rule frame[OF _ same_at_writes[OF in_heap]])

text \<open>What a caller relies on: the original is untouched, and neither side sees writes to the other.\<close>
lemma copy_is_apart:
  assumes "V h x = Some (v, A)"
  shows "\<exists>y h' B. run_state (into x) h = (y, h') \<and> V h' x = Some (v, A) \<and> V h' y = Some (v, B) \<and>
    set A \<inter> set B = {} \<and>
    (\<forall>ws. fst ` set ws \<inter> set A = {} \<longrightarrow> V (writes ws h') x = Some (v, A)) \<and>
    (\<forall>ws. fst ` set ws \<inter> set B = {} \<longrightarrow> V (writes ws h') y = Some (v, B))"
proof -
  obtain y e B where y: "run_state (into x) h = (y, h @ e)" "V (h @ e) y = Some (v, B)"
    and B: "set B \<subseteq> {length h..<length (h @ e)}" using copied[OF assms] by blast
  have x: "V (h @ e) x = Some (v, A)" by (rule grown[OF assms])
  have "a \<notin> set B" if "a \<in> set A" for a using subsetD[OF in_heap[OF assms] that] B by auto
  then have "set A \<inter> set B = {}" by auto
  with x y written[OF x] written[OF y(2)] show ?thesis
    by (intro exI[of _ y] exI[of _ "h @ e"] exI[of _ B] conjI allI impI)
qed

end

lemma deep_copy_plain: "deep_copy plain_view ret"
  by unfold_locales (auto simp: plain_view_def)

lemma pair_view_Some:
  "pair_view V U h z = Some (w, C) \<longleftrightarrow>
     (\<exists>v A u B. V h (fst z) = Some (v, A) \<and> U h (snd z) = Some (u, B) \<and> w = (v, u) \<and> C = A @ B)"
  by (auto simp: pair_view_def split: option.splits)

lemma deep_copy_pair:
  assumes "deep_copy V c" "deep_copy U d"
  shows "deep_copy (pair_view V U) (\<lambda>z. do { a \<leftarrow> c (fst z); b \<leftarrow> d (snd z); ret (a, b) })"
proof (rule deep_copy.intro)
  fix h x w C
  assume "pair_view V U h x = Some (w, C)"
  then obtain v A u B where x: "V h (fst x) = Some (v, A)" "U h (snd x) = Some (u, B)" "w = (v, u)" "C = A @ B"
    by (auto simp: pair_view_Some)
  show "set C \<subseteq> {..<length h}"
    using deep_copy.in_heap[OF assms(1) x(1)] deep_copy.in_heap[OF assms(2) x(2)] x(4) by simp
  show "pair_view V U h' x = Some (w, C)" if "same_at C h h'" for h'
    using deep_copy.frame[OF assms(1) x(1)] deep_copy.frame[OF assms(2) x(2)] that x(3,4)
    by (auto simp: pair_view_Some)
  obtain y e A' where y: "run_state (c (fst x)) h = (y, h @ e)" "V (h @ e) y = Some (v, A')"
      "set A' \<subseteq> {length h..<length (h @ e)}"
    using deep_copy.copied[OF assms(1) x(1)] by blast
  obtain z f B' where z: "run_state (d (snd x)) (h @ e) = (z, (h @ e) @ f)" "U ((h @ e) @ f) z = Some (u, B')"
      "set B' \<subseteq> {length (h @ e)..<length ((h @ e) @ f)}"
    using deep_copy.copied[OF assms(2) deep_copy.grown[OF assms(2) x(2)]] by blast
  have "pair_view V U ((h @ e) @ f) (y, z) = Some (w, A' @ B')"
    using deep_copy.grown[OF assms(1) y(2)] z(2) x(3) by (simp add: pair_view_Some)
  moreover have "set (A' @ B') \<subseteq> {length h..<length ((h @ e) @ f)}" using y(3) z(3) by auto
  ultimately show "\<exists>ya ea Ba. run_state (do { a \<leftarrow> c (fst x); b \<leftarrow> d (snd x); ret (a, b) }) h = (ya, h @ ea) \<and>
      pair_view V U (h @ ea) ya = Some (w, Ba) \<and> set Ba \<subseteq> {length h..<length (h @ ea)}"
    using y(1) z(1) by (intro exI[of _ "(y, z)"] exI[of _ "e @ f"] exI[of _ "A' @ B'"]) simp
qed

text \<open>
  A struct: \<open>get\<close> takes the fields that own memory, \<open>put\<close> writes them back, and the rest, which
  the plain assignment has copied, goes into the value through \<open>g\<close>.
\<close>
lemma deep_copy_struct:
  assumes "deep_copy V c" "\<And>x y. get (put x y) = y" "\<And>x y. g (put x y) = g x"
  shows "deep_copy (\<lambda>h x. map_view (g x) (V h (get x))) (\<lambda>x. do { y \<leftarrow> c (get x); ret (put x y) })"
proof (rule deep_copy.intro)
  fix h x w C
  assume "map_view (g x) (V h (get x)) = Some (w, C)"
  then obtain v where x: "V h (get x) = Some (v, C)" "w = g x v" by (auto simp: map_view_def)
  show "set C \<subseteq> {..<length h}" using deep_copy.in_heap[OF assms(1) x(1)] .
  show "map_view (g x) (V h' (get x)) = Some (w, C)" if "same_at C h h'" for h'
    using deep_copy.frame[OF assms(1) x(1) that] x(2) by (simp add: map_view_def)
  obtain y e B where y: "run_state (c (get x)) h = (y, h @ e)" "V (h @ e) y = Some (v, B)"
      "set B \<subseteq> {length h..<length (h @ e)}"
    using deep_copy.copied[OF assms(1) x(1)] by blast
  then show "\<exists>ya e B. run_state (do { y \<leftarrow> c (get x); ret (put x y) }) h = (ya, h @ e) \<and>
      map_view (g ya) (V (h @ e) (get ya)) = Some (w, B) \<and> set B \<subseteq> {length h..<length (h @ e)}"
    using x(2) by (intro exI[of _ "put x y"] exI[of _ e] exI[of _ B]) (simp add: assms(2,3) map_view_def)
qed

lemma update_new_cell: "(h @ c # e)[length h := d] = h @ d # e"
  by (simp add: list_update_append)

lemma ptr_view_None [simp]: "ptr_view T V h None = Some (None, [])"
  by (simp add: ptr_view_def)

lemma ptr_view_Some:
  "ptr_view T V h (Some q) = Some (w, C) \<longleftrightarrow>
     (\<exists>x v A. fetch T h q = Some x \<and> V h x = Some (v, A) \<and> w = Some v \<and> C = addr q # A)"
  by (auto simp: ptr_view_def split: option.splits)

lemma deep_copy_ptr:
  assumes "stores T" "deep_copy V c"
  shows "deep_copy (ptr_view T V) (copy_ptr T c)"
proof (rule deep_copy.intro)
  fix h p w C
  assume p: "ptr_view T V h p = Some (w, C)"
  show "set C \<subseteq> {..<length h}"
  proof (cases p)
    case (Some q)
    then obtain x v A where q: "fetch T h q = Some x" "V h x = Some (v, A)" "C = addr q # A"
      using p unfolding Some ptr_view_Some by (elim exE conjE)
    show ?thesis using deep_copy.in_heap[OF assms(2) q(2)] fetch_addr[OF q(1)] q(3) by simp
  qed (use p in simp)
  show "ptr_view T V h' p = Some (w, C)" if "same_at C h h'" for h'
  proof (cases p)
    case (Some q)
    then obtain x v A where q: "fetch T h q = Some x" "V h x = Some (v, A)" "w = Some v" "C = addr q # A"
      using p by (auto simp: ptr_view_Some)
    have "fetch T h' q = Some x" using that q(4) by (intro fetch_same_at[OF _ q(1)]) simp
    moreover have "V h' x = Some (v, A)" using that q(4) by (intro deep_copy.frame[OF assms(2) q(2)]) simp
    ultimately show ?thesis using Some q(3,4) by (simp add: ptr_view_Some)
  qed (use p in simp)
  show "\<exists>y e B. run_state (copy_ptr T c p) h = (y, h @ e) \<and> ptr_view T V (h @ e) y = Some (w, B) \<and>
      set B \<subseteq> {length h..<length (h @ e)}"
  proof (cases p)
    case None
    then show ?thesis using p by (intro exI[of _ None] exI[of _ "[]"]) (simp add: copy_ptr_def)
  next
    case (Some q)
    then obtain x v A where q: "fetch T h q = Some x" "V h x = Some (v, A)" "w = Some v"
      using p by (auto simp: ptr_view_Some)
    let ?h = "h @ [ty_in T (ty_zero T)]"
    obtain y e B where y: "run_state (c x) ?h = (y, ?h @ e)" "V (?h @ e) y = Some (v, B)"
        "set B \<subseteq> {length ?h..<length (?h @ e)}"
      using deep_copy.copied[OF assms(2) deep_copy.grown[OF assms(2) q(2)]] by blast
    have "length h \<notin> set B" using y(3) by auto
    from deep_copy.updated[OF assms(2) y(2) this, of "ty_in T y"]
    have "V (h @ ty_in T y # e) y = Some (v, B)" by (simp add: update_new_cell)
    then have "ptr_view T V (h @ ty_in T y # e) (Some (Ptr (length h))) = Some (w, length h # B)"
      by (simp add: ptr_view_def fetch_new[OF assms(1)] q(3))
    moreover have "run_state (copy_ptr T c p) h = (Some (Ptr (length h)), h @ ty_in T y # e)"
      using y(1) by (simp add: Some copy_ptr_def fetch_append[OF q(1)] update_new_cell)
    ultimately show ?thesis using y(3)
      by (intro exI[of _ "Some (Ptr (length h))"] exI[of _ "ty_in T y # e"] exI[of _ "length h # B"]) auto
  qed
qed

subsection \<open>Slices and maps\<close>

lemma list_view_plain [simp]: "list_view plain_view h xs = Some (xs, [])"
  by (induction xs) (simp_all add: plain_view_def)

lemma list_view_Cons:
  "list_view V h (x # xs) = Some (w, C) \<longleftrightarrow>
     (\<exists>v A vs B. V h x = Some (v, A) \<and> list_view V h xs = Some (vs, B) \<and> w = v # vs \<and> C = A @ B)"
  by (auto split: option.splits)

lemma list_view_nth:
  assumes "list_view V h xs = Some (vs, B)"
  shows "length vs = length xs \<and>
    (\<forall>j < length xs. \<exists>A. V h (xs ! j) = Some (vs ! j, A) \<and> set A \<subseteq> set B)"
  using assms
proof (induction xs arbitrary: vs B)
  case (Cons x xs)
  then obtain v A us C where x: "V h x = Some (v, A)" "list_view V h xs = Some (us, C)"
      "vs = v # us" "B = A @ C"
    by (auto split: option.splits)
  show ?case using Cons.IH[OF x(2)] x(1,3,4) by (auto simp: less_Suc_eq_0_disj) blast
qed simp

lemma list_view_intro:
  assumes "length vs = length xs" "\<And>j. j < length xs \<Longrightarrow> \<exists>A. V h (xs ! j) = Some (vs ! j, A) \<and> set A \<subseteq> S"
  shows "\<exists>B. list_view V h xs = Some (vs, B) \<and> set B \<subseteq> S"
  using assms
proof (induction xs vs rule: list_induct2')
  case (4 x xs v vs)
  obtain A where A: "V h x = Some (v, A)" "set A \<subseteq> S" using "4.prems"(2)[of 0] by auto
  have "\<exists>B. list_view V h xs = Some (vs, B) \<and> set B \<subseteq> S"
  proof (rule "4.IH")
    show "length vs = length xs" using "4.prems"(1) by simp
    show "\<exists>A. V h (xs ! j) = Some (vs ! j, A) \<and> set A \<subseteq> S" if "j < length xs" for j
      using "4.prems"(2)[of "Suc j"] that by simp
  qed
  with A show ?case by auto
qed simp_all

lemma slice_view_Some:
  "slice_view A V h (Some i) = Some (vs, C) \<longleftrightarrow>
     (\<exists>xs B. fetch A h (sl_array i) = Some xs \<and> sl_off i + sl_len i \<le> length xs \<and>
        list_view V h (window i xs) = Some (vs, B) \<and> C = addr (sl_array i) # B)"
  by (auto simp: slice_view_def split: option.splits if_splits)

context deep_copy
begin

lemma list_in_heap: "list_view V h xs = Some (vs, B) \<Longrightarrow> set B \<subseteq> {..<length h}"
proof (induction xs arbitrary: vs B)
  case (Cons x xs)
  from Cons.prems obtain v A us C where "V h x = Some (v, A)" "list_view V h xs = Some (us, C)" "B = A @ C"
    unfolding list_view_Cons by (elim exE conjE)
  with in_heap[of h x v A] Cons.IH[of us C] show ?case by simp
qed simp

lemma list_frame: "list_view V h xs = Some (vs, B) \<Longrightarrow> same_at B h h' \<Longrightarrow> list_view V h' xs = Some (vs, B)"
proof (induction xs arbitrary: vs B)
  case (Cons x xs)
  from Cons.prems(1) obtain v A us C where x: "V h x = Some (v, A)" "list_view V h xs = Some (us, C)"
      "vs = v # us" "B = A @ C"
    unfolding list_view_Cons by (elim exE conjE)
  with frame[OF x(1)] Cons.IH[OF x(2)] Cons.prems(2) show ?case by simp
qed simp

lemma slice_in_heap: "slice_view T V h s = Some (vs, C) \<Longrightarrow> set C \<subseteq> {..<length h}"
proof (cases s)
  case (Some i)
  assume "slice_view T V h s = Some (vs, C)"
  then obtain xs B where i: "fetch T h (sl_array i) = Some xs" "list_view V h (window i xs) = Some (vs, B)"
      "C = addr (sl_array i) # B"
    unfolding Some slice_view_Some by (elim exE conjE)
  show ?thesis using list_in_heap[OF i(2)] fetch_addr[OF i(1)] i(3) by simp
qed (simp add: slice_view_def)

lemma slice_frame:
  assumes s: "slice_view T V h s = Some (vs, C)" and C: "same_at C h h'"
  shows "slice_view T V h' s = Some (vs, C)"
proof (cases s)
  case (Some i)
  then obtain xs B where i: "fetch T h (sl_array i) = Some xs" "sl_off i + sl_len i \<le> length xs"
      "list_view V h (window i xs) = Some (vs, B)" "C = addr (sl_array i) # B"
    using s unfolding Some slice_view_Some by (elim exE conjE)
  have "fetch T h' (sl_array i) = Some xs" using C i(4) by (intro fetch_same_at[OF _ i(1)]) simp
  moreover have "list_view V h' (window i xs) = Some (vs, B)" using C i(4) by (intro list_frame[OF i(3)]) simp
  ultimately show ?thesis unfolding Some slice_view_Some using i(2,4) by (intro exI conjI)
qed (use s in \<open>simp add: slice_view_def\<close>)

end

lemma deep_copy_array:
  assumes "stores T"
  shows "deep_copy (slice_view T plain_view) (copy_array T z)"
proof (rule deep_copy.intro)
  fix h s vs C
  assume s: "slice_view T plain_view h s = Some (vs, C)"
  show "set C \<subseteq> {..<length h}" by (rule deep_copy.slice_in_heap[OF deep_copy_plain s])
  show "slice_view T plain_view h' s = Some (vs, C)" if "same_at C h h'" for h'
    by (rule deep_copy.slice_frame[OF deep_copy_plain s that])
  show "\<exists>y e B. run_state (copy_array T z s) h = (y, h @ e) \<and>
      slice_view T plain_view (h @ e) y = Some (vs, B) \<and> set B \<subseteq> {length h..<length (h @ e)}"
  proof (cases s)
    case None
    then show ?thesis using s
      by (intro exI[of _ None] exI[of _ "[]"]) (simp add: slice_view_def copy_array_def)
  next
    case (Some i)
    then obtain xs where i: "fetch T h (sl_array i) = Some xs" "sl_off i + sl_len i \<le> length xs"
        "vs = window i xs"
      using s unfolding Some slice_view_Some by auto
    let ?r = "\<lparr>sl_array = Ptr (length h), sl_off = 0, sl_len = sl_len i\<rparr>"
    have len: "length vs = sl_len i" using i(2,3) by (simp add: window_def)
    have "run_state (copy_array T z s) h = (Some ?r, h @ [ty_in T vs])"
      using i by (simp add: Some copy_array_def make_def fetch_append update_new_cell)
    moreover have "slice_view T plain_view (h @ [ty_in T vs]) (Some ?r) = Some (vs, [length h])"
      unfolding slice_view_Some by (simp add: fetch_new[OF assms] window_def len)
    ultimately show ?thesis
      by (intro exI[of _ "Some ?r"] exI[of _ "[ty_in T vs]"] exI[of _ "[length h]"]) simp
  qed
qed


text \<open>
  The loop over the elements. Between two rounds the heap is the original \<open>h\<close>, the new array
  and what the copied elements own, above the array; the first \<open>k\<close> of them are done.
\<close>
definition elements_done :: "('c, 't, 'v) view \<Rightarrow> 'c heap \<Rightarrow> nat \<Rightarrow> 'v list \<Rightarrow> 't list \<Rightarrow> nat \<Rightarrow> bool" where
  "elements_done V h a vs ys k \<longleftrightarrow>
     (\<forall>j < k. \<exists>B. V h (ys ! j) = Some (vs ! j, B) \<and> set B \<subseteq> {a<..<length h})"

context deep_copy
begin

lemma element_copied:
  assumes "elements_done V (h @ c # e) (length h) vs ys k"
    and y: "run_state (into x) (h @ c # e) = (y, (h @ c # e) @ f)"
      "V ((h @ c # e) @ f) y = Some (vs ! k, B)" "set B \<subseteq> {length (h @ c # e)..<length ((h @ c # e) @ f)}"
    and k: "k < length ys"
  shows "elements_done V (h @ d # (e @ f)) (length h) vs (ys[k := y]) (Suc k)"
  unfolding elements_done_def
proof (intro allI impI)
  fix j assume "j < Suc k"
  have "\<exists>B. V ((h @ c # e) @ f) (ys[k := y] ! j) = Some (vs ! j, B) \<and>
      set B \<subseteq> {length h<..<length (h @ d # (e @ f))}"
  proof (cases "j = k")
    case True
    then show ?thesis using y(2,3) k by (intro exI[of _ B]) auto
  next
    case False
    with \<open>j < Suc k\<close> assms(1) obtain B' where "V (h @ c # e) (ys ! j) = Some (vs ! j, B')"
        "set B' \<subseteq> {length h<..<length (h @ c # e)}"
      unfolding elements_done_def by (metis less_SucE)
    then show ?thesis using False grown[of "h @ c # e" "ys ! j" "vs ! j" B' f] by (intro exI[of _ B']) auto
  qed
  then obtain B where B: "V ((h @ c # e) @ f) (ys[k := y] ! j) = Some (vs ! j, B)"
      "set B \<subseteq> {length h<..<length (h @ d # (e @ f))}" by blast
  have "length h \<notin> set B" using B(2) by auto
  from updated[OF B(1) this, of d] B(2)
  show "\<exists>B. V (h @ d # (e @ f)) (ys[k := y] ! j) = Some (vs ! j, B) \<and>
      set B \<subseteq> {length h<..<length (h @ d # (e @ f))}"
    by (intro exI[of _ B]) (simp add: update_new_cell)
qed

lemma copy_elements_run:
  assumes T: "stores T" and i: "fetch T h (sl_array i) = Some xs"
    and xs: "\<And>j. j < N \<Longrightarrow> \<exists>A. V h (xs ! (sl_off i + j)) = Some (vs ! j, A)"
    and r: "r = \<lparr>sl_array = Ptr (length h), sl_off = 0, sl_len = N\<rparr>"
    and "length ys = N" "k + n = N" "elements_done V (h @ ty_in T ys # e) (length h) vs ys k"
  shows "\<exists>ys' e'. run_state (copy_elements T into i r n k) (h @ ty_in T ys # e) = ((), h @ ty_in T ys' # e') \<and>
    length ys' = N \<and> elements_done V (h @ ty_in T ys' # e') (length h) vs ys' N"
  using assms(5-)
proof (induction n arbitrary: k ys e)
  case 0
  then show ?case by auto
next
  case (Suc n)
  let ?H = "h @ ty_in T ys # e"
  obtain A where A: "V h (xs ! (sl_off i + k)) = Some (vs ! k, A)" using xs[of k] Suc.prems(2) by auto
  obtain y f B where y: "run_state (into (xs ! (sl_off i + k))) ?H = (y, ?H @ f)"
      "V (?H @ f) y = Some (vs ! k, B)" "set B \<subseteq> {length ?H..<length (?H @ f)}"
    using copied[OF grown[OF A]] by blast
  let ?ys = "ys[k := y]"
  have "elements_done V (h @ ty_in T ?ys # (e @ f)) (length h) vs ?ys (Suc k)"
    by (rule element_copied[OF Suc.prems(3) y]) (use Suc.prems in simp)
  then obtain ys' e' where IH: "run_state (copy_elements T into i r n (k + 1)) (h @ ty_in T ?ys # (e @ f)) =
      ((), h @ ty_in T ys' # e')" "length ys' = N" "elements_done V (h @ ty_in T ys' # e') (length h) vs ys' N"
    using Suc.IH[of ?ys "k + 1" "e @ f"] Suc.prems(1,2) by auto
  have "run_state (copy_elements T into i r (Suc n) k) ?H =
      run_state (copy_elements T into i r n (k + 1)) (h @ ty_in T ?ys # (e @ f))"
    using y(1) by (simp add: fetch_append[OF i] fetch_new[OF T] r update_new_cell)
  with IH show ?case by auto
qed

lemma deep_copy_slice:
  assumes T: "stores T"
  shows "deep_copy (slice_view T V) (copy_slice T z into)"
proof (rule deep_copy.intro)
  fix h s vs C
  assume s: "slice_view T V h s = Some (vs, C)"
  show "set C \<subseteq> {..<length h}" by (rule slice_in_heap[OF s])
  show "slice_view T V h' s = Some (vs, C)" if "same_at C h h'" for h' by (rule slice_frame[OF s that])
  show "\<exists>y e B. run_state (copy_slice T z into s) h = (y, h @ e) \<and>
      slice_view T V (h @ e) y = Some (vs, B) \<and> set B \<subseteq> {length h..<length (h @ e)}"
  proof (cases s)
    case None
    then show ?thesis using s
      by (intro exI[of _ None] exI[of _ "[]"]) (simp add: slice_view_def copy_slice_def)
  next
    case (Some i)
    then obtain xs B where i: "fetch T h (sl_array i) = Some xs" "sl_off i + sl_len i \<le> length xs"
        "list_view V h (window i xs) = Some (vs, B)"
      using s unfolding Some slice_view_Some by (elim exE conjE)
    let ?n = "sl_len i" and ?ys = "replicate (sl_len i) z"
    let ?r = "\<lparr>sl_array = Ptr (length h), sl_off = 0, sl_len = ?n\<rparr>"
    have el: "\<exists>A. V h (xs ! (sl_off i + j)) = Some (vs ! j, A)" if "j < ?n" for j
      using list_view_nth[OF i(3)] i(2) that by (auto simp: window_def)
    obtain ys e where ys: "run_state (copy_elements T into i ?r ?n 0) (h @ [ty_in T ?ys]) = ((), h @ ty_in T ys # e)"
        "length ys = ?n" "elements_done V (h @ ty_in T ys # e) (length h) vs ys ?n"
      using copy_elements_run[OF T i(1) el refl, of ?n ?ys 0 ?n "[]"] by (auto simp: elements_done_def)
    have "length vs = length ys" using list_view_nth[OF i(3)] i(2) ys(2) by (simp add: window_def)
    then have "\<exists>D. list_view V (h @ ty_in T ys # e) ys = Some (vs, D) \<and>
        set D \<subseteq> {length h<..<length (h @ ty_in T ys # e)}"
      by (rule list_view_intro) (use ys(2,3) in \<open>simp add: elements_done_def\<close>)
    then obtain D where D: "list_view V (h @ ty_in T ys # e) ys = Some (vs, D)"
        "set D \<subseteq> {length h<..<length (h @ ty_in T ys # e)}" by (elim exE conjE)
    have "slice_view T V (h @ ty_in T ys # e) (Some ?r) = Some (vs, length h # D)"
      unfolding slice_view_Some using D(1) ys(2) by (simp add: fetch_new[OF T] window_def)
    moreover have "run_state (copy_slice T z into s) h = (Some ?r, h @ ty_in T ys # e)"
      using ys(1) by (simp add: Some copy_slice_def make_def)
    ultimately show ?thesis using D(2)
      by (intro exI[of _ "Some ?r"] exI[of _ "ty_in T ys # e"] exI[of _ "length h # D"]) auto
  qed
qed

end

lemma update_new_key: "k \<notin> fst ` set xs \<Longrightarrow> AList.update k v xs = xs @ [(k, v)]"
  by (induction xs) auto

lemma map_entries_copied:
  assumes "distinct (map fst (xs @ kvs))" "DAList.impl_of m = xs" "stores M"
  shows "\<exists>m'. run_state (copy_entries M (Ptr (length h)) kvs) (h @ [ty_in M m]) = ((), h @ [ty_in M m']) \<and>
    DAList.impl_of m' = xs @ kvs"
  using assms(1,2)
proof (induction kvs arbitrary: xs m)
  case (Cons kv kvs)
  have "fst kv \<notin> fst ` set xs" using Cons.prems(1) by auto
  then have "DAList.impl_of (DAList.update (fst kv) (snd kv) m) = xs @ [kv]"
    by (simp add: DAList.update.rep_eq Cons.prems(2) update_new_key)
  from Cons.IH[OF _ this] Cons.prems(1) show ?case
    by (simp add: fetch_new[OF assms(3)] update_new_cell)
qed auto

lemma deep_copy_map:
  assumes "stores M"
  shows "deep_copy (map_entries_view M) (copy_map M)"
proof (rule deep_copy.intro)
  fix h p vs C
  assume p: "map_entries_view M h p = Some (vs, C)"
  then obtain w where w: "ptr_view M plain_view h p = Some (w, C)"
      "vs = (case w of None \<Rightarrow> [] | Some m \<Rightarrow> DAList.impl_of m)"
    by (auto simp: map_entries_view_def map_view_def)
  have P: "deep_copy (ptr_view M plain_view) (copy_ptr M ret)"
    by (rule deep_copy_ptr[OF assms deep_copy_plain])
  show "set C \<subseteq> {..<length h}" by (rule deep_copy.in_heap[OF P w(1)])
  show "map_entries_view M h' p = Some (vs, C)" if "same_at C h h'" for h'
    using deep_copy.frame[OF P w(1) that] w(2) by (simp add: map_entries_view_def map_view_def)
  show "\<exists>y e B. run_state (copy_map M p) h = (y, h @ e) \<and> map_entries_view M (h @ e) y = Some (vs, B) \<and>
      set B \<subseteq> {length h..<length (h @ e)}"
  proof (cases p)
    case None
    then show ?thesis using p
      by (intro exI[of _ None] exI[of _ "[]"]) (simp add: map_entries_view_def map_view_def copy_map_def)
  next
    case (Some i)
    then obtain m where m: "fetch M h i = Some m" "vs = DAList.impl_of m"
      using w unfolding Some ptr_view_Some plain_view_def by auto
    obtain m' where m': "run_state (copy_entries M (Ptr (length h)) (DAList.impl_of m)) (h @ [ty_in M DAList.empty]) =
        ((), h @ [ty_in M m'])" "DAList.impl_of m' = DAList.impl_of m"
      using map_entries_copied[of "[]" "DAList.impl_of m" DAList.empty M h] assms by (auto simp: DAList.empty.rep_eq)
    have "run_state (copy_map M p) h = (Some (Ptr (length h)), h @ [ty_in M m'])"
      using m'(1) by (simp add: Some copy_map_def fetch_append[OF m(1)])
    moreover have "map_entries_view M (h @ [ty_in M m']) (Some (Ptr (length h))) = Some (vs, [length h])"
      using m(2) m'(2)
      by (simp add: map_entries_view_def map_view_def ptr_view_def plain_view_def fetch_new[OF assms])
    ultimately show ?thesis
      by (intro exI[of _ "Some (Ptr (length h))"] exI[of _ "[ty_in M m']"] exI[of _ "[length h]"]) simp
  qed
qed

end
