(* ===== verification/Api_Memory.thy ===== *)
theory Api_Memory
  imports Go_Heap Api_Types
begin

section \<open>The API types in memory\<close>

text \<open>
  The structs of \<^verbatim>\<open>api/v1alpha1\<close> as they lie in memory, with their pointers, slices and
  maps, and one constructor of \<open>cell\<close> for each type that is ever allocated; structs without a
  pointer are the records of \<open>Api_Types\<close>. The structs of apimachinery are one opaque type
  \<open>'p\<close>, and what it provides for them are the fields of \<open>apimachinery\<close>.
\<close>

subsection \<open>Structs in memory\<close>

record type_meta =
  tm_kind :: string
  tm_api_version :: string

record 'p EventRecord =
  ER_Time :: "'p ptr option"
  ER_Type :: string
  ER_Reason :: string
  ER_Message :: string

record 'p HealRecord =
  HR_Time :: "'p ptr option"
  HR_Action :: string
  HR_Outcome :: heal_outcome
  HR_Detail :: string
  HR_Reason :: string
  HR_DecidedBy :: string

record MetricsSnapshot =
  MS_Source :: string
  MS_Samples :: "map_cell ptr option"

record 'p ObituarySpec =
  OSp_Subject :: subject
  OSp_TimeOfDeath :: "'p ptr option"
  OSp_DeathEpisodeKey :: string

record 'p ObituaryStatus =
  OSt_Phase :: obituary_phase
  OSt_Occurrences :: int32
  OSt_FirstSeen :: "'p ptr option"
  OSt_LastSeen :: "'p ptr option"
  OSt_LastEpisode :: string
  OSt_LastPod :: string
  OSt_CauseOfDeath :: string
  OSt_Confidence :: confidence
  OSt_Summary :: string
  OSt_ExitCode :: "int32 ptr option"
  OSt_Signal :: "int32 ptr option"
  OSt_OOMKilled :: bool
  OSt_RestartCount :: int32
  OSt_LogTail :: string
  OSt_EventTimeline :: "'p EventRecord slice option"
  OSt_Owners :: "owner_record slice option"
  OSt_Metrics :: "MetricsSnapshot ptr option"
  OSt_Narrative :: string
  OSt_HealAttempts :: "'p HealRecord slice option"
  OSt_LastHealAt :: "'p ptr option"
  OSt_Conditions :: "'p slice option"

record 'p Obituary =
  Ob_TypeMeta :: type_meta
  Ob_ObjectMeta :: "'p"
  Ob_Spec :: "'p ObituarySpec"
  Ob_Status :: "'p ObituaryStatus"

record 'p ObituaryList =
  OL_TypeMeta :: type_meta
  OL_ListMeta :: "'p"
  OL_Items :: "'p Obituary slice option"

record WatchPolicy =
  WP_PodCrashes :: "bool ptr option"
  WP_JobFailures :: "bool ptr option"
  WP_RolloutFailures :: "bool ptr option"
  WP_Evictions :: "bool ptr option"

record PrometheusPolicy =
  PP_Enabled :: bool
  PP_URL :: string
  PP_Queries :: "map_cell ptr option"

record NarratorPolicy =
  NP_Enabled :: bool
  NP_Provider :: string
  NP_Model :: string
  NP_APIKeySecretRef :: "secret_key_ref ptr option"
  NP_BaseURL :: string

record SelfHealLLMPolicy =
  SL_Enabled :: bool
  SL_Provider :: string
  SL_Model :: string
  SL_APIKeySecretRef :: "secret_key_ref ptr option"
  SL_BaseURL :: string

record 'p SelfHealPolicy =
  SH_Enabled :: bool
  SH_DryRun :: "bool ptr option"
  SH_MinOccurrences :: "int32 ptr option"
  SH_RequireHighConfidence :: "bool ptr option"
  SH_MaxHealsPerHour :: "int32 ptr option"
  SH_NamespaceSelector :: "'p ptr option"
  SH_Actions :: "self_heal_action slice option"
  SH_MemoryFactor :: "string ptr option"
  SH_MemoryMaxLimit :: "string ptr option"
  SH_LLM :: SelfHealLLMPolicy

record 'p KoronerConfigSpec =
  KSp_Watch :: WatchPolicy
  KSp_RestartThreshold :: "int32 ptr option"
  KSp_LogTailLines :: "int32 ptr option"
  KSp_NamespaceSelector :: "'p ptr option"
  KSp_ObituaryRetention :: "int ptr option"
  KSp_Prometheus :: PrometheusPolicy
  KSp_Narrator :: NarratorPolicy
  KSp_SelfHeal :: "'p SelfHealPolicy"

record 'p KoronerConfigStatus =
  KSt_Conditions :: "'p slice option"

record 'p KoronerConfig =
  KC_TypeMeta :: type_meta
  KC_ObjectMeta :: "'p"
  KC_Spec :: "'p KoronerConfigSpec"
  KC_Status :: "'p KoronerConfigStatus"

record 'p KoronerConfigList =
  KL_TypeMeta :: type_meta
  KL_ListMeta :: "'p"
  KL_Items :: "'p KoronerConfig slice option"

text \<open>The cells: an allocated value of each type, or the backing array of a slice\<close>
datatype 'p cell =
    C_bool bool
  | C_int32 int32
  | C_string string
  | C_Duration int
  | C_map map_cell
  | C_Lib "'p"
  | C_Subject subject
  | C_OwnerRecord owner_record
  | C_SecretKeyRef secret_key_ref
  | C_EventRecord "'p EventRecord"
  | C_HealRecord "'p HealRecord"
  | C_MetricsSnapshot MetricsSnapshot
  | C_ObituarySpec "'p ObituarySpec"
  | C_ObituaryStatus "'p ObituaryStatus"
  | C_Obituary "'p Obituary"
  | C_ObituaryList "'p ObituaryList"
  | C_WatchPolicy WatchPolicy
  | C_PrometheusPolicy PrometheusPolicy
  | C_NarratorPolicy NarratorPolicy
  | C_SelfHealLLMPolicy SelfHealLLMPolicy
  | C_SelfHealPolicy "'p SelfHealPolicy"
  | C_KoronerConfigSpec "'p KoronerConfigSpec"
  | C_KoronerConfigStatus "'p KoronerConfigStatus"
  | C_KoronerConfig "'p KoronerConfig"
  | C_KoronerConfigList "'p KoronerConfigList"
  | A_Condition "'p list"
  | A_OwnerRecord "owner_record list"
  | A_Action "self_heal_action list"
  | A_EventRecord "'p EventRecord list"
  | A_HealRecord "'p HealRecord list"
  | A_Obituary "'p Obituary list"
  | A_KoronerConfig "'p KoronerConfig list"

text \<open>
  What apimachinery provides: zero values, \<^verbatim>\<open>(*Time).DeepCopy\<close>, the methods
  \<^verbatim>\<open>DeepCopyInto\<close> of its structs, and, for the statements only, what its structs read as. Of
  the metadata of a list that is the resource version.
\<close>
record 'p apimachinery =
  am_zero_time :: 'p
  am_zero_selector :: 'p
  am_zero_condition :: 'p
  am_zero_object_meta :: 'p
  am_zero_list_meta :: 'p
  am_time_copy :: "'p ptr option \<Rightarrow> ('p cell heap, 'p ptr option) state"
  am_selector_copy_into :: "'p \<Rightarrow> ('p cell heap, 'p) state"
  am_condition_copy_into :: "'p \<Rightarrow> ('p cell heap, 'p) state"
  am_object_meta_copy_into :: "'p \<Rightarrow> ('p cell heap, 'p) state"
  am_list_meta_copy_into :: "'p \<Rightarrow> ('p cell heap, 'p) state"
  am_read_time :: "('p cell, 'p, instant) view"
  am_read_selector :: "('p cell, 'p, label_selector) view"
  am_read_condition :: "('p cell, 'p, meta_condition) view"
  am_read_object_meta :: "('p cell, 'p, object_meta) view"
  am_read_list_meta :: "('p cell, 'p, string) view"

subsection \<open>Zero values and types\<close>

definition zero_TypeMeta :: type_meta where
  "zero_TypeMeta = \<lparr>tm_kind = '''', tm_api_version = ''''\<rparr>"

definition zero_Subject :: subject where
  "zero_Subject = \<lparr>sub_api_version = '''', sub_kind = '''', sub_name = '''', sub_namespace = '''',
     sub_uid = ''''\<rparr>"

definition zero_OwnerRecord :: owner_record where
  "zero_OwnerRecord = \<lparr>ow_api_version = '''', ow_kind = '''', ow_name = ''''\<rparr>"

definition zero_SecretKeyRef :: secret_key_ref where
  "zero_SecretKeyRef = \<lparr>skr_name = '''', skr_key = '''', skr_namespace = ''''\<rparr>"

definition zero_EventRecord :: "'p apimachinery \<Rightarrow> 'p EventRecord" where
  "zero_EventRecord M = \<lparr>ER_Time = None, ER_Type = '''', ER_Reason = '''', ER_Message = ''''\<rparr>"

definition zero_HealRecord :: "'p apimachinery \<Rightarrow> 'p HealRecord" where
  "zero_HealRecord M = \<lparr>HR_Time = None, HR_Action = '''', HR_Outcome = OutcomeUnset, HR_Detail = '''',
     HR_Reason = '''', HR_DecidedBy = ''''\<rparr>"

definition zero_MetricsSnapshot :: MetricsSnapshot where
  "zero_MetricsSnapshot = \<lparr>MS_Source = '''', MS_Samples = None\<rparr>"

definition zero_ObituarySpec :: "'p apimachinery \<Rightarrow> 'p ObituarySpec" where
  "zero_ObituarySpec M = \<lparr>OSp_Subject = zero_Subject, OSp_TimeOfDeath = None, OSp_DeathEpisodeKey = ''''\<rparr>"

definition zero_ObituaryStatus :: "'p apimachinery \<Rightarrow> 'p ObituaryStatus" where
  "zero_ObituaryStatus M = \<lparr>OSt_Phase = PhaseUnset, OSt_Occurrences = 0, OSt_FirstSeen = None, OSt_LastSeen = None,
     OSt_LastEpisode = '''', OSt_LastPod = '''', OSt_CauseOfDeath = '''',
     OSt_Confidence = ConfidenceUnset, OSt_Summary = '''', OSt_ExitCode = None,
     OSt_Signal = None, OSt_OOMKilled = False, OSt_RestartCount = 0, OSt_LogTail = '''',
     OSt_EventTimeline = None, OSt_Owners = None, OSt_Metrics = None, OSt_Narrative = '''',
     OSt_HealAttempts = None, OSt_LastHealAt = None, OSt_Conditions = None\<rparr>"

definition zero_Obituary :: "'p apimachinery \<Rightarrow> 'p Obituary" where
  "zero_Obituary M = \<lparr>Ob_TypeMeta = zero_TypeMeta, Ob_ObjectMeta = am_zero_object_meta M,
     Ob_Spec = zero_ObituarySpec M, Ob_Status = zero_ObituaryStatus M\<rparr>"

definition zero_ObituaryList :: "'p apimachinery \<Rightarrow> 'p ObituaryList" where
  "zero_ObituaryList M = \<lparr>OL_TypeMeta = zero_TypeMeta, OL_ListMeta = am_zero_list_meta M, OL_Items = None\<rparr>"

definition zero_WatchPolicy :: WatchPolicy where
  "zero_WatchPolicy = \<lparr>WP_PodCrashes = None, WP_JobFailures = None, WP_RolloutFailures = None, WP_Evictions = None\<rparr>"

definition zero_PrometheusPolicy :: PrometheusPolicy where
  "zero_PrometheusPolicy = \<lparr>PP_Enabled = False, PP_URL = '''', PP_Queries = None\<rparr>"

definition zero_NarratorPolicy :: NarratorPolicy where
  "zero_NarratorPolicy = \<lparr>NP_Enabled = False, NP_Provider = '''', NP_Model = '''', NP_APIKeySecretRef = None,
     NP_BaseURL = ''''\<rparr>"

definition zero_SelfHealLLMPolicy :: SelfHealLLMPolicy where
  "zero_SelfHealLLMPolicy = \<lparr>SL_Enabled = False, SL_Provider = '''', SL_Model = '''', SL_APIKeySecretRef = None,
     SL_BaseURL = ''''\<rparr>"

definition zero_SelfHealPolicy :: "'p apimachinery \<Rightarrow> 'p SelfHealPolicy" where
  "zero_SelfHealPolicy M = \<lparr>SH_Enabled = False, SH_DryRun = None, SH_MinOccurrences = None,
     SH_RequireHighConfidence = None, SH_MaxHealsPerHour = None, SH_NamespaceSelector = None,
     SH_Actions = None, SH_MemoryFactor = None, SH_MemoryMaxLimit = None,
     SH_LLM = zero_SelfHealLLMPolicy\<rparr>"

definition zero_KoronerConfigSpec :: "'p apimachinery \<Rightarrow> 'p KoronerConfigSpec" where
  "zero_KoronerConfigSpec M = \<lparr>KSp_Watch = zero_WatchPolicy, KSp_RestartThreshold = None, KSp_LogTailLines = None,
     KSp_NamespaceSelector = None, KSp_ObituaryRetention = None,
     KSp_Prometheus = zero_PrometheusPolicy, KSp_Narrator = zero_NarratorPolicy,
     KSp_SelfHeal = zero_SelfHealPolicy M\<rparr>"

definition zero_KoronerConfigStatus :: "'p apimachinery \<Rightarrow> 'p KoronerConfigStatus" where
  "zero_KoronerConfigStatus M = \<lparr>KSt_Conditions = None\<rparr>"

definition zero_KoronerConfig :: "'p apimachinery \<Rightarrow> 'p KoronerConfig" where
  "zero_KoronerConfig M = \<lparr>KC_TypeMeta = zero_TypeMeta, KC_ObjectMeta = am_zero_object_meta M,
     KC_Spec = zero_KoronerConfigSpec M, KC_Status = zero_KoronerConfigStatus M\<rparr>"

definition zero_KoronerConfigList :: "'p apimachinery \<Rightarrow> 'p KoronerConfigList" where
  "zero_KoronerConfigList M = \<lparr>KL_TypeMeta = zero_TypeMeta, KL_ListMeta = am_zero_list_meta M, KL_Items = None\<rparr>"

definition tBool :: "('p cell, bool) go_type" where
  "tBool = \<lparr>ty_in = C_bool, ty_out = (\<lambda>c. case c of C_bool x \<Rightarrow> Some x | _ \<Rightarrow> None),
     ty_zero = False\<rparr>"

definition tInt32 :: "('p cell, int32) go_type" where
  "tInt32 = \<lparr>ty_in = C_int32, ty_out = (\<lambda>c. case c of C_int32 x \<Rightarrow> Some x | _ \<Rightarrow> None),
     ty_zero = 0\<rparr>"

definition tString :: "('p cell, string) go_type" where
  "tString = \<lparr>ty_in = C_string, ty_out = (\<lambda>c. case c of C_string x \<Rightarrow> Some x | _ \<Rightarrow> None),
     ty_zero = ''''\<rparr>"

definition tDuration :: "('p cell, int) go_type" where
  "tDuration = \<lparr>ty_in = C_Duration, ty_out = (\<lambda>c. case c of C_Duration x \<Rightarrow> Some x | _ \<Rightarrow> None),
     ty_zero = 0\<rparr>"

definition tMap :: "('p cell, map_cell) go_type" where
  "tMap = \<lparr>ty_in = C_map, ty_out = (\<lambda>c. case c of C_map x \<Rightarrow> Some x | _ \<Rightarrow> None),
     ty_zero = DAList.empty\<rparr>"

definition tTime :: "'p apimachinery \<Rightarrow> ('p cell, 'p) go_type" where
  "tTime M = \<lparr>ty_in = C_Lib, ty_out = (\<lambda>c. case c of C_Lib x \<Rightarrow> Some x | _ \<Rightarrow> None),
     ty_zero = am_zero_time M\<rparr>"

definition tLabelSelector :: "'p apimachinery \<Rightarrow> ('p cell, 'p) go_type" where
  "tLabelSelector M = \<lparr>ty_in = C_Lib, ty_out = (\<lambda>c. case c of C_Lib x \<Rightarrow> Some x | _ \<Rightarrow> None),
     ty_zero = am_zero_selector M\<rparr>"

definition tSubject :: "('p cell, subject) go_type" where
  "tSubject = \<lparr>ty_in = C_Subject, ty_out = (\<lambda>c. case c of C_Subject x \<Rightarrow> Some x | _ \<Rightarrow> None),
     ty_zero = zero_Subject\<rparr>"

definition tOwnerRecord :: "('p cell, owner_record) go_type" where
  "tOwnerRecord = \<lparr>ty_in = C_OwnerRecord, ty_out = (\<lambda>c. case c of C_OwnerRecord x \<Rightarrow> Some x | _ \<Rightarrow> None),
     ty_zero = zero_OwnerRecord\<rparr>"

definition tSecretKeyRef :: "('p cell, secret_key_ref) go_type" where
  "tSecretKeyRef = \<lparr>ty_in = C_SecretKeyRef, ty_out = (\<lambda>c. case c of C_SecretKeyRef x \<Rightarrow> Some x | _ \<Rightarrow> None),
     ty_zero = zero_SecretKeyRef\<rparr>"

definition tEventRecord :: "'p apimachinery \<Rightarrow> ('p cell, 'p EventRecord) go_type" where
  "tEventRecord M = \<lparr>ty_in = C_EventRecord, ty_out = (\<lambda>c. case c of C_EventRecord x \<Rightarrow> Some x | _ \<Rightarrow> None),
     ty_zero = zero_EventRecord M\<rparr>"

definition tHealRecord :: "'p apimachinery \<Rightarrow> ('p cell, 'p HealRecord) go_type" where
  "tHealRecord M = \<lparr>ty_in = C_HealRecord, ty_out = (\<lambda>c. case c of C_HealRecord x \<Rightarrow> Some x | _ \<Rightarrow> None),
     ty_zero = zero_HealRecord M\<rparr>"

definition tMetricsSnapshot :: "('p cell, MetricsSnapshot) go_type" where
  "tMetricsSnapshot = \<lparr>ty_in = C_MetricsSnapshot, ty_out = (\<lambda>c. case c of C_MetricsSnapshot x \<Rightarrow> Some x | _ \<Rightarrow> None),
     ty_zero = zero_MetricsSnapshot\<rparr>"

definition tObituarySpec :: "'p apimachinery \<Rightarrow> ('p cell, 'p ObituarySpec) go_type" where
  "tObituarySpec M = \<lparr>ty_in = C_ObituarySpec, ty_out = (\<lambda>c. case c of C_ObituarySpec x \<Rightarrow> Some x | _ \<Rightarrow> None),
     ty_zero = zero_ObituarySpec M\<rparr>"

definition tObituaryStatus :: "'p apimachinery \<Rightarrow> ('p cell, 'p ObituaryStatus) go_type" where
  "tObituaryStatus M = \<lparr>ty_in = C_ObituaryStatus, ty_out = (\<lambda>c. case c of C_ObituaryStatus x \<Rightarrow> Some x | _ \<Rightarrow> None),
     ty_zero = zero_ObituaryStatus M\<rparr>"

definition tObituary :: "'p apimachinery \<Rightarrow> ('p cell, 'p Obituary) go_type" where
  "tObituary M = \<lparr>ty_in = C_Obituary, ty_out = (\<lambda>c. case c of C_Obituary x \<Rightarrow> Some x | _ \<Rightarrow> None),
     ty_zero = zero_Obituary M\<rparr>"

definition tObituaryList :: "'p apimachinery \<Rightarrow> ('p cell, 'p ObituaryList) go_type" where
  "tObituaryList M = \<lparr>ty_in = C_ObituaryList, ty_out = (\<lambda>c. case c of C_ObituaryList x \<Rightarrow> Some x | _ \<Rightarrow> None),
     ty_zero = zero_ObituaryList M\<rparr>"

definition tWatchPolicy :: "('p cell, WatchPolicy) go_type" where
  "tWatchPolicy = \<lparr>ty_in = C_WatchPolicy, ty_out = (\<lambda>c. case c of C_WatchPolicy x \<Rightarrow> Some x | _ \<Rightarrow> None),
     ty_zero = zero_WatchPolicy\<rparr>"

definition tPrometheusPolicy :: "('p cell, PrometheusPolicy) go_type" where
  "tPrometheusPolicy = \<lparr>ty_in = C_PrometheusPolicy, ty_out = (\<lambda>c. case c of C_PrometheusPolicy x \<Rightarrow> Some x | _ \<Rightarrow> None),
     ty_zero = zero_PrometheusPolicy\<rparr>"

definition tNarratorPolicy :: "('p cell, NarratorPolicy) go_type" where
  "tNarratorPolicy = \<lparr>ty_in = C_NarratorPolicy, ty_out = (\<lambda>c. case c of C_NarratorPolicy x \<Rightarrow> Some x | _ \<Rightarrow> None),
     ty_zero = zero_NarratorPolicy\<rparr>"

definition tSelfHealLLMPolicy :: "('p cell, SelfHealLLMPolicy) go_type" where
  "tSelfHealLLMPolicy = \<lparr>ty_in = C_SelfHealLLMPolicy, ty_out = (\<lambda>c. case c of C_SelfHealLLMPolicy x \<Rightarrow> Some x | _ \<Rightarrow> None),
     ty_zero = zero_SelfHealLLMPolicy\<rparr>"

definition tSelfHealPolicy :: "'p apimachinery \<Rightarrow> ('p cell, 'p SelfHealPolicy) go_type" where
  "tSelfHealPolicy M = \<lparr>ty_in = C_SelfHealPolicy, ty_out = (\<lambda>c. case c of C_SelfHealPolicy x \<Rightarrow> Some x | _ \<Rightarrow> None),
     ty_zero = zero_SelfHealPolicy M\<rparr>"

definition tKoronerConfigSpec :: "'p apimachinery \<Rightarrow> ('p cell, 'p KoronerConfigSpec) go_type" where
  "tKoronerConfigSpec M = \<lparr>ty_in = C_KoronerConfigSpec, ty_out = (\<lambda>c. case c of C_KoronerConfigSpec x \<Rightarrow> Some x | _ \<Rightarrow> None),
     ty_zero = zero_KoronerConfigSpec M\<rparr>"

definition tKoronerConfigStatus :: "'p apimachinery \<Rightarrow> ('p cell, 'p KoronerConfigStatus) go_type" where
  "tKoronerConfigStatus M = \<lparr>ty_in = C_KoronerConfigStatus, ty_out = (\<lambda>c. case c of C_KoronerConfigStatus x \<Rightarrow> Some x | _ \<Rightarrow> None),
     ty_zero = zero_KoronerConfigStatus M\<rparr>"

definition tKoronerConfig :: "'p apimachinery \<Rightarrow> ('p cell, 'p KoronerConfig) go_type" where
  "tKoronerConfig M = \<lparr>ty_in = C_KoronerConfig, ty_out = (\<lambda>c. case c of C_KoronerConfig x \<Rightarrow> Some x | _ \<Rightarrow> None),
     ty_zero = zero_KoronerConfig M\<rparr>"

definition tKoronerConfigList :: "'p apimachinery \<Rightarrow> ('p cell, 'p KoronerConfigList) go_type" where
  "tKoronerConfigList M = \<lparr>ty_in = C_KoronerConfigList, ty_out = (\<lambda>c. case c of C_KoronerConfigList x \<Rightarrow> Some x | _ \<Rightarrow> None),
     ty_zero = zero_KoronerConfigList M\<rparr>"

text \<open>Backing arrays; a new one is written out by \<^const>\<open>make\<close>.\<close>
definition aCondition :: "('p cell, 'p list) go_type" where
  "aCondition = \<lparr>ty_in = A_Condition, ty_out = (\<lambda>c. case c of A_Condition x \<Rightarrow> Some x | _ \<Rightarrow> None),
     ty_zero = []\<rparr>"

definition aOwnerRecord :: "('p cell, owner_record list) go_type" where
  "aOwnerRecord = \<lparr>ty_in = A_OwnerRecord, ty_out = (\<lambda>c. case c of A_OwnerRecord x \<Rightarrow> Some x | _ \<Rightarrow> None),
     ty_zero = []\<rparr>"

definition aAction :: "('p cell, self_heal_action list) go_type" where
  "aAction = \<lparr>ty_in = A_Action, ty_out = (\<lambda>c. case c of A_Action x \<Rightarrow> Some x | _ \<Rightarrow> None),
     ty_zero = []\<rparr>"

definition aEventRecord :: "('p cell, 'p EventRecord list) go_type" where
  "aEventRecord = \<lparr>ty_in = A_EventRecord, ty_out = (\<lambda>c. case c of A_EventRecord x \<Rightarrow> Some x | _ \<Rightarrow> None),
     ty_zero = []\<rparr>"

definition aHealRecord :: "('p cell, 'p HealRecord list) go_type" where
  "aHealRecord = \<lparr>ty_in = A_HealRecord, ty_out = (\<lambda>c. case c of A_HealRecord x \<Rightarrow> Some x | _ \<Rightarrow> None),
     ty_zero = []\<rparr>"

definition aObituary :: "('p cell, 'p Obituary list) go_type" where
  "aObituary = \<lparr>ty_in = A_Obituary, ty_out = (\<lambda>c. case c of A_Obituary x \<Rightarrow> Some x | _ \<Rightarrow> None),
     ty_zero = []\<rparr>"

definition aKoronerConfig :: "('p cell, 'p KoronerConfig list) go_type" where
  "aKoronerConfig = \<lparr>ty_in = A_KoronerConfig, ty_out = (\<lambda>c. case c of A_KoronerConfig x \<Rightarrow> Some x | _ \<Rightarrow> None),
     ty_zero = []\<rparr>"

lemmas go_types = tBool_def tInt32_def tString_def tDuration_def tMap_def tTime_def tLabelSelector_def
  tSubject_def tOwnerRecord_def tSecretKeyRef_def tEventRecord_def tHealRecord_def
  tMetricsSnapshot_def tObituarySpec_def tObituaryStatus_def tObituary_def tObituaryList_def
  tWatchPolicy_def tPrometheusPolicy_def tNarratorPolicy_def tSelfHealLLMPolicy_def
  tSelfHealPolicy_def tKoronerConfigSpec_def tKoronerConfigStatus_def tKoronerConfig_def
  tKoronerConfigList_def aCondition_def aOwnerRecord_def aAction_def aEventRecord_def
  aHealRecord_def aObituary_def aKoronerConfig_def

lemma stores_tBool: "stores tBool"
  and stores_tInt32: "stores tInt32"
  and stores_tString: "stores tString"
  and stores_tDuration: "stores tDuration"
  and stores_tMap: "stores tMap"
  and stores_tTime: "stores (tTime M)"
  and stores_tLabelSelector: "stores (tLabelSelector M)"
  and stores_tSubject: "stores tSubject"
  and stores_tOwnerRecord: "stores tOwnerRecord"
  and stores_tSecretKeyRef: "stores tSecretKeyRef"
  and stores_tEventRecord: "stores (tEventRecord M)"
  and stores_tHealRecord: "stores (tHealRecord M)"
  and stores_tMetricsSnapshot: "stores tMetricsSnapshot"
  and stores_tObituarySpec: "stores (tObituarySpec M)"
  and stores_tObituaryStatus: "stores (tObituaryStatus M)"
  and stores_tObituary: "stores (tObituary M)"
  and stores_tObituaryList: "stores (tObituaryList M)"
  and stores_tWatchPolicy: "stores tWatchPolicy"
  and stores_tPrometheusPolicy: "stores tPrometheusPolicy"
  and stores_tNarratorPolicy: "stores tNarratorPolicy"
  and stores_tSelfHealLLMPolicy: "stores tSelfHealLLMPolicy"
  and stores_tSelfHealPolicy: "stores (tSelfHealPolicy M)"
  and stores_tKoronerConfigSpec: "stores (tKoronerConfigSpec M)"
  and stores_tKoronerConfigStatus: "stores (tKoronerConfigStatus M)"
  and stores_tKoronerConfig: "stores (tKoronerConfig M)"
  and stores_tKoronerConfigList: "stores (tKoronerConfigList M)"
  and stores_aCondition: "stores aCondition"
  and stores_aOwnerRecord: "stores aOwnerRecord"
  and stores_aAction: "stores aAction"
  and stores_aEventRecord: "stores aEventRecord"
  and stores_aHealRecord: "stores aHealRecord"
  and stores_aObituary: "stores aObituary"
  and stores_aKoronerConfig: "stores aKoronerConfig"
  by (simp_all add: stores_def go_types)

end
