(* ===== verification/Deep_Copy.thy ===== *)
theory Deep_Copy
  imports Api_Memory
begin

section \<open>The generated deep copies\<close>

text \<open>
  The methods of \<^verbatim>\<open>api/v1alpha1/zz_generated.deepcopy.go\<close>. A \<^verbatim>\<open>DeepCopyInto\<close> takes the struct
  its receiver points to and returns the one it writes to \<^verbatim>\<open>out\<close>: an update of the result is a
  field that the method assigns after \<^verbatim>\<open>*out = *in\<close>, and a field of the struct that is no
  pointer, slice, map or struct is what that statement has put there.
\<close>

text \<open>\<^verbatim>\<open>if in.Time != nil { in, out := &in.Time, &out.Time; *out = (*in).DeepCopy() }\<close>\<close>
definition copy_time :: "'p apimachinery \<Rightarrow> 'p ptr option \<Rightarrow> ('p cell heap, 'p ptr option) state" where
  "copy_time M p = (if p \<noteq> None then am_time_copy M p else ret None)"

definition Subject_DeepCopyInto :: "subject \<Rightarrow> ('p cell heap, subject) state" where
  "Subject_DeepCopyInto i = ret i"

definition Subject_DeepCopy :: "subject ptr option \<Rightarrow> ('p cell heap, subject ptr option) state" where
  "Subject_DeepCopy = copy_ptr tSubject Subject_DeepCopyInto"

definition OwnerRecord_DeepCopyInto :: "owner_record \<Rightarrow> ('p cell heap, owner_record) state" where
  "OwnerRecord_DeepCopyInto i = ret i"

definition OwnerRecord_DeepCopy :: "owner_record ptr option \<Rightarrow> ('p cell heap, owner_record ptr option) state" where
  "OwnerRecord_DeepCopy = copy_ptr tOwnerRecord OwnerRecord_DeepCopyInto"

definition SecretKeyRef_DeepCopyInto :: "secret_key_ref \<Rightarrow> ('p cell heap, secret_key_ref) state" where
  "SecretKeyRef_DeepCopyInto i = ret i"

definition SecretKeyRef_DeepCopy :: "secret_key_ref ptr option \<Rightarrow> ('p cell heap, secret_key_ref ptr option) state" where
  "SecretKeyRef_DeepCopy = copy_ptr tSecretKeyRef SecretKeyRef_DeepCopyInto"

definition EventRecord_DeepCopyInto :: "'p apimachinery \<Rightarrow> 'p EventRecord \<Rightarrow> ('p cell heap, 'p EventRecord) state" where
  "EventRecord_DeepCopyInto M i = do {
     time \<leftarrow> copy_time M (ER_Time i);
     ret (i\<lparr>ER_Time := time\<rparr>)
   }"

definition EventRecord_DeepCopy :: "'p apimachinery \<Rightarrow> 'p EventRecord ptr option \<Rightarrow> ('p cell heap, 'p EventRecord ptr option) state" where
  "EventRecord_DeepCopy M = copy_ptr (tEventRecord M) (EventRecord_DeepCopyInto M)"

definition HealRecord_DeepCopyInto :: "'p apimachinery \<Rightarrow> 'p HealRecord \<Rightarrow> ('p cell heap, 'p HealRecord) state" where
  "HealRecord_DeepCopyInto M i = do {
     time \<leftarrow> copy_time M (HR_Time i);
     ret (i\<lparr>HR_Time := time\<rparr>)
   }"

definition HealRecord_DeepCopy :: "'p apimachinery \<Rightarrow> 'p HealRecord ptr option \<Rightarrow> ('p cell heap, 'p HealRecord ptr option) state" where
  "HealRecord_DeepCopy M = copy_ptr (tHealRecord M) (HealRecord_DeepCopyInto M)"

definition MetricsSnapshot_DeepCopyInto :: "MetricsSnapshot \<Rightarrow> ('p cell heap, MetricsSnapshot) state" where
  "MetricsSnapshot_DeepCopyInto i = do {
     samples \<leftarrow> copy_map tMap (MS_Samples i);
     ret (i\<lparr>MS_Samples := samples\<rparr>)
   }"

definition MetricsSnapshot_DeepCopy :: "MetricsSnapshot ptr option \<Rightarrow> ('p cell heap, MetricsSnapshot ptr option) state" where
  "MetricsSnapshot_DeepCopy = copy_ptr tMetricsSnapshot MetricsSnapshot_DeepCopyInto"

definition ObituarySpec_DeepCopyInto :: "'p apimachinery \<Rightarrow> 'p ObituarySpec \<Rightarrow> ('p cell heap, 'p ObituarySpec) state" where
  "ObituarySpec_DeepCopyInto M i = do {
     timeOfDeath \<leftarrow> copy_time M (OSp_TimeOfDeath i);
     ret (i\<lparr>OSp_Subject := OSp_Subject i, OSp_TimeOfDeath := timeOfDeath\<rparr>)
   }"

definition ObituarySpec_DeepCopy :: "'p apimachinery \<Rightarrow> 'p ObituarySpec ptr option \<Rightarrow> ('p cell heap, 'p ObituarySpec ptr option) state" where
  "ObituarySpec_DeepCopy M = copy_ptr (tObituarySpec M) (ObituarySpec_DeepCopyInto M)"

definition ObituaryStatus_DeepCopyInto :: "'p apimachinery \<Rightarrow> 'p ObituaryStatus \<Rightarrow> ('p cell heap, 'p ObituaryStatus) state" where
  "ObituaryStatus_DeepCopyInto M i = do {
     firstSeen \<leftarrow> copy_time M (OSt_FirstSeen i);
     lastSeen \<leftarrow> copy_time M (OSt_LastSeen i);
     exitCode \<leftarrow> copy_ptr tInt32 ret (OSt_ExitCode i);
     signal \<leftarrow> copy_ptr tInt32 ret (OSt_Signal i);
     eventTimeline \<leftarrow> copy_slice aEventRecord (zero_EventRecord M) (EventRecord_DeepCopyInto M) (OSt_EventTimeline i);
     owners \<leftarrow> copy_array aOwnerRecord zero_OwnerRecord (OSt_Owners i);
     metrics \<leftarrow> copy_ptr tMetricsSnapshot MetricsSnapshot_DeepCopyInto (OSt_Metrics i);
     healAttempts \<leftarrow> copy_slice aHealRecord (zero_HealRecord M) (HealRecord_DeepCopyInto M) (OSt_HealAttempts i);
     lastHealAt \<leftarrow> copy_time M (OSt_LastHealAt i);
     conditions \<leftarrow> copy_slice aCondition (am_zero_condition M) (am_condition_copy_into M) (OSt_Conditions i);
     ret (i\<lparr>OSt_FirstSeen := firstSeen, OSt_LastSeen := lastSeen, OSt_ExitCode := exitCode,
       OSt_Signal := signal, OSt_EventTimeline := eventTimeline, OSt_Owners := owners,
       OSt_Metrics := metrics, OSt_HealAttempts := healAttempts, OSt_LastHealAt := lastHealAt,
       OSt_Conditions := conditions\<rparr>)
   }"

definition ObituaryStatus_DeepCopy :: "'p apimachinery \<Rightarrow> 'p ObituaryStatus ptr option \<Rightarrow> ('p cell heap, 'p ObituaryStatus ptr option) state" where
  "ObituaryStatus_DeepCopy M = copy_ptr (tObituaryStatus M) (ObituaryStatus_DeepCopyInto M)"

definition Obituary_DeepCopyInto :: "'p apimachinery \<Rightarrow> 'p Obituary \<Rightarrow> ('p cell heap, 'p Obituary) state" where
  "Obituary_DeepCopyInto M i = do {
     objectMeta \<leftarrow> am_object_meta_copy_into M (Ob_ObjectMeta i);
     spec \<leftarrow> ObituarySpec_DeepCopyInto M (Ob_Spec i);
     status \<leftarrow> ObituaryStatus_DeepCopyInto M (Ob_Status i);
     ret (i\<lparr>Ob_TypeMeta := Ob_TypeMeta i, Ob_ObjectMeta := objectMeta, Ob_Spec := spec,
       Ob_Status := status\<rparr>)
   }"

definition Obituary_DeepCopy :: "'p apimachinery \<Rightarrow> 'p Obituary ptr option \<Rightarrow> ('p cell heap, 'p Obituary ptr option) state" where
  "Obituary_DeepCopy M = copy_ptr (tObituary M) (Obituary_DeepCopyInto M)"

definition ObituaryList_DeepCopyInto :: "'p apimachinery \<Rightarrow> 'p ObituaryList \<Rightarrow> ('p cell heap, 'p ObituaryList) state" where
  "ObituaryList_DeepCopyInto M i = do {
     listMeta \<leftarrow> am_list_meta_copy_into M (OL_ListMeta i);
     items \<leftarrow> copy_slice aObituary (zero_Obituary M) (Obituary_DeepCopyInto M) (OL_Items i);
     ret (i\<lparr>OL_TypeMeta := OL_TypeMeta i, OL_ListMeta := listMeta, OL_Items := items\<rparr>)
   }"

definition ObituaryList_DeepCopy :: "'p apimachinery \<Rightarrow> 'p ObituaryList ptr option \<Rightarrow> ('p cell heap, 'p ObituaryList ptr option) state" where
  "ObituaryList_DeepCopy M = copy_ptr (tObituaryList M) (ObituaryList_DeepCopyInto M)"

definition WatchPolicy_DeepCopyInto :: "WatchPolicy \<Rightarrow> ('p cell heap, WatchPolicy) state" where
  "WatchPolicy_DeepCopyInto i = do {
     podCrashes \<leftarrow> copy_ptr tBool ret (WP_PodCrashes i);
     jobFailures \<leftarrow> copy_ptr tBool ret (WP_JobFailures i);
     rolloutFailures \<leftarrow> copy_ptr tBool ret (WP_RolloutFailures i);
     evictions \<leftarrow> copy_ptr tBool ret (WP_Evictions i);
     ret (i\<lparr>WP_PodCrashes := podCrashes, WP_JobFailures := jobFailures,
       WP_RolloutFailures := rolloutFailures, WP_Evictions := evictions\<rparr>)
   }"

definition WatchPolicy_DeepCopy :: "WatchPolicy ptr option \<Rightarrow> ('p cell heap, WatchPolicy ptr option) state" where
  "WatchPolicy_DeepCopy = copy_ptr tWatchPolicy WatchPolicy_DeepCopyInto"

definition PrometheusPolicy_DeepCopyInto :: "PrometheusPolicy \<Rightarrow> ('p cell heap, PrometheusPolicy) state" where
  "PrometheusPolicy_DeepCopyInto i = do {
     queries \<leftarrow> copy_map tMap (PP_Queries i);
     ret (i\<lparr>PP_Queries := queries\<rparr>)
   }"

definition PrometheusPolicy_DeepCopy :: "PrometheusPolicy ptr option \<Rightarrow> ('p cell heap, PrometheusPolicy ptr option) state" where
  "PrometheusPolicy_DeepCopy = copy_ptr tPrometheusPolicy PrometheusPolicy_DeepCopyInto"

definition NarratorPolicy_DeepCopyInto :: "NarratorPolicy \<Rightarrow> ('p cell heap, NarratorPolicy) state" where
  "NarratorPolicy_DeepCopyInto i = do {
     ref \<leftarrow> copy_ptr tSecretKeyRef ret (NP_APIKeySecretRef i);
     ret (i\<lparr>NP_APIKeySecretRef := ref\<rparr>)
   }"

definition NarratorPolicy_DeepCopy :: "NarratorPolicy ptr option \<Rightarrow> ('p cell heap, NarratorPolicy ptr option) state" where
  "NarratorPolicy_DeepCopy = copy_ptr tNarratorPolicy NarratorPolicy_DeepCopyInto"

definition SelfHealLLMPolicy_DeepCopyInto :: "SelfHealLLMPolicy \<Rightarrow> ('p cell heap, SelfHealLLMPolicy) state" where
  "SelfHealLLMPolicy_DeepCopyInto i = do {
     ref \<leftarrow> copy_ptr tSecretKeyRef ret (SL_APIKeySecretRef i);
     ret (i\<lparr>SL_APIKeySecretRef := ref\<rparr>)
   }"

definition SelfHealLLMPolicy_DeepCopy :: "SelfHealLLMPolicy ptr option \<Rightarrow> ('p cell heap, SelfHealLLMPolicy ptr option) state" where
  "SelfHealLLMPolicy_DeepCopy = copy_ptr tSelfHealLLMPolicy SelfHealLLMPolicy_DeepCopyInto"

definition SelfHealPolicy_DeepCopyInto :: "'p apimachinery \<Rightarrow> 'p SelfHealPolicy \<Rightarrow> ('p cell heap, 'p SelfHealPolicy) state" where
  "SelfHealPolicy_DeepCopyInto M i = do {
     dryRun \<leftarrow> copy_ptr tBool ret (SH_DryRun i);
     minOccurrences \<leftarrow> copy_ptr tInt32 ret (SH_MinOccurrences i);
     requireHighConfidence \<leftarrow> copy_ptr tBool ret (SH_RequireHighConfidence i);
     maxHealsPerHour \<leftarrow> copy_ptr tInt32 ret (SH_MaxHealsPerHour i);
     namespaceSelector \<leftarrow> copy_ptr (tLabelSelector M) (am_selector_copy_into M) (SH_NamespaceSelector i);
     actions \<leftarrow> copy_array aAction '''' (SH_Actions i);
     memoryFactor \<leftarrow> copy_ptr tString ret (SH_MemoryFactor i);
     memoryMaxLimit \<leftarrow> copy_ptr tString ret (SH_MemoryMaxLimit i);
     llm \<leftarrow> SelfHealLLMPolicy_DeepCopyInto (SH_LLM i);
     ret (i\<lparr>SH_DryRun := dryRun, SH_MinOccurrences := minOccurrences,
       SH_RequireHighConfidence := requireHighConfidence, SH_MaxHealsPerHour := maxHealsPerHour,
       SH_NamespaceSelector := namespaceSelector, SH_Actions := actions,
       SH_MemoryFactor := memoryFactor, SH_MemoryMaxLimit := memoryMaxLimit, SH_LLM := llm\<rparr>)
   }"

definition SelfHealPolicy_DeepCopy :: "'p apimachinery \<Rightarrow> 'p SelfHealPolicy ptr option \<Rightarrow> ('p cell heap, 'p SelfHealPolicy ptr option) state" where
  "SelfHealPolicy_DeepCopy M = copy_ptr (tSelfHealPolicy M) (SelfHealPolicy_DeepCopyInto M)"

definition KoronerConfigSpec_DeepCopyInto :: "'p apimachinery \<Rightarrow> 'p KoronerConfigSpec \<Rightarrow> ('p cell heap, 'p KoronerConfigSpec) state" where
  "KoronerConfigSpec_DeepCopyInto M i = do {
     watch \<leftarrow> WatchPolicy_DeepCopyInto (KSp_Watch i);
     restartThreshold \<leftarrow> copy_ptr tInt32 ret (KSp_RestartThreshold i);
     logTailLines \<leftarrow> copy_ptr tInt32 ret (KSp_LogTailLines i);
     namespaceSelector \<leftarrow> copy_ptr (tLabelSelector M) (am_selector_copy_into M) (KSp_NamespaceSelector i);
     obituaryRetention \<leftarrow> copy_ptr tDuration ret (KSp_ObituaryRetention i);
     prometheus \<leftarrow> PrometheusPolicy_DeepCopyInto (KSp_Prometheus i);
     narrator \<leftarrow> NarratorPolicy_DeepCopyInto (KSp_Narrator i);
     selfHeal \<leftarrow> SelfHealPolicy_DeepCopyInto M (KSp_SelfHeal i);
     ret (i\<lparr>KSp_Watch := watch, KSp_RestartThreshold := restartThreshold,
       KSp_LogTailLines := logTailLines, KSp_NamespaceSelector := namespaceSelector,
       KSp_ObituaryRetention := obituaryRetention, KSp_Prometheus := prometheus,
       KSp_Narrator := narrator, KSp_SelfHeal := selfHeal\<rparr>)
   }"

definition KoronerConfigSpec_DeepCopy :: "'p apimachinery \<Rightarrow> 'p KoronerConfigSpec ptr option \<Rightarrow> ('p cell heap, 'p KoronerConfigSpec ptr option) state" where
  "KoronerConfigSpec_DeepCopy M = copy_ptr (tKoronerConfigSpec M) (KoronerConfigSpec_DeepCopyInto M)"

definition KoronerConfigStatus_DeepCopyInto :: "'p apimachinery \<Rightarrow> 'p KoronerConfigStatus \<Rightarrow> ('p cell heap, 'p KoronerConfigStatus) state" where
  "KoronerConfigStatus_DeepCopyInto M i = do {
     conditions \<leftarrow> copy_slice aCondition (am_zero_condition M) (am_condition_copy_into M) (KSt_Conditions i);
     ret (i\<lparr>KSt_Conditions := conditions\<rparr>)
   }"

definition KoronerConfigStatus_DeepCopy :: "'p apimachinery \<Rightarrow> 'p KoronerConfigStatus ptr option \<Rightarrow> ('p cell heap, 'p KoronerConfigStatus ptr option) state" where
  "KoronerConfigStatus_DeepCopy M = copy_ptr (tKoronerConfigStatus M) (KoronerConfigStatus_DeepCopyInto M)"

definition KoronerConfig_DeepCopyInto :: "'p apimachinery \<Rightarrow> 'p KoronerConfig \<Rightarrow> ('p cell heap, 'p KoronerConfig) state" where
  "KoronerConfig_DeepCopyInto M i = do {
     objectMeta \<leftarrow> am_object_meta_copy_into M (KC_ObjectMeta i);
     spec \<leftarrow> KoronerConfigSpec_DeepCopyInto M (KC_Spec i);
     status \<leftarrow> KoronerConfigStatus_DeepCopyInto M (KC_Status i);
     ret (i\<lparr>KC_TypeMeta := KC_TypeMeta i, KC_ObjectMeta := objectMeta, KC_Spec := spec,
       KC_Status := status\<rparr>)
   }"

definition KoronerConfig_DeepCopy :: "'p apimachinery \<Rightarrow> 'p KoronerConfig ptr option \<Rightarrow> ('p cell heap, 'p KoronerConfig ptr option) state" where
  "KoronerConfig_DeepCopy M = copy_ptr (tKoronerConfig M) (KoronerConfig_DeepCopyInto M)"

definition KoronerConfigList_DeepCopyInto :: "'p apimachinery \<Rightarrow> 'p KoronerConfigList \<Rightarrow> ('p cell heap, 'p KoronerConfigList) state" where
  "KoronerConfigList_DeepCopyInto M i = do {
     listMeta \<leftarrow> am_list_meta_copy_into M (KL_ListMeta i);
     items \<leftarrow> copy_slice aKoronerConfig (zero_KoronerConfig M) (KoronerConfig_DeepCopyInto M) (KL_Items i);
     ret (i\<lparr>KL_TypeMeta := KL_TypeMeta i, KL_ListMeta := listMeta, KL_Items := items\<rparr>)
   }"

definition KoronerConfigList_DeepCopy :: "'p apimachinery \<Rightarrow> 'p KoronerConfigList ptr option \<Rightarrow> ('p cell heap, 'p KoronerConfigList ptr option) state" where
  "KoronerConfigList_DeepCopy M = copy_ptr (tKoronerConfigList M) (KoronerConfigList_DeepCopyInto M)"

text \<open>A value of the interface \<^verbatim>\<open>runtime.Object\<close>; nil is \<^const>\<open>None\<close>, so a constructor over a nil
  pointer, Go's typed nil, cannot be confused with it.\<close>
datatype 'p runtime_object =
    O_Obituary "'p Obituary ptr option"
  | O_ObituaryList "'p ObituaryList ptr option"
  | O_KoronerConfig "'p KoronerConfig ptr option"
  | O_KoronerConfigList "'p KoronerConfigList ptr option"

definition Obituary_DeepCopyObject ::
  "'p apimachinery \<Rightarrow> 'p Obituary ptr option \<Rightarrow> ('p cell heap, 'p runtime_object option) state" where
  "Obituary_DeepCopyObject M p = do {
     c \<leftarrow> Obituary_DeepCopy M p;
     (if c \<noteq> None then ret (Some (O_Obituary c)) else ret None)
   }"

definition ObituaryList_DeepCopyObject ::
  "'p apimachinery \<Rightarrow> 'p ObituaryList ptr option \<Rightarrow> ('p cell heap, 'p runtime_object option) state" where
  "ObituaryList_DeepCopyObject M p = do {
     c \<leftarrow> ObituaryList_DeepCopy M p;
     (if c \<noteq> None then ret (Some (O_ObituaryList c)) else ret None)
   }"

definition KoronerConfig_DeepCopyObject ::
  "'p apimachinery \<Rightarrow> 'p KoronerConfig ptr option \<Rightarrow> ('p cell heap, 'p runtime_object option) state" where
  "KoronerConfig_DeepCopyObject M p = do {
     c \<leftarrow> KoronerConfig_DeepCopy M p;
     (if c \<noteq> None then ret (Some (O_KoronerConfig c)) else ret None)
   }"

definition KoronerConfigList_DeepCopyObject ::
  "'p apimachinery \<Rightarrow> 'p KoronerConfigList ptr option \<Rightarrow> ('p cell heap, 'p runtime_object option) state" where
  "KoronerConfigList_DeepCopyObject M p = do {
     c \<leftarrow> KoronerConfigList_DeepCopy M p;
     (if c \<noteq> None then ret (Some (O_KoronerConfigList c)) else ret None)
   }"

end
