(* ===== verification/Deep_Copy_Laws.thy ===== *)
theory Deep_Copy_Laws
  imports Deep_Copy
begin

section \<open>Every generated copy is deep\<close>

text \<open>
  The views read the structs in memory as the records of \<open>Api_Types\<close>; \<open>deep_copy\<close> is
  interpreted on each \<^verbatim>\<open>DeepCopyInto\<close>: outright where a struct holds nothing of
  apimachinery, under the contract of apimachinery's own copies otherwise.
\<close>

subsection \<open>What the structs read as\<close>

text \<open>\<open>_value\<close> builds a record of the model from the plain fields of a struct and what the others read as.\<close>

definition EventRecord_value ::
  "'p EventRecord \<Rightarrow> instant option \<Rightarrow> event_record" where
  "EventRecord_value x time =
     \<lparr>ev_time = time, ev_type = ER_Type x, ev_reason = ER_Reason x, ev_message = ER_Message x\<rparr>"

definition EventRecord_view :: "'p apimachinery \<Rightarrow> ('p cell, 'p EventRecord, event_record) view" where
  "EventRecord_view M h x = map_view (EventRecord_value x)
     (ptr_view (tTime M) (am_read_time M) h
       (ER_Time x))"

definition HealRecord_value ::
  "'p HealRecord \<Rightarrow> instant option \<Rightarrow> heal_record" where
  "HealRecord_value x time =
     \<lparr>hr_time = time, hr_action = HR_Action x, hr_outcome = HR_Outcome x, hr_detail = HR_Detail x,
     hr_reason = HR_Reason x, hr_decided_by = HR_DecidedBy x\<rparr>"

definition HealRecord_view :: "'p apimachinery \<Rightarrow> ('p cell, 'p HealRecord, heal_record) view" where
  "HealRecord_view M h x = map_view (HealRecord_value x)
     (ptr_view (tTime M) (am_read_time M) h
       (HR_Time x))"

definition MetricsSnapshot_value ::
  "MetricsSnapshot \<Rightarrow> (string \<times> string) list \<Rightarrow> metrics_snapshot" where
  "MetricsSnapshot_value x samples =
     \<lparr>ms_source = MS_Source x, ms_samples = map_of samples\<rparr>"

definition MetricsSnapshot_view :: "('p cell, MetricsSnapshot, metrics_snapshot) view" where
  "MetricsSnapshot_view h x = map_view (MetricsSnapshot_value x)
     (map_entries_view tMap h
       (MS_Samples x))"

definition ObituarySpec_value ::
  "'p ObituarySpec \<Rightarrow> instant option \<Rightarrow> obituary_spec" where
  "ObituarySpec_value x timeOfDeath =
     \<lparr>sp_subject = OSp_Subject x, sp_time_of_death = timeOfDeath,
     sp_death_episode_key = OSp_DeathEpisodeKey x\<rparr>"

definition ObituarySpec_view :: "'p apimachinery \<Rightarrow> ('p cell, 'p ObituarySpec, obituary_spec) view" where
  "ObituarySpec_view M h x = map_view (ObituarySpec_value x)
     (ptr_view (tTime M) (am_read_time M) h
       (OSp_TimeOfDeath x))"

definition ObituaryStatus_value ::
  "'p ObituaryStatus \<Rightarrow> instant option \<times> instant option \<times> int32 option \<times> int32 option \<times> event_record list \<times> owner_record list \<times> metrics_snapshot option \<times> heal_record list \<times> instant option \<times> meta_condition list \<Rightarrow> obituary_status" where
  "ObituaryStatus_value x = (\<lambda>(firstSeen, lastSeen, exitCode, signal, eventTimeline, owners, metrics, healAttempts, lastHealAt, conditions).
     \<lparr>st_phase = OSt_Phase x, st_occurrences = OSt_Occurrences x, st_first_seen = firstSeen,
     st_last_seen = lastSeen, st_last_episode = OSt_LastEpisode x, st_last_pod = OSt_LastPod x,
     st_cause_of_death = OSt_CauseOfDeath x, st_confidence = OSt_Confidence x,
     st_summary = OSt_Summary x, st_exit_code = exitCode, st_signal = signal,
     st_oom_killed = OSt_OOMKilled x, st_restart_count = OSt_RestartCount x,
     st_log_tail = OSt_LogTail x, st_event_timeline = eventTimeline, st_owners = owners,
     st_metrics = metrics, st_narrative = OSt_Narrative x, st_heal_attempts = healAttempts,
     st_last_heal_at = lastHealAt, st_conditions = conditions\<rparr>)"

definition ObituaryStatus_view :: "'p apimachinery \<Rightarrow> ('p cell, 'p ObituaryStatus, obituary_status) view" where
  "ObituaryStatus_view M h x = map_view (ObituaryStatus_value x)
     (pair_view (ptr_view (tTime M) (am_read_time M))
       (pair_view (ptr_view (tTime M) (am_read_time M))
       (pair_view (ptr_view tInt32 plain_view)
       (pair_view (ptr_view tInt32 plain_view)
       (pair_view (slice_view aEventRecord (EventRecord_view M))
       (pair_view (slice_view aOwnerRecord plain_view)
       (pair_view (ptr_view tMetricsSnapshot MetricsSnapshot_view)
       (pair_view (slice_view aHealRecord (HealRecord_view M))
       (pair_view (ptr_view (tTime M) (am_read_time M))
       (slice_view aCondition (am_read_condition M)))))))))) h
       (OSt_FirstSeen x, OSt_LastSeen x, OSt_ExitCode x, OSt_Signal x, OSt_EventTimeline x,
        OSt_Owners x, OSt_Metrics x, OSt_HealAttempts x, OSt_LastHealAt x, OSt_Conditions x))"

definition Obituary_value ::
  "'p Obituary \<Rightarrow> object_meta \<times> obituary_spec \<times> obituary_status \<Rightarrow> type_meta \<times> obituary" where
  "Obituary_value x = (\<lambda>(objectMeta, spec, status).
     (Ob_TypeMeta x, \<lparr>obit_meta = objectMeta, obit_spec = spec, obit_status = status\<rparr>))"

definition Obituary_view :: "'p apimachinery \<Rightarrow> ('p cell, 'p Obituary, type_meta \<times> obituary) view" where
  "Obituary_view M h x = map_view (Obituary_value x)
     (pair_view (am_read_object_meta M)
       (pair_view (ObituarySpec_view M)
       (ObituaryStatus_view M)) h
       (Ob_ObjectMeta x, Ob_Spec x, Ob_Status x))"

definition ObituaryList_value ::
  "'p ObituaryList \<Rightarrow> string \<times> (type_meta \<times> obituary) list \<Rightarrow> type_meta \<times> string \<times> (type_meta \<times> obituary) list" where
  "ObituaryList_value x = (\<lambda>(listMeta, items).
     (OL_TypeMeta x, listMeta, items))"

definition ObituaryList_view :: "'p apimachinery \<Rightarrow> ('p cell, 'p ObituaryList, type_meta \<times> string \<times> (type_meta \<times> obituary) list) view" where
  "ObituaryList_view M h x = map_view (ObituaryList_value x)
     (pair_view (am_read_list_meta M)
       (slice_view aObituary (Obituary_view M)) h
       (OL_ListMeta x, OL_Items x))"

definition WatchPolicy_value ::
  "WatchPolicy \<Rightarrow> bool option \<times> bool option \<times> bool option \<times> bool option \<Rightarrow> watch_policy" where
  "WatchPolicy_value x = (\<lambda>(podCrashes, jobFailures, rolloutFailures, evictions).
     \<lparr>wp_pod_crashes = podCrashes, wp_job_failures = jobFailures,
     wp_rollout_failures = rolloutFailures, wp_evictions = evictions\<rparr>)"

definition WatchPolicy_view :: "('p cell, WatchPolicy, watch_policy) view" where
  "WatchPolicy_view h x = map_view (WatchPolicy_value x)
     (pair_view (ptr_view tBool plain_view)
       (pair_view (ptr_view tBool plain_view)
       (pair_view (ptr_view tBool plain_view)
       (ptr_view tBool plain_view))) h
       (WP_PodCrashes x, WP_JobFailures x, WP_RolloutFailures x, WP_Evictions x))"

definition PrometheusPolicy_value ::
  "PrometheusPolicy \<Rightarrow> (string \<times> string) list \<Rightarrow> prometheus_policy" where
  "PrometheusPolicy_value x queries =
     \<lparr>prom_enabled = PP_Enabled x, prom_url = PP_URL x, prom_queries = queries\<rparr>"

definition PrometheusPolicy_view :: "('p cell, PrometheusPolicy, prometheus_policy) view" where
  "PrometheusPolicy_view h x = map_view (PrometheusPolicy_value x)
     (map_entries_view tMap h
       (PP_Queries x))"

definition NarratorPolicy_value ::
  "NarratorPolicy \<Rightarrow> secret_key_ref option \<Rightarrow> narrator_policy" where
  "NarratorPolicy_value x ref =
     \<lparr>np_enabled = NP_Enabled x, np_provider = NP_Provider x, np_model = NP_Model x,
     np_api_key_secret_ref = ref, np_base_url = NP_BaseURL x\<rparr>"

definition NarratorPolicy_view :: "('p cell, NarratorPolicy, narrator_policy) view" where
  "NarratorPolicy_view h x = map_view (NarratorPolicy_value x)
     (ptr_view tSecretKeyRef plain_view h
       (NP_APIKeySecretRef x))"

definition SelfHealLLMPolicy_value ::
  "SelfHealLLMPolicy \<Rightarrow> secret_key_ref option \<Rightarrow> self_heal_llm_policy" where
  "SelfHealLLMPolicy_value x ref =
     \<lparr>hl_enabled = SL_Enabled x, hl_provider = SL_Provider x, hl_model = SL_Model x,
     hl_api_key_secret_ref = ref, hl_base_url = SL_BaseURL x\<rparr>"

definition SelfHealLLMPolicy_view :: "('p cell, SelfHealLLMPolicy, self_heal_llm_policy) view" where
  "SelfHealLLMPolicy_view h x = map_view (SelfHealLLMPolicy_value x)
     (ptr_view tSecretKeyRef plain_view h
       (SL_APIKeySecretRef x))"

definition SelfHealPolicy_value ::
  "'p SelfHealPolicy \<Rightarrow> bool option \<times> int32 option \<times> bool option \<times> int32 option \<times> label_selector option \<times> self_heal_action list \<times> string option \<times> string option \<times> self_heal_llm_policy \<Rightarrow> self_heal_policy" where
  "SelfHealPolicy_value x = (\<lambda>(dryRun, minOccurrences, requireHighConfidence, maxHealsPerHour, namespaceSelector, actions, memoryFactor, memoryMaxLimit, llm).
     \<lparr>hp_enabled = SH_Enabled x, hp_dry_run = dryRun, hp_min_occurrences = minOccurrences,
     hp_require_high_confidence = requireHighConfidence, hp_max_heals_per_hour = maxHealsPerHour,
     hp_namespace_selector = namespaceSelector, hp_actions = actions,
     hp_memory_factor = memoryFactor, hp_memory_max_limit = memoryMaxLimit, hp_llm = llm\<rparr>)"

definition SelfHealPolicy_view :: "'p apimachinery \<Rightarrow> ('p cell, 'p SelfHealPolicy, self_heal_policy) view" where
  "SelfHealPolicy_view M h x = map_view (SelfHealPolicy_value x)
     (pair_view (ptr_view tBool plain_view)
       (pair_view (ptr_view tInt32 plain_view)
       (pair_view (ptr_view tBool plain_view)
       (pair_view (ptr_view tInt32 plain_view)
       (pair_view (ptr_view (tLabelSelector M) (am_read_selector M))
       (pair_view (slice_view aAction plain_view)
       (pair_view (ptr_view tString plain_view)
       (pair_view (ptr_view tString plain_view)
       (SelfHealLLMPolicy_view)))))))) h
       (SH_DryRun x, SH_MinOccurrences x, SH_RequireHighConfidence x, SH_MaxHealsPerHour x,
        SH_NamespaceSelector x, SH_Actions x, SH_MemoryFactor x, SH_MemoryMaxLimit x, SH_LLM x))"

definition KoronerConfigSpec_value ::
  "'p KoronerConfigSpec \<Rightarrow> watch_policy \<times> int32 option \<times> int32 option \<times> label_selector option \<times> int option \<times> prometheus_policy \<times> narrator_policy \<times> self_heal_policy \<Rightarrow> koroner_config_spec" where
  "KoronerConfigSpec_value x = (\<lambda>(watch, restartThreshold, logTailLines, namespaceSelector, obituaryRetention, prometheus, narrator, selfHeal).
     \<lparr>cfg_watch = watch, cfg_restart_threshold = restartThreshold,
     cfg_log_tail_lines = logTailLines, cfg_namespace_selector = namespaceSelector,
     cfg_obituary_retention = obituaryRetention, cfg_prometheus = prometheus,
     cfg_narrator = narrator, cfg_self_heal = selfHeal\<rparr>)"

definition KoronerConfigSpec_view :: "'p apimachinery \<Rightarrow> ('p cell, 'p KoronerConfigSpec, koroner_config_spec) view" where
  "KoronerConfigSpec_view M h x = map_view (KoronerConfigSpec_value x)
     (pair_view WatchPolicy_view
       (pair_view (ptr_view tInt32 plain_view)
       (pair_view (ptr_view tInt32 plain_view)
       (pair_view (ptr_view (tLabelSelector M) (am_read_selector M))
       (pair_view (ptr_view tDuration plain_view)
       (pair_view PrometheusPolicy_view
       (pair_view NarratorPolicy_view
       (SelfHealPolicy_view M))))))) h
       (KSp_Watch x, KSp_RestartThreshold x, KSp_LogTailLines x, KSp_NamespaceSelector x,
        KSp_ObituaryRetention x, KSp_Prometheus x, KSp_Narrator x, KSp_SelfHeal x))"

definition KoronerConfigStatus_value ::
  "'p KoronerConfigStatus \<Rightarrow> meta_condition list \<Rightarrow> meta_condition list" where
  "KoronerConfigStatus_value x conditions =
     conditions"

definition KoronerConfigStatus_view :: "'p apimachinery \<Rightarrow> ('p cell, 'p KoronerConfigStatus, meta_condition list) view" where
  "KoronerConfigStatus_view M h x = map_view (KoronerConfigStatus_value x)
     (slice_view aCondition (am_read_condition M) h
       (KSt_Conditions x))"

definition KoronerConfig_value ::
  "'p KoronerConfig \<Rightarrow> object_meta \<times> koroner_config_spec \<times> meta_condition list \<Rightarrow> type_meta \<times> koroner_config" where
  "KoronerConfig_value x = (\<lambda>(objectMeta, spec, status).
     (KC_TypeMeta x, \<lparr>kc_meta = objectMeta, kc_spec = spec, kc_conditions = status\<rparr>))"

definition KoronerConfig_view :: "'p apimachinery \<Rightarrow> ('p cell, 'p KoronerConfig, type_meta \<times> koroner_config) view" where
  "KoronerConfig_view M h x = map_view (KoronerConfig_value x)
     (pair_view (am_read_object_meta M)
       (pair_view (KoronerConfigSpec_view M)
       (KoronerConfigStatus_view M)) h
       (KC_ObjectMeta x, KC_Spec x, KC_Status x))"

definition KoronerConfigList_value ::
  "'p KoronerConfigList \<Rightarrow> string \<times> (type_meta \<times> koroner_config) list \<Rightarrow> type_meta \<times> string \<times> (type_meta \<times> koroner_config) list" where
  "KoronerConfigList_value x = (\<lambda>(listMeta, items).
     (KL_TypeMeta x, listMeta, items))"

definition KoronerConfigList_view :: "'p apimachinery \<Rightarrow> ('p cell, 'p KoronerConfigList, type_meta \<times> string \<times> (type_meta \<times> koroner_config) list) view" where
  "KoronerConfigList_view M h x = map_view (KoronerConfigList_value x)
     (pair_view (am_read_list_meta M)
       (slice_view aKoronerConfig (KoronerConfig_view M)) h
       (KL_ListMeta x, KL_Items x))"

subsection \<open>The contract\<close>

lemmas bool_field = deep_copy_ptr[OF stores_tBool deep_copy_plain]
lemmas int32_field = deep_copy_ptr[OF stores_tInt32 deep_copy_plain]
lemmas string_field = deep_copy_ptr[OF stores_tString deep_copy_plain]
lemmas duration_field = deep_copy_ptr[OF stores_tDuration deep_copy_plain]
lemmas secret_ref_field = deep_copy_ptr[OF stores_tSecretKeyRef deep_copy_plain]

lemma deep_copyI:
  assumes "deep_copy V c" and "view = (\<lambda>h x. map_view (g x) (V h (get x)))"
    and "into = (\<lambda>x. do { y \<leftarrow> c (get x); ret (put x y) })"
    and "\<And>x y. get (put x y) = y" "\<And>x y. g (put x y) = g x"
  shows "deep_copy view into"
  unfolding assms(2,3) by (rule deep_copy_struct[OF assms(1,4,5)])

locale apimachinery_copies =
  fixes M :: "'p apimachinery"
  assumes time: "deep_copy (ptr_view (tTime M) (am_read_time M)) (am_time_copy M)"
    and selector: "deep_copy (am_read_selector M) (am_selector_copy_into M)"
    and condition: "deep_copy (am_read_condition M) (am_condition_copy_into M)"
    and object_meta: "deep_copy (am_read_object_meta M) (am_object_meta_copy_into M)"
    and list_meta: "deep_copy (am_read_list_meta M) (am_list_meta_copy_into M)"
begin

lemma time_field: "deep_copy (ptr_view (tTime M) (am_read_time M)) (copy_time M)"
proof (rule deep_copy.intro)
  fix h p v A
  assume p: "ptr_view (tTime M) (am_read_time M) h p = Some (v, A)"
  show "set A \<subseteq> {..<length h}" by (rule deep_copy.in_heap[OF time p])
  show "ptr_view (tTime M) (am_read_time M) h' p = Some (v, A)" if "same_at A h h'" for h'
    by (rule deep_copy.frame[OF time p that])
  show "\<exists>y e B. run_state (copy_time M p) h = (y, h @ e) \<and>
      ptr_view (tTime M) (am_read_time M) (h @ e) y = Some (v, B) \<and> set B \<subseteq> {length h..<length (h @ e)}"
    using p deep_copy.copied[OF time p] by (cases p) (auto simp: copy_time_def)
qed

lemmas selector_field = deep_copy_ptr[OF stores_tLabelSelector selector]
lemmas conditions_field = deep_copy.deep_copy_slice[OF condition stores_aCondition]

end

interpretation Subject: deep_copy plain_view Subject_DeepCopyInto
  unfolding Subject_DeepCopyInto_def[abs_def] by (rule deep_copy_plain)

interpretation OwnerRecord: deep_copy plain_view OwnerRecord_DeepCopyInto
  unfolding OwnerRecord_DeepCopyInto_def[abs_def] by (rule deep_copy_plain)

interpretation SecretKeyRef: deep_copy plain_view SecretKeyRef_DeepCopyInto
  unfolding SecretKeyRef_DeepCopyInto_def[abs_def] by (rule deep_copy_plain)

sublocale apimachinery_copies \<subseteq> EventRecord: deep_copy "EventRecord_view M" "EventRecord_DeepCopyInto M"
  by (rule deep_copyI[OF
    time_field,
      where get = "ER_Time"
      and put = "\<lambda>x time.
      x\<lparr>ER_Time := time\<rparr>"
      and g = EventRecord_value])
    (auto simp: fun_eq_iff EventRecord_view_def EventRecord_DeepCopyInto_def EventRecord_value_def)

sublocale apimachinery_copies \<subseteq> HealRecord: deep_copy "HealRecord_view M" "HealRecord_DeepCopyInto M"
  by (rule deep_copyI[OF
    time_field,
      where get = "HR_Time"
      and put = "\<lambda>x time.
      x\<lparr>HR_Time := time\<rparr>"
      and g = HealRecord_value])
    (auto simp: fun_eq_iff HealRecord_view_def HealRecord_DeepCopyInto_def HealRecord_value_def)

interpretation MetricsSnapshot: deep_copy MetricsSnapshot_view MetricsSnapshot_DeepCopyInto
  by (rule deep_copyI[OF
    deep_copy_map[OF stores_tMap],
      where get = "MS_Samples"
      and put = "\<lambda>x samples.
      x\<lparr>MS_Samples := samples\<rparr>"
      and g = MetricsSnapshot_value])
    (auto simp: fun_eq_iff MetricsSnapshot_view_def MetricsSnapshot_DeepCopyInto_def MetricsSnapshot_value_def)

sublocale apimachinery_copies \<subseteq> ObituarySpec: deep_copy "ObituarySpec_view M" "ObituarySpec_DeepCopyInto M"
  by (rule deep_copyI[OF
    time_field,
      where get = "OSp_TimeOfDeath"
      and put = "\<lambda>x timeOfDeath.
      x\<lparr>OSp_TimeOfDeath := timeOfDeath\<rparr>"
      and g = ObituarySpec_value])
    (auto simp: fun_eq_iff ObituarySpec_view_def ObituarySpec_DeepCopyInto_def ObituarySpec_value_def)

sublocale apimachinery_copies \<subseteq> ObituaryStatus: deep_copy "ObituaryStatus_view M" "ObituaryStatus_DeepCopyInto M"
  by (rule deep_copyI[OF
    deep_copy_pair[OF time_field
    deep_copy_pair[OF time_field
    deep_copy_pair[OF int32_field
    deep_copy_pair[OF int32_field
    deep_copy_pair[OF EventRecord.deep_copy_slice[OF stores_aEventRecord]
    deep_copy_pair[OF deep_copy_array[OF stores_aOwnerRecord]
    deep_copy_pair[OF deep_copy_ptr[OF stores_tMetricsSnapshot MetricsSnapshot.deep_copy_axioms]
    deep_copy_pair[OF HealRecord.deep_copy_slice[OF stores_aHealRecord]
    deep_copy_pair[OF time_field
    conditions_field]]]]]]]]],
      where get = "\<lambda>x. (OSt_FirstSeen x, OSt_LastSeen x, OSt_ExitCode x, OSt_Signal x, OSt_EventTimeline x,
      OSt_Owners x, OSt_Metrics x, OSt_HealAttempts x, OSt_LastHealAt x, OSt_Conditions x)"
      and put = "\<lambda>x (firstSeen, lastSeen, exitCode, signal, eventTimeline, owners, metrics, healAttempts,
      lastHealAt, conditions).
      x\<lparr>OSt_FirstSeen := firstSeen, OSt_LastSeen := lastSeen, OSt_ExitCode := exitCode,
      OSt_Signal := signal, OSt_EventTimeline := eventTimeline, OSt_Owners := owners,
      OSt_Metrics := metrics, OSt_HealAttempts := healAttempts, OSt_LastHealAt := lastHealAt,
      OSt_Conditions := conditions\<rparr>"
      and g = ObituaryStatus_value])
    (auto simp: fun_eq_iff ObituaryStatus_view_def ObituaryStatus_DeepCopyInto_def ObituaryStatus_value_def)

sublocale apimachinery_copies \<subseteq> Obituary: deep_copy "Obituary_view M" "Obituary_DeepCopyInto M"
  by (rule deep_copyI[OF
    deep_copy_pair[OF object_meta
    deep_copy_pair[OF ObituarySpec.deep_copy_axioms
    ObituaryStatus.deep_copy_axioms]],
      where get = "\<lambda>x. (Ob_ObjectMeta x, Ob_Spec x, Ob_Status x)"
      and put = "\<lambda>x (objectMeta, spec, status).
      x\<lparr>Ob_ObjectMeta := objectMeta, Ob_Spec := spec, Ob_Status := status\<rparr>"
      and g = Obituary_value])
    (auto simp: fun_eq_iff Obituary_view_def Obituary_DeepCopyInto_def Obituary_value_def)

sublocale apimachinery_copies \<subseteq> ObituaryList: deep_copy "ObituaryList_view M" "ObituaryList_DeepCopyInto M"
  by (rule deep_copyI[OF
    deep_copy_pair[OF list_meta
    Obituary.deep_copy_slice[OF stores_aObituary]],
      where get = "\<lambda>x. (OL_ListMeta x, OL_Items x)"
      and put = "\<lambda>x (listMeta, items).
      x\<lparr>OL_ListMeta := listMeta, OL_Items := items\<rparr>"
      and g = ObituaryList_value])
    (auto simp: fun_eq_iff ObituaryList_view_def ObituaryList_DeepCopyInto_def ObituaryList_value_def)

interpretation WatchPolicy: deep_copy WatchPolicy_view WatchPolicy_DeepCopyInto
  by (rule deep_copyI[OF
    deep_copy_pair[OF bool_field
    deep_copy_pair[OF bool_field
    deep_copy_pair[OF bool_field
    bool_field]]],
      where get = "\<lambda>x. (WP_PodCrashes x, WP_JobFailures x, WP_RolloutFailures x, WP_Evictions x)"
      and put = "\<lambda>x (podCrashes, jobFailures, rolloutFailures, evictions).
      x\<lparr>WP_PodCrashes := podCrashes, WP_JobFailures := jobFailures,
      WP_RolloutFailures := rolloutFailures, WP_Evictions := evictions\<rparr>"
      and g = WatchPolicy_value])
    (auto simp: fun_eq_iff WatchPolicy_view_def WatchPolicy_DeepCopyInto_def WatchPolicy_value_def)

interpretation PrometheusPolicy: deep_copy PrometheusPolicy_view PrometheusPolicy_DeepCopyInto
  by (rule deep_copyI[OF
    deep_copy_map[OF stores_tMap],
      where get = "PP_Queries"
      and put = "\<lambda>x queries.
      x\<lparr>PP_Queries := queries\<rparr>"
      and g = PrometheusPolicy_value])
    (auto simp: fun_eq_iff PrometheusPolicy_view_def PrometheusPolicy_DeepCopyInto_def PrometheusPolicy_value_def)

interpretation NarratorPolicy: deep_copy NarratorPolicy_view NarratorPolicy_DeepCopyInto
  by (rule deep_copyI[OF
    secret_ref_field,
      where get = "NP_APIKeySecretRef"
      and put = "\<lambda>x ref.
      x\<lparr>NP_APIKeySecretRef := ref\<rparr>"
      and g = NarratorPolicy_value])
    (auto simp: fun_eq_iff NarratorPolicy_view_def NarratorPolicy_DeepCopyInto_def NarratorPolicy_value_def)

interpretation SelfHealLLMPolicy: deep_copy SelfHealLLMPolicy_view SelfHealLLMPolicy_DeepCopyInto
  by (rule deep_copyI[OF
    secret_ref_field,
      where get = "SL_APIKeySecretRef"
      and put = "\<lambda>x ref.
      x\<lparr>SL_APIKeySecretRef := ref\<rparr>"
      and g = SelfHealLLMPolicy_value])
    (auto simp: fun_eq_iff SelfHealLLMPolicy_view_def SelfHealLLMPolicy_DeepCopyInto_def SelfHealLLMPolicy_value_def)

sublocale apimachinery_copies \<subseteq> SelfHealPolicy: deep_copy "SelfHealPolicy_view M" "SelfHealPolicy_DeepCopyInto M"
  by (rule deep_copyI[OF
    deep_copy_pair[OF bool_field
    deep_copy_pair[OF int32_field
    deep_copy_pair[OF bool_field
    deep_copy_pair[OF int32_field
    deep_copy_pair[OF selector_field
    deep_copy_pair[OF deep_copy_array[OF stores_aAction]
    deep_copy_pair[OF string_field
    deep_copy_pair[OF string_field
    SelfHealLLMPolicy.deep_copy_axioms]]]]]]]],
      where get = "\<lambda>x. (SH_DryRun x, SH_MinOccurrences x, SH_RequireHighConfidence x, SH_MaxHealsPerHour x,
      SH_NamespaceSelector x, SH_Actions x, SH_MemoryFactor x, SH_MemoryMaxLimit x, SH_LLM x)"
      and put = "\<lambda>x (dryRun, minOccurrences, requireHighConfidence, maxHealsPerHour, namespaceSelector, actions,
      memoryFactor, memoryMaxLimit, llm).
      x\<lparr>SH_DryRun := dryRun, SH_MinOccurrences := minOccurrences,
      SH_RequireHighConfidence := requireHighConfidence, SH_MaxHealsPerHour := maxHealsPerHour,
      SH_NamespaceSelector := namespaceSelector, SH_Actions := actions,
      SH_MemoryFactor := memoryFactor, SH_MemoryMaxLimit := memoryMaxLimit, SH_LLM := llm\<rparr>"
      and g = SelfHealPolicy_value])
    (auto simp: fun_eq_iff SelfHealPolicy_view_def SelfHealPolicy_DeepCopyInto_def SelfHealPolicy_value_def)

sublocale apimachinery_copies \<subseteq> KoronerConfigSpec: deep_copy "KoronerConfigSpec_view M" "KoronerConfigSpec_DeepCopyInto M"
  by (rule deep_copyI[OF
    deep_copy_pair[OF WatchPolicy.deep_copy_axioms
    deep_copy_pair[OF int32_field
    deep_copy_pair[OF int32_field
    deep_copy_pair[OF selector_field
    deep_copy_pair[OF duration_field
    deep_copy_pair[OF PrometheusPolicy.deep_copy_axioms
    deep_copy_pair[OF NarratorPolicy.deep_copy_axioms
    SelfHealPolicy.deep_copy_axioms]]]]]]],
      where get = "\<lambda>x. (KSp_Watch x, KSp_RestartThreshold x, KSp_LogTailLines x, KSp_NamespaceSelector x,
      KSp_ObituaryRetention x, KSp_Prometheus x, KSp_Narrator x, KSp_SelfHeal x)"
      and put = "\<lambda>x (watch, restartThreshold, logTailLines, namespaceSelector, obituaryRetention, prometheus,
      narrator, selfHeal).
      x\<lparr>KSp_Watch := watch, KSp_RestartThreshold := restartThreshold,
      KSp_LogTailLines := logTailLines, KSp_NamespaceSelector := namespaceSelector,
      KSp_ObituaryRetention := obituaryRetention, KSp_Prometheus := prometheus,
      KSp_Narrator := narrator, KSp_SelfHeal := selfHeal\<rparr>"
      and g = KoronerConfigSpec_value])
    (auto simp: fun_eq_iff KoronerConfigSpec_view_def KoronerConfigSpec_DeepCopyInto_def KoronerConfigSpec_value_def)

sublocale apimachinery_copies \<subseteq> KoronerConfigStatus: deep_copy "KoronerConfigStatus_view M" "KoronerConfigStatus_DeepCopyInto M"
  by (rule deep_copyI[OF
    conditions_field,
      where get = "KSt_Conditions"
      and put = "\<lambda>x conditions.
      x\<lparr>KSt_Conditions := conditions\<rparr>"
      and g = KoronerConfigStatus_value])
    (auto simp: fun_eq_iff KoronerConfigStatus_view_def KoronerConfigStatus_DeepCopyInto_def KoronerConfigStatus_value_def)

sublocale apimachinery_copies \<subseteq> KoronerConfig: deep_copy "KoronerConfig_view M" "KoronerConfig_DeepCopyInto M"
  by (rule deep_copyI[OF
    deep_copy_pair[OF object_meta
    deep_copy_pair[OF KoronerConfigSpec.deep_copy_axioms
    KoronerConfigStatus.deep_copy_axioms]],
      where get = "\<lambda>x. (KC_ObjectMeta x, KC_Spec x, KC_Status x)"
      and put = "\<lambda>x (objectMeta, spec, status).
      x\<lparr>KC_ObjectMeta := objectMeta, KC_Spec := spec, KC_Status := status\<rparr>"
      and g = KoronerConfig_value])
    (auto simp: fun_eq_iff KoronerConfig_view_def KoronerConfig_DeepCopyInto_def KoronerConfig_value_def)

sublocale apimachinery_copies \<subseteq> KoronerConfigList: deep_copy "KoronerConfigList_view M" "KoronerConfigList_DeepCopyInto M"
  by (rule deep_copyI[OF
    deep_copy_pair[OF list_meta
    KoronerConfig.deep_copy_slice[OF stores_aKoronerConfig]],
      where get = "\<lambda>x. (KL_ListMeta x, KL_Items x)"
      and put = "\<lambda>x (listMeta, items).
      x\<lparr>KL_ListMeta := listMeta, KL_Items := items\<rparr>"
      and g = KoronerConfigList_value])
    (auto simp: fun_eq_iff KoronerConfigList_view_def KoronerConfigList_DeepCopyInto_def KoronerConfigList_value_def)

end
