(* ===== verification/Copying.thy ===== *)
theory Copying
  imports Deep_Copy_Laws
begin

section \<open>What a reader of the cache may do with its copy\<close>

text \<open>
  The client hands out objects of its cache as copies, and the reconcilers change what they get:
  they append to the audit trail, set pointers, write into maps. Everywhere else in this
  development an object is a HOL value, which nobody else can change; the properties here are
  what makes that faithful. \<open>apart\<close> says that \<open>p\<close> and \<open>q\<close> read as the same value, have no
  cell in common, and that neither sees any later assignment to cells the other one owns.
\<close>

definition apart :: "('c, 't, 'v) view \<Rightarrow> 'c heap \<Rightarrow> 't \<Rightarrow> 't \<Rightarrow> 'v \<Rightarrow> nat list \<Rightarrow> nat list \<Rightarrow> bool" where
  "apart V h p q v A B \<longleftrightarrow>
     V h p = Some (v, A) \<and> V h q = Some (v, B) \<and> set A \<inter> set B = {} \<and>
     (\<forall>ws. fst ` set ws \<inter> set A = {} \<longrightarrow> V (writes ws h) p = Some (v, A)) \<and>
     (\<forall>ws. fst ` set ws \<inter> set B = {} \<longrightarrow> V (writes ws h) q = Some (v, B))"

abbreviation Obituary_ptr_view :: "'p apimachinery \<Rightarrow> ('p cell, 'p Obituary ptr option, (type_meta \<times> obituary) option) view" where
  "Obituary_ptr_view M \<equiv> ptr_view (tObituary M) (Obituary_view M)"

abbreviation KoronerConfig_ptr_view ::
  "'p apimachinery \<Rightarrow> ('p cell, 'p KoronerConfig ptr option, (type_meta \<times> koroner_config) option) view" where
  "KoronerConfig_ptr_view M \<equiv> ptr_view (tKoronerConfig M) (KoronerConfig_view M)"

lemma copy_ptr_apart:
  assumes "stores T" "deep_copy V into" "ptr_view T V h (Some p) = Some (v, A)"
  shows "\<exists>q h' B. run_state (copy_ptr T into (Some p)) h = (Some q, h') \<and>
    apart (ptr_view T V) h' (Some p) (Some q) v A B"
proof -
  from deep_copy.copy_is_apart[OF deep_copy_ptr[OF assms(1,2)] assms(3)]
  obtain y h' B where y: "run_state (copy_ptr T into (Some p)) h = (y, h')"
      and a: "apart (ptr_view T V) h' (Some p) y v A B"
    unfolding apart_def by blast
  have "v \<noteq> None" using assms(3) by (auto simp: ptr_view_Some)
  with a have "y \<noteq> None" by (auto simp: apart_def)
  with y a show ?thesis by auto
qed

context apimachinery_copies
begin

lemma Obituary_copied:
  assumes "Obituary_ptr_view M h (Some p) = Some (v, A)"
  shows "\<exists>q h' B. run_state (Obituary_DeepCopyObject M (Some p)) h = (Some (O_Obituary (Some q)), h') \<and>
    apart (Obituary_ptr_view M) h' (Some p) (Some q) v A B"
  using copy_ptr_apart[OF stores_tObituary Obituary.deep_copy_axioms assms]
  by (auto simp: Obituary_DeepCopyObject_def Obituary_DeepCopy_def)

lemma ObituaryList_copied:
  assumes "ptr_view (tObituaryList M) (ObituaryList_view M) h (Some p) = Some (v, A)"
  shows "\<exists>q h' B. run_state (ObituaryList_DeepCopyObject M (Some p)) h = (Some (O_ObituaryList (Some q)), h') \<and>
    apart (ptr_view (tObituaryList M) (ObituaryList_view M)) h' (Some p) (Some q) v A B"
  using copy_ptr_apart[OF stores_tObituaryList ObituaryList.deep_copy_axioms assms]
  by (auto simp: ObituaryList_DeepCopyObject_def ObituaryList_DeepCopy_def)

lemma KoronerConfig_copied:
  assumes "KoronerConfig_ptr_view M h (Some p) = Some (v, A)"
  shows "\<exists>q h' B. run_state (KoronerConfig_DeepCopyObject M (Some p)) h = (Some (O_KoronerConfig (Some q)), h') \<and>
    apart (KoronerConfig_ptr_view M) h' (Some p) (Some q) v A B"
  using copy_ptr_apart[OF stores_tKoronerConfig KoronerConfig.deep_copy_axioms assms]
  by (auto simp: KoronerConfig_DeepCopyObject_def KoronerConfig_DeepCopy_def)

lemma KoronerConfigList_copied:
  assumes "ptr_view (tKoronerConfigList M) (KoronerConfigList_view M) h (Some p) = Some (v, A)"
  shows "\<exists>q h' B. run_state (KoronerConfigList_DeepCopyObject M (Some p)) h = (Some (O_KoronerConfigList (Some q)), h') \<and>
    apart (ptr_view (tKoronerConfigList M) (KoronerConfigList_view M)) h' (Some p) (Some q) v A B"
  using copy_ptr_apart[OF stores_tKoronerConfigList KoronerConfigList.deep_copy_axioms assms]
  by (auto simp: KoronerConfigList_DeepCopyObject_def KoronerConfigList_DeepCopy_def)

end

text \<open>A nil pointer is copied to the nil interface, not to a typed nil, and nothing is allocated.\<close>
lemma nil_copied:
  "run_state (Obituary_DeepCopyObject M None) h = (None, h)"
  "run_state (ObituaryList_DeepCopyObject M None) h = (None, h)"
  "run_state (KoronerConfig_DeepCopyObject M None) h = (None, h)"
  "run_state (KoronerConfigList_DeepCopyObject M None) h = (None, h)"
  by (simp_all add: copy_ptr_def Obituary_DeepCopyObject_def Obituary_DeepCopy_def ObituaryList_DeepCopyObject_def
      ObituaryList_DeepCopy_def KoronerConfig_DeepCopyObject_def KoronerConfig_DeepCopy_def
      KoronerConfigList_DeepCopyObject_def KoronerConfigList_DeepCopy_def)

subsection \<open>An apimachinery to run the copies on\<close>

text \<open>
  One struct plays all of apimachinery's: times, conditions and list metadata are plain, while
  object metadata and selectors keep their labels in a map, which their copies duplicate.
\<close>
record api_struct =
  as_time :: instant
  as_condition :: meta_condition
  as_meta :: object_meta
  as_resource_version :: string
  as_labels :: "map_cell ptr option"

definition zero_struct :: api_struct where
  "zero_struct = \<lparr>as_time = 0, as_condition = \<lparr>mc_type = '''', mc_status = '''', mc_reason = '''', mc_message = ''''\<rparr>,
     as_meta = zero_meta, as_resource_version = '''', as_labels = None\<rparr>"

definition struct_type :: "(api_struct cell, api_struct) go_type" where
  "struct_type = \<lparr>ty_in = C_Lib, ty_out = (\<lambda>c. case c of C_Lib x \<Rightarrow> Some x | _ \<Rightarrow> None), ty_zero = zero_struct\<rparr>"

definition labels_copy_into :: "api_struct \<Rightarrow> (api_struct cell heap, api_struct) state" where
  "labels_copy_into i = do { m \<leftarrow> copy_map tMap (as_labels i); ret (i\<lparr>as_labels := m\<rparr>) }"

definition reads_field :: "(api_struct \<Rightarrow> 'v) \<Rightarrow> (api_struct cell, api_struct, 'v) view" where
  "reads_field f h x = map_view (\<lambda>u. f x) (plain_view h x)"

definition reads_meta :: "(api_struct cell, api_struct, object_meta) view" where
  "reads_meta h x = map_view (\<lambda>kvs. (as_meta x)\<lparr>om_labels := Some (map_of kvs)\<rparr>) (map_entries_view tMap h (as_labels x))"

definition reads_selector :: "(api_struct cell, api_struct, label_selector) view" where
  "reads_selector h x =
     map_view (\<lambda>kvs. \<lparr>ls_match_labels = kvs, ls_match_expressions = []\<rparr>) (map_entries_view tMap h (as_labels x))"

definition sample_apimachinery :: "api_struct apimachinery" where
  "sample_apimachinery = \<lparr>am_zero_time = zero_struct, am_zero_selector = zero_struct,
     am_zero_condition = zero_struct, am_zero_object_meta = zero_struct, am_zero_list_meta = zero_struct,
     am_time_copy = copy_ptr struct_type ret, am_selector_copy_into = labels_copy_into,
     am_condition_copy_into = ret, am_object_meta_copy_into = labels_copy_into, am_list_meta_copy_into = ret,
     am_read_time = reads_field as_time, am_read_selector = reads_selector,
     am_read_condition = reads_field as_condition, am_read_object_meta = reads_meta,
     am_read_list_meta = reads_field as_resource_version\<rparr>"

lemma deep_copy_reads_field: "deep_copy (reads_field f) ret"
  by (rule deep_copyI[OF deep_copy_plain, where get = "\<lambda>x. x" and put = "\<lambda>x y. y" and g = "\<lambda>x y. f y"])
    (auto simp: fun_eq_iff reads_field_def plain_view_def map_view_def)

lemma deep_copy_reads_meta: "deep_copy reads_meta labels_copy_into"
  by (rule deep_copyI[OF deep_copy_map[OF stores_tMap], where get = as_labels
      and put = "\<lambda>x m. x\<lparr>as_labels := m\<rparr>" and g = "\<lambda>x kvs. (as_meta x)\<lparr>om_labels := Some (map_of kvs)\<rparr>"])
    (simp_all add: fun_eq_iff reads_meta_def labels_copy_into_def)

lemma deep_copy_reads_selector: "deep_copy reads_selector labels_copy_into"
  by (rule deep_copyI[OF deep_copy_map[OF stores_tMap], where get = as_labels
      and put = "\<lambda>x m. x\<lparr>as_labels := m\<rparr>" and g = "\<lambda>x kvs. \<lparr>ls_match_labels = kvs, ls_match_expressions = []\<rparr>"])
    (simp_all add: fun_eq_iff reads_selector_def labels_copy_into_def)

interpretation sample_copies: apimachinery_copies sample_apimachinery
proof (rule apimachinery_copies.intro)
  have "tTime sample_apimachinery = struct_type"
    by (simp add: tTime_def struct_type_def sample_apimachinery_def)
  moreover have "stores struct_type" by (simp add: stores_def struct_type_def)
  ultimately show "deep_copy (ptr_view (tTime sample_apimachinery) (am_read_time sample_apimachinery))
      (am_time_copy sample_apimachinery)"
    using deep_copy_ptr[OF _ deep_copy_reads_field[of as_time]] by (simp add: sample_apimachinery_def)
qed (simp_all add: sample_apimachinery_def deep_copy_reads_field deep_copy_reads_meta deep_copy_reads_selector)

text \<open>
  An obituary in the cache with one record in its audit trail, labels, and a time that the record
  and the status share.
\<close>
definition cached_time :: "api_struct ptr option" where
  "cached_time = Some (Ptr 2)"

definition cached_record :: "api_struct HealRecord" where
  "cached_record = (zero_HealRecord sample_apimachinery)
     \<lparr>HR_Time := cached_time, HR_Action := ''DeletePod'', HR_Outcome := HealApplied\<rparr>"

definition cached_obituary :: "api_struct Obituary" where
  "cached_obituary = (zero_Obituary sample_apimachinery)
     \<lparr>Ob_ObjectMeta := zero_struct\<lparr>as_labels := Some (Ptr 3)\<rparr>,
      Ob_Status := (zero_ObituaryStatus sample_apimachinery)
        \<lparr>OSt_HealAttempts := Some \<lparr>sl_array = Ptr 1, sl_off = 0, sl_len = 1\<rparr>,
         OSt_LastHealAt := cached_time\<rparr>\<rparr>"

definition obituary_cache :: "api_struct cell heap" where
  "obituary_cache = [C_Obituary cached_obituary, A_HealRecord [cached_record],
     C_Lib (zero_struct\<lparr>as_time := 1000\<rparr>), C_map (DAList.update ''app'' ''web'' DAList.empty)]"

lemmas copy_samples = cached_time_def cached_record_def cached_obituary_def obituary_cache_def
  sample_apimachinery_def zero_struct_def

lemmas struct_views = Obituary_view_def ObituarySpec_view_def ObituaryStatus_view_def HealRecord_view_def
  EventRecord_view_def MetricsSnapshot_view_def map_entries_view_def slice_view_def ptr_view_def
  pair_view_def map_view_def plain_view_def fetch_def window_def go_types
  reads_meta_def reads_field_def reads_selector_def

lemma obituary_cache_read:
  "\<exists>v. Obituary_ptr_view sample_apimachinery obituary_cache (Some (Ptr 0)) = Some (v, [0, 3, 1, 2, 2])"
  by (simp add: struct_views copy_samples zero_HealRecord_def zero_Obituary_def zero_ObituaryStatus_def zero_ObituarySpec_def)

text \<open>A policy in the cache with a flag, a namespace selector with its labels, actions and a secret\<close>
definition cached_config :: "api_struct KoronerConfig" where
  "cached_config = (zero_KoronerConfig sample_apimachinery)
     \<lparr>KC_Spec := (zero_KoronerConfigSpec sample_apimachinery)
        \<lparr>KSp_Watch := zero_WatchPolicy\<lparr>WP_Evictions := Some (Ptr 1)\<rparr>,
         KSp_NamespaceSelector := Some (Ptr 2),
         KSp_SelfHeal := (zero_SelfHealPolicy sample_apimachinery)
           \<lparr>SH_Actions := Some \<lparr>sl_array = Ptr 4, sl_off = 0, sl_len = 1\<rparr>,
            SH_LLM := zero_SelfHealLLMPolicy\<lparr>SL_APIKeySecretRef := Some (Ptr 5)\<rparr>\<rparr>\<rparr>\<rparr>"

definition config_cache :: "api_struct cell heap" where
  "config_cache = [C_KoronerConfig cached_config, C_bool False, C_Lib (zero_struct\<lparr>as_labels := Some (Ptr 3)\<rparr>),
     C_map (DAList.update ''team'' ''infra'' DAList.empty), A_Action [''DeletePod'', ''BumpMemory''],
     C_SecretKeyRef zero_SecretKeyRef]"

lemma config_cache_read:
  "\<exists>v. KoronerConfig_ptr_view sample_apimachinery config_cache (Some (Ptr 0)) = Some (v, [0, 1, 2, 3, 4, 5])"
  by (simp add: struct_views KoronerConfig_view_def KoronerConfigSpec_view_def KoronerConfigStatus_view_def
      WatchPolicy_view_def PrometheusPolicy_view_def NarratorPolicy_view_def SelfHealPolicy_view_def
      SelfHealLLMPolicy_view_def copy_samples cached_config_def config_cache_def zero_KoronerConfig_def
      zero_KoronerConfigSpec_def zero_KoronerConfigStatus_def zero_WatchPolicy_def zero_PrometheusPolicy_def
      zero_NarratorPolicy_def zero_SelfHealPolicy_def zero_SelfHealLLMPolicy_def)

subsection \<open>The properties\<close>

text \<open>
  C28: a deep copy of an obituary reads as the original, audit trail, timeline, owners, metrics and
  all, and lies in cells of its own: whatever is later written to other cells, the original keeps
  its value, and so does the copy. A nil obituary is copied to a nil interface.
\<close>
theorem obituary_copy_is_apart:
  assumes "apimachinery_copies M" and "Obituary_ptr_view M h (Some p) = Some (v, A)"
  shows "(\<exists>q h' B. run_state (Obituary_DeepCopyObject M (Some p)) h = (Some (O_Obituary (Some q)), h') \<and>
      apart (Obituary_ptr_view M) h' (Some p) (Some q) v A B) \<and>
    run_state (Obituary_DeepCopyObject M None) h = (None, h)"
  using apimachinery_copies.Obituary_copied[OF assms] nil_copied(1) by blast

corollary obituary_copy_is_apart_witness:
  "\<exists>v q h' B. run_state (Obituary_DeepCopyObject sample_apimachinery (Some (Ptr 0))) obituary_cache =
      (Some (O_Obituary (Some q)), h') \<and>
    Obituary_ptr_view sample_apimachinery (writes [(2, C_Lib zero_struct)] h') (Some q) = Some (v, B)"
proof -
  obtain v where "Obituary_ptr_view sample_apimachinery obituary_cache (Some (Ptr 0)) = Some (v, [0, 3, 1, 2, 2])"
    using obituary_cache_read by blast
  from obituary_copy_is_apart[OF sample_copies.apimachinery_copies_axioms this, THEN conjunct1]
  obtain q h' B where q: "run_state (Obituary_DeepCopyObject sample_apimachinery (Some (Ptr 0))) obituary_cache =
        (Some (O_Obituary (Some q)), h')"
      and "apart (Obituary_ptr_view sample_apimachinery) h' (Some (Ptr 0)) (Some q) v [0, 3, 1, 2, 2] B"
    by (elim exE conjE)
  then have "Obituary_ptr_view sample_apimachinery (writes [(2, C_Lib zero_struct)] h') (Some q) = Some (v, B)"
    unfolding apart_def by (elim conjE allE[of _ "[(2, C_Lib zero_struct)]"]) auto
  with q show ?thesis by blast
qed

text \<open>
  C29: the same for the policy: pointers, selectors with their labels, query maps, actions and
  secret references of the copy are its own, so that a reconciler that fills in defaults in its
  copy never changes the policy in the cache.
\<close>
theorem config_copy_is_apart:
  assumes "apimachinery_copies M" and "KoronerConfig_ptr_view M h (Some p) = Some (v, A)"
  shows "(\<exists>q h' B. run_state (KoronerConfig_DeepCopyObject M (Some p)) h = (Some (O_KoronerConfig (Some q)), h') \<and>
      apart (KoronerConfig_ptr_view M) h' (Some p) (Some q) v A B) \<and>
    run_state (KoronerConfig_DeepCopyObject M None) h = (None, h)"
  using apimachinery_copies.KoronerConfig_copied[OF assms] nil_copied(3) by blast

corollary config_copy_is_apart_witness:
  "\<exists>v q h' B. run_state (KoronerConfig_DeepCopyObject sample_apimachinery (Some (Ptr 0))) config_cache =
      (Some (O_KoronerConfig (Some q)), h') \<and>
    apart (KoronerConfig_ptr_view sample_apimachinery) h' (Some (Ptr 0)) (Some q) v [0, 1, 2, 3, 4, 5] B"
proof -
  obtain v where "KoronerConfig_ptr_view sample_apimachinery config_cache (Some (Ptr 0)) = Some (v, [0, 1, 2, 3, 4, 5])"
    using config_cache_read by blast
  from config_copy_is_apart[OF sample_copies.apimachinery_copies_axioms this] show ?thesis by blast
qed

end
