(* ===== verification/Spec2Isabelle.thy ===== *)
theory Spec2Isabelle
  imports Recording Healing Investigating Faults Providers Starting Copying
begin

text \<open>
  Koroner is a Kubernetes operator that writes an obituary for each workload that keeps dying:
  it watches pods and Jobs, gathers evidence about a death, diagnoses a cause, files the death
  under a known issue in an \<^verbatim>\<open>Obituary\<close> object, and may heal the workload within the limits
  of a policy. This development models its Go code (\<^verbatim>\<open>api/v1alpha1\<close>,
  \<^verbatim>\<open>internal/controller\<close>, \<^verbatim>\<open>internal/forensics\<close>,
  \<^verbatim>\<open>internal/selfheal\<close>, \<^verbatim>\<open>internal/bootstrap\<close>, \<^verbatim>\<open>cmd/main.go\<close>) and proves
  what each part promises and what they promise together.

  \<^bold>\<open>How the parts interact.\<close> A reconcile of a pod (\<open>PodReconcile\<close>) resolves the policy
  (\<open>resolveConfig\<close>), looks for a death (\<open>detectPodDeath\<close>), walks the owners (\<open>OwnerChain\<close>), lists
  the events (\<open>Events\<close>), diagnoses (\<open>diagnose\<close>), stops if the obituary of the issue has counted
  the episode already (\<open>episode_gate\<close>), and otherwise collects logs and metrics, lets a narrator
  write (\<open>runNarrator\<close>) and records the death (\<open>upsertObituary\<close>). Then the engine may heal
  (\<open>MaybeHeal\<close>): gates, a decider (\<open>HealDeciderFactory\<close>), the rate limiter (\<open>reserve\<close>), an
  executor, and one entry in the obituary's audit trail. A reconcile of a Job follows the same
  path without logs and metrics. The process itself (\<open>main\<close>) reads its flags, wires both
  reconcilers to one engine, registers the seeder of the default policy and runs the manager.

  \<^bold>\<open>Conventions.\<close> Go structs are records, enumerations are datatypes, a pointer is an option (but
  for the deep copies, where it is the index of a cell in a heap), an
  \<^verbatim>\<open>int32\<close> or \<^verbatim>\<open>int64\<close> is a word of that width, a string is its bytes, an error
  result is an option or the left side of a sum. Code that calls the cluster, the network or the
  clock is a computation of the state monad over an opaque world. Definitions keep the names of
  the code; where one Go function is split, the parts are named after what they compute and the
  function itself composes them.

  \<^bold>\<open>Theories and the code they model.\<close>
  \<^item> \<open>Prelude\<close>, \<open>Effects\<close>, \<open>Go_Text\<close>, \<open>Float64\<close>: errors as values, lemma collections, frames over the
    state monad, and what the code uses of Go's \<^verbatim>\<open>strings\<close>, \<^verbatim>\<open>unicode/utf8\<close>,
    \<^verbatim>\<open>fmt\<close>, \<^verbatim>\<open>encoding/hex\<close> and floating point.
  \<^item> \<open>Sha256\<close>, \<open>Civil_Time\<close>: \<^verbatim>\<open>crypto/sha256\<close> with its constants and a test vector checked,
    and the RFC 3339 text of an instant, whose date is proved right for every instant.
  \<^item> \<open>Json\<close>, \<open>Json_Round_Trip\<close>: \<^verbatim>\<open>encoding/json\<close> as the code uses it, the writer, the scanner as a
    machine over bytes, decoding into structs with its rules for null, case and repeated keys;
    parsing what was written gives it back. \<open>Json_Replies\<close>: what the decoders of the code make of
    the documented replies of the providers and of Prometheus.
  \<^item> \<open>Api_Types\<close>, \<open>Defaults\<close>: \<^verbatim>\<open>api/v1alpha1/*_types.go\<close> and \<^verbatim>\<open>defaults.go\<close>.
  \<^item> \<open>Go_Heap\<close>: typed cells, pointers, slices and maps, the statements of which deep copies are made,
    and their contract. \<open>Api_Memory\<close>: the same types of \<^verbatim>\<open>api/v1alpha1\<close> as they lie in
    memory. \<open>Deep_Copy\<close>: every method of \<^verbatim>\<open>zz_generated.deepcopy.go\<close>; \<open>Deep_Copy_Laws\<close>: what
    the structs in memory read as, as records of \<open>Api_Types\<close>, and that each copy is deep.
  \<^item> \<open>Kube\<close>: the client, the HTTP client and the clock as records of computations, the pure library
    functions as a record, and the contract of retrying on conflict. \<open>Mem_Server\<close>: an executable
    cluster with optimistic concurrency and scripted other writers, on which the contracts are
    interpreted; it is no part of the program.
  \<^item> \<open>Diagnosis\<close>, \<open>Topology\<close>, \<open>Evidence\<close>, \<open>Narrator\<close>: \<^verbatim>\<open>internal/forensics\<close>.
  \<^item> \<open>Naming\<close>, \<open>Obituary_Store\<close>, \<open>Counting\<close>, \<open>Config_Resolve\<close>:
    \<^verbatim>\<open>internal/controller/koroner.go\<close>, the third what its counts are worth among other writers,
    and \<^verbatim>\<open>internal/bootstrap/defaultconfig.go\<close>.
  \<^item> \<open>Reconciler\<close>, \<open>Pod_Reconciler\<close>, \<open>Job_Reconciler\<close>: \<^verbatim>\<open>pod_controller.go\<close> and
    \<^verbatim>\<open>job_controller.go\<close>.
  \<^item> \<open>Rate_Limit\<close>, \<open>Decider\<close>, \<open>LLM_Decider\<close>, \<open>Memory\<close>, \<open>Actions\<close>, \<open>Engine\<close>:
    \<^verbatim>\<open>internal/selfheal\<close>; \<open>heal_engine\<close> is the engine as \<^verbatim>\<open>cmd/main.go\<close> wires it.
  \<^item> \<open>Startup\<close>: \<^verbatim>\<open>cmd/main.go\<close> and the controllers' \<^verbatim>\<open>SetupWithManager\<close>.
  \<^item> \<open>Cluster\<close>, \<open>Lifecycle\<close>: the handlers against a cluster without faults, and the running
    operator as a step relation. \<open>Faults\<close>: the same operator where calls fail, the process stops
    and others write.
  \<^item> \<open>Sample\<close>: concrete values for the applications. \<open>Recording\<close>, \<open>Healing\<close>, \<open>Investigating\<close>,
    \<open>Providers\<close>, \<open>Starting\<close>, \<open>Copying\<close> and this theory: the properties, C1 to C40.

  \<^bold>\<open>Contracts.\<close> Where one part relies on another, the promise is a locale, interpreted on the
  definitions that provide it: \<open>retry_contract\<close>, \<open>obit_server\<close> (optimistic concurrency, with stale
  reads, other writers and failures at any call), \<open>counting_server\<close> (the same, and the other writers
  count by the rule), \<open>quiet_server\<close> (no other writer and no fault),
  \<open>collect_frame\<close> (what the calls of an investigation keep), \<open>quiet_cluster\<close>, \<open>quiet_heal\<close> and
  \<open>quiet_koroner\<close> (calls that are not about obituaries leave them alone), \<open>shared_koroner\<close> (all of
  them may fail, and others write, but keep the obituaries in order), \<open>steady_owners\<close>,
  \<open>strict_weak_order\<close> (a sort's less function), \<open>slice_sort\<close> (what a sort promises), \<open>heal_limiter\<close>,
  \<open>decider\<close>, \<open>executor_frame\<close>, \<open>decide_frame\<close>, \<open>act_frame\<close>, \<open>quantities\<close> (what
  \<^verbatim>\<open>resource.Quantity\<close> documents), \<open>deep_copy\<close> (a copy reads as the original, in cells of its own)
  and \<open>apimachinery_copies\<close> (the library's own copies are deep). Each property names the contract it needs as a premise
  and is applied to the executable cluster right after it.

  \<^bold>\<open>What is shown.\<close> \<open>Recording\<close>: the upsert refines a pure step, counts episodes, keeps the counts
  exact among other writers, creates only where nothing lives; keys and names identify issues;
  detection and diagnosis on every branch. \<open>Healing\<close>: what a heal may do and must record, that
  gates and dry runs leave no trace, the hourly budget, which decisions deciders can take, the
  memory arithmetic with float64 rounding and int64 bounds, what the executors write.
  \<open>Investigating\<close>: the owner walk, the timeline, the policy, its exact defaults and its seeding.
  \<open>Providers\<close>: requests are well-formed whatever the evidence holds, a decision is obeyed from the HTTP reply on, a
  lone closing brace in its reason loses it, a Prometheus value reaches the snapshot. \<open>Starting\<close>: the
  steps of a start and the servers' options. \<open>Copying\<close>: a copy taken from the cache and its
  original never see writes to each other, which is what justifies values for objects everywhere
  else. Here: both handlers end in an obituary, every reachable state of an operator in a cluster
  without faults keeps the obituaries complete, and with faults, stops and other writers none is
  ever out of order.

  \<^bold>\<open>Bounds.\<close> The owner walk takes the six hops of \<^verbatim>\<open>maxOwnerDepth\<close>, which end it on cyclic
  references; the audit trail is cut at 20 entries. \<open>mem_retry\<close> gives the executable cluster five
  attempts, those of client-go's default backoff; \<open>retry_contract\<close> leaves their number open. JSON
  nests at most 10000 deep, as in \<^verbatim>\<open>encoding/json\<close>; \<open>writable\<close> states this bound for a value. All
  other loops of the program run over finite lists and are structural, or have a measure. A
  float64 is an exact rational with rounding to nearest even; conversions to \<^verbatim>\<open>int64\<close> out
  of range are a parameter, because Go leaves them to the implementation.

  \<^bold>\<open>Parameters.\<close> The API server, its client, the network and the clock; apimachinery's
  \<^verbatim>\<open>resource.Quantity\<close>, label selectors, group-version parser and the deep copies of its own
  structs; the calls of
  controller-runtime and the flags of other packages; and of the standard library the Unicode
  tables, \<^verbatim>\<open>ParseFloat\<close>, \<^verbatim>\<open>%q\<close>, the check of a URL, the texts of JSON errors and the
  unstable \<^verbatim>\<open>sort.Slice\<close>, which is given the code's own less function. No property
  assumes more of them than its premises say.

  \<^bold>\<open>Not modelled.\<close> The registration of the scheme, logging, request timeouts and cancellation, the
  mutex of the rate limiter (calls are atomic, so concurrent use is a sequence of them), the shell
  helpers of the end-to-end tests, and the manifests. The retention period of obituaries is a
  field without a reader in the code. The capacity of a slice and the iteration order of a map
  that is only copied are not observed by the code and left out.
\<close>

section \<open>The operator end to end\<close>

text \<open>
  C1: against a quiet cluster, reconciling a pod whose death is detected ends without an error
  and with an obituary, under the issue key of the diagnosis of the owners and events found,
  whose latest episode is this death. Either that obituary had counted the episode already and
  is left as it was, or it has just been filed with that diagnosis; its audit trail then starts
  afresh, so it holds at most the record of the heal that followed.
\<close>
theorem pod_death_ends_in_obituary:
  assumes "quiet_koroner K versions e" and "sound_factory e" and "rc_self_heal rc = Some e"
    and "detects_pod L K rc req w pod cfg death"
  shows "\<exists>w' r' u owners evs st. run_state (PodReconcile L K rc req) (w, r) = (None, (w', r')) \<and>
    versions u = versions w \<and> gathered L K (pod_meta pod) u = (owners, evs) \<and>
    (let subject = workloadSubject pod owners;
         verdict = diagnose (lib_uni_lower L) (death_evidence death evs);
         k = issueKey subject (pd_container death) (v_cause verdict);
         episode = pod_episode (om_uid (pod_meta pod)) (pd_restart_count death)
     in status_at versions w' (obituary_object_key L subject k) = Some st \<and>
        st_last_episode st = episode \<and>
        (status_at versions w (obituary_object_key L subject k) = Some st \<or>
         filed subject (pd_container death) verdict episode (om_name (pod_meta pod)) k st \<and>
         length (st_heal_attempts st) \<le> 1))"
  unfolding Let_def by (rule quiet_koroner.PodReconcile_records[OF assms, of r]) blast

lemma default_watch:
  "cfg_namespace_selector DefaultKoronerConfigSpec = None"
  "wp_pod_crashes (cfg_watch DefaultKoronerConfigSpec) = Some True"
  "wp_job_failures (cfg_watch DefaultKoronerConfigSpec) = Some True"
  by (simp_all add: DefaultKoronerConfigSpec_def defaults_simps zero_spec_def)

lemma mem_default_config:
  "m_configs w = [] \<Longrightarrow> run_state (resolveConfig mem_client ns ''koroner'') w = (DefaultKoronerConfigSpec, w)"
  by (simp add: resolveConfig_def mem_client_def mem_read_def)

lemma sample_pod_detected:
  "detects_pod sample_lib mem_client sample_reconciler (''prod'', ''web-1'') pod_mem sample_pod
     DefaultKoronerConfigSpec (the (detectPodDeath sample_pod DefaultKoronerConfigSpec))"
proof -
  have "detectPodDeath sample_pod DefaultKoronerConfigSpec \<noteq> None" by code_simp
  then have "detectPodDeath sample_pod DefaultKoronerConfigSpec =
      Some (the (detectPodDeath sample_pod DefaultKoronerConfigSpec))" by simp
  moreover have "run_state (k_get_pod mem_client (''prod'', ''web-1'')) pod_mem = (Inr sample_pod, pod_mem)"
    by (simp add: mem_read_def pod_mem_def)
  moreover have "m_configs pod_mem = []" by (simp add: pod_mem_def empty_mem_def)
  ultimately show ?thesis
    by (simp add: detects_pod_def sample_reconciler_def mem_default_config default_watch namespaceWatched_def)
qed

corollary pod_death_ends_in_obituary_witness:
  "\<exists>w' r' k st. run_state (PodReconcile sample_lib mem_client sample_reconciler (''prod'', ''web-1''))
      (pod_mem, newRateLimiter) = (None, (w', r')) \<and>
    status_at mem_versions w' k = Some st \<and> st_last_episode st = ''u2/4'' \<and>
    length (st_heal_attempts st) \<le> 1"
proof -
  let ?d = "the (detectPodDeath sample_pod DefaultKoronerConfigSpec)"
  have healer: "rc_self_heal sample_reconciler = Some NewEngine" by (simp add: sample_reconciler_def)
  have ep: "pod_episode (om_uid (pod_meta sample_pod)) (pd_restart_count ?d) = ''u2/4''" by code_simp
  have new: "status_at mem_versions pod_mem k = None" for k
    by (simp add: status_at_def pod_mem_def empty_mem_def log_versions_def)
  from pod_death_ends_in_obituary[OF mem_koroner.quiet_koroner_axioms sound_factory_NewEngine healer
      sample_pod_detected, of newRateLimiter]
  show ?thesis unfolding Let_def ep new by (elim exE conjE disjE, simp, blast)
qed

text \<open>
  C12: the same for a Job that failed: the reconcile ends without an error and with an obituary
  of the Job's top owner whose latest episode is the Job, filed with high confidence, as a
  failed Job unless an event is a liveness failure.
\<close>
theorem job_failure_ends_in_obituary:
  assumes "quiet_koroner K versions e" and "sound_factory e" and "rc_self_heal rc = Some e"
    and "detects_job L K rc req w job cfg"
  shows "\<exists>w' r' u owners evs st. run_state (JobReconcile L K rc req) (w, r) = (None, (w', r')) \<and>
    versions u = versions w \<and> gathered L K (job_meta job) u = (owners, evs) \<and>
    (let subject = jobSubject job owners;
         verdict = diagnose (lib_uni_lower L) (job_evidence evs);
         k = issueKey subject '''' (v_cause verdict)
     in v_confidence verdict = ConfidenceHigh \<and>
        v_cause verdict = (if \<exists>ev \<in> set evs. is_liveness_failure (lib_uni_lower L) ev
          then CauseProbeFailure else CauseJobFailed) \<and>
        status_at versions w' (obituary_object_key L subject k) = Some st \<and>
        st_last_episode st = om_uid (job_meta job) \<and>
        (status_at versions w (obituary_object_key L subject k) = Some st \<or>
         filed subject '''' verdict (om_uid (job_meta job)) (om_name (job_meta job)) k st \<and>
         length (st_heal_attempts st) \<le> 1))"
  unfolding Let_def job_verdict(1)
  by (rule quiet_koroner.JobReconcile_records[OF assms, of r]) (use job_verdict(2) in blast)

definition sample_job :: job where
  "sample_job = \<lparr>job_meta = zero_meta\<lparr>om_name := ''backup'', om_namespace := ''prod'', om_uid := ''j1''\<rparr>,
     job_conditions = [\<lparr>jc_type = ''Failed'', jc_status = ''True'', jc_message = ''BackoffLimitExceeded''\<rparr>]\<rparr>"

definition job_mem :: mem where
  "job_mem = empty_mem\<lparr>m_jobs := [(''prod'', ''backup'') \<mapsto> sample_job]\<rparr>"

lemma sample_job_detected:
  "detects_job sample_lib mem_client sample_reconciler (''prod'', ''backup'') job_mem sample_job
     DefaultKoronerConfigSpec"
proof -
  have "run_state (k_get_job mem_client (''prod'', ''backup'')) job_mem = (Inr sample_job, job_mem)"
    by (simp add: mem_client_def mem_read_def job_mem_def)
  moreover have "m_configs job_mem = []" by (simp add: job_mem_def empty_mem_def)
  ultimately show ?thesis
    by (simp add: detects_job_def sample_reconciler_def mem_default_config default_watch
        namespaceWatched_def sample_job_def)
qed

corollary job_failure_ends_in_obituary_witness:
  "\<exists>w' r' k st. run_state (JobReconcile sample_lib mem_client sample_reconciler (''prod'', ''backup''))
      (job_mem, newRateLimiter) = (None, (w', r')) \<and>
    status_at mem_versions w' k = Some st \<and> st_last_episode st = ''j1'' \<and> st_confidence st = ConfidenceHigh"
proof -
  have healer: "rc_self_heal sample_reconciler = Some NewEngine" by (simp add: sample_reconciler_def)
  have job_uid: "om_uid (job_meta sample_job) = ''j1''" by (simp add: sample_job_def)
  have new: "status_at mem_versions job_mem k = None" for k
    by (simp add: status_at_def job_mem_def empty_mem_def log_versions_def)
  from job_failure_ends_in_obituary[OF mem_koroner.quiet_koroner_axioms sound_factory_NewEngine healer
      sample_job_detected, of newRateLimiter]
  show ?thesis unfolding Let_def new filed_def job_uid by (elim exE conjE disjE, simp, metis)
qed

text \<open>
  C11: against a cluster without faults, where nobody else writes obituaries and reads see the
  latest version, however whole pod and Job reconciles, changes of the cluster outside the
  obituaries and restarts between reconciles follow each other, the obituaries stay well kept:
  each is complete, says when it was first seen, and has an audit trail within the engine's bound.
  A call that fails, or a stop between the creation and the first status write, can leave an
  obituary that is not complete; what holds then is the last property below.
\<close>
theorem obituaries_stay_well_kept:
  assumes "quiet_koroner K versions e" and "sound_factory e" and "0 < eng_max_attempts e"
    and "rc_self_heal rc \<in> {None, Some e}"
    and "all_kept (eng_max_attempts e) (status_at versions w0)"
    and "operator_reach L K (\<lambda>w w'. versions w' = versions w) rc w0 (w, r)"
  shows "all_kept (eng_max_attempts e) (status_at versions w)"
  using quiet_koroner.reach_kept[OF assms(1,6,2-5)] by simp

corollary obituaries_stay_well_kept_witness:
  "operator_reach sample_lib mem_client (\<lambda>w w'. mem_versions w' = mem_versions w) sample_reconciler pod_mem
      (fst (snd (run_state (PodReconcile sample_lib mem_client sample_reconciler (''prod'', ''web-1''))
        (pod_mem, newRateLimiter))), newRateLimiter) \<and>
   all_kept 20 (status_at mem_versions
      (fst (snd (run_state (PodReconcile sample_lib mem_client sample_reconciler (''prod'', ''web-1''))
        (pod_mem, newRateLimiter)))))"
proof
  let ?s = "snd (run_state (PodReconcile sample_lib mem_client sample_reconciler (''prod'', ''web-1''))
    (pod_mem, newRateLimiter))"
  let ?reach = "operator_reach sample_lib mem_client (\<lambda>w w'. mem_versions w' = mem_versions w)
    sample_reconciler pod_mem"
  have "?reach ?s"
    by (rule operator_reach.step[OF operator_reach.start operator_step.pod_event]) (rule prod.collapse[symmetric])
  then have "?reach (fst ?s, snd ?s)" by simp
  then show r: "?reach (fst ?s, newRateLimiter)" using operator_step.restart by (rule operator_reach.step)
  have max: "eng_max_attempts (NewEngine :: mem engine) = 20" by (simp add: NewEngine_def)
  have new: "status_at mem_versions pod_mem k = None" for k
    by (simp add: status_at_def pod_mem_def empty_mem_def log_versions_def)
  have "all_kept (eng_max_attempts (NewEngine :: mem engine)) (status_at mem_versions pod_mem)"
    by (simp add: all_kept_def new)
  from obituaries_stay_well_kept[OF mem_koroner.quiet_koroner_axioms sound_factory_NewEngine _ _ this r]
  show "all_kept 20 (status_at mem_versions (fst ?s))"
    by (simp add: max sample_reconciler_def)
qed

text \<open>
  C22: when any call can fail, with or without effect, reads are stale, other writers share the
  obituaries and keep the same order, and the process can stop at any call, every version of
  every obituary that was ever stored has an audit trail within the engine's bound, and is either
  complete, with a verdict and the times it was first and last seen, or was not written since its
  creation but for records of heals, and then names no episode, so that the next report of the
  death is recorded instead of being taken for a redelivery.
\<close>
theorem obituaries_stay_orderly_under_faults:
  assumes "shared_koroner K versions e" and "0 < eng_max_attempts e" and "rc_self_heal rc \<in> {None, Some e}"
    and "in_order (eng_max_attempts e) versions w0"
    and "operator_reach L K (keeps_order (eng_max_attempts e) versions) rc w0 (w, r)"
  shows "\<forall>k x. Some x \<in> set (versions w k) \<longrightarrow>
    int (length (st_heal_attempts (obit_status x))) \<le> eng_max_attempts e \<and>
    (st_phase (obit_status x) = PhaseComplete \<and> st_confidence (obit_status x) \<noteq> ConfidenceUnset \<and>
       st_first_seen (obit_status x) \<noteq> None \<and> st_last_seen (obit_status x) \<noteq> None \<or>
     st_phase (obit_status x) = PhaseUnset \<and> st_confidence (obit_status x) = ConfidenceUnset \<and>
       st_first_seen (obit_status x) = None \<and> st_last_episode (obit_status x) = '''')"
  using shared_koroner.reach_in_order[OF assms(1,5,4,2,3)] by (simp add: in_order_def orderly_def)

text \<open>
  The obituary whose first status write was lost, and a cluster that loses every further one: the
  reconcile of the crashing pod and a restart.
\<close>
corollary obituaries_stay_orderly_under_faults_witness:
  "\<exists>w'. operator_reach sample_lib (faulty_client (\<lambda>w. Some False)) (keeps_order 20 mem_versions) sample_reconciler
      (pod_mem\<lparr>m_log := [(sample_key, Some (new_obituary sample_lib (sample_death ''u1/1'')))]\<rparr>)
      (w', newRateLimiter) \<and>
    in_order 20 mem_versions w'"
proof -
  let ?K = "faulty_client (\<lambda>w. Some False)"
  let ?w0 = "pod_mem\<lparr>m_log := [(sample_key, Some (new_obituary sample_lib (sample_death ''u1/1'')))]\<rparr>"
  let ?s = "snd (run_state (PodReconcile sample_lib ?K sample_reconciler (''prod'', ''web-1'')) (?w0, newRateLimiter))"
  have max: "eng_max_attempts (NewEngine :: mem engine) = 20" by (simp add: NewEngine_def)
  have start: "in_order (eng_max_attempts (NewEngine :: mem engine)) mem_versions ?w0"
    by (simp add: in_order_def orderly_def max log_versions_def stamp_def new_obituary_def zero_status_def
        pod_mem_def empty_mem_def)
  have "operator_reach sample_lib ?K (keeps_order 20 mem_versions) sample_reconciler ?w0 ?s"
    by (rule operator_reach.step[OF operator_reach.start operator_step.pod_event]) (rule prod.collapse[symmetric])
  then have "operator_reach sample_lib ?K (keeps_order 20 mem_versions) sample_reconciler ?w0 (fst ?s, snd ?s)"
    by simp
  then have r: "operator_reach sample_lib ?K (keeps_order 20 mem_versions) sample_reconciler ?w0
      (fst ?s, newRateLimiter)"
    using operator_step.restart by (rule operator_reach.step)
  from obituaries_stay_orderly_under_faults[OF faulty_koroner.shared_koroner_axioms _ _ start,
      of sample_reconciler sample_lib _ "fst ?s" newRateLimiter] r
  have "in_order 20 mem_versions (fst ?s)"
    by (simp add: max sample_reconciler_def in_order_def orderly_def)
  with r show ?thesis by blast
qed

end
